(* ===== verification/Prelude.thy ===== *)
theory Prelude
  imports Main "HOL-Library.Sublist"
begin

text \<open>
  Shared ground of the development: Go strings and the parts of the packages
  \<^verbatim>\<open>strings\<close> and \<^verbatim>\<open>strconv\<close> that the drone components call, Go maps as association
  lists, and the theorem collections the component theories extend.

  A Go string is a sequence of bytes, here a \<^typ>\<open>string\<close>. The case and white-space
  functions follow Go on ASCII text; Go's Unicode tables beyond ASCII are not modelled.
\<close>

named_theorems go_defs \<open>unfolding rules for the small Go library functions\<close>
named_theorems prog_defs \<open>unfolding rules for the shared effectful helpers\<close>

section \<open>Package strings\<close>

definition is_space :: "char \<Rightarrow> bool" where
  "is_space c \<longleftrightarrow> c \<in> set [CHR 0x09, CHR 0x0A, CHR 0x0B, CHR 0x0C, CHR 0x0D, CHR '' '']"

text \<open>\<^verbatim>\<open>strings.TrimSpace\<close>, and \<^verbatim>\<open>strings.TrimRight\<close> for one cut character.\<close>

definition TrimSpace :: "string \<Rightarrow> string" where
  "TrimSpace s = rev (dropWhile is_space (rev (dropWhile is_space s)))"

definition TrimRight :: "string \<Rightarrow> char \<Rightarrow> string" where
  "TrimRight s c = rev (dropWhile (\<lambda>x. x = c) (rev s))"

definition upper_char :: "char \<Rightarrow> char" where
  "upper_char c = (let n = of_char c :: nat in if 97 \<le> n \<and> n \<le> 122 then char_of (n - 32) else c)"

definition lower_char :: "char \<Rightarrow> char" where
  "lower_char c = (let n = of_char c :: nat in if 65 \<le> n \<and> n \<le> 90 then char_of (n + 32) else c)"

definition ToUpper :: "string \<Rightarrow> string" where
  "ToUpper s = map upper_char s"

definition ToLower :: "string \<Rightarrow> string" where
  "ToLower s = map lower_char s"

definition EqualFold :: "string \<Rightarrow> string \<Rightarrow> bool" where
  "EqualFold s t \<longleftrightarrow> ToLower s = ToLower t"

definition HasPrefix :: "string \<Rightarrow> string \<Rightarrow> bool" where
  "HasPrefix s p \<longleftrightarrow> prefix p s"

definition HasSuffix :: "string \<Rightarrow> string \<Rightarrow> bool" where
  "HasSuffix s p \<longleftrightarrow> suffix p s"

definition Contains :: "string \<Rightarrow> string \<Rightarrow> bool" where
  "Contains s p \<longleftrightarrow> sublist p s"

text \<open>
  \<^verbatim>\<open>strings.ReplaceAll\<close> for a non-empty pattern: the leftmost occurrences, not overlapping.
  Every call in the sources passes a non-empty literal as \<^verbatim>\<open>old\<close>; an empty one leaves the
  string as it is here.
\<close>

function ReplaceAll :: "string \<Rightarrow> string \<Rightarrow> string \<Rightarrow> string" where
  "ReplaceAll s old new =
     (case s of [] \<Rightarrow> []
      | c # cs \<Rightarrow>
          if old \<noteq> [] \<and> prefix old s then new @ ReplaceAll (drop (length old) s) old new
          else c # ReplaceAll cs old new)"
  by pat_completeness auto
termination
  by (relation "measure (\<lambda>(s, old, new). length s)") (auto simp: prefix_def)

declare ReplaceAll.simps [simp del]

text \<open>\<^verbatim>\<open>strings.Split\<close> for a separator of one byte: always at least one piece.\<close>

fun Split :: "string \<Rightarrow> char \<Rightarrow> string list" where
  "Split [] c = [[]]"
| "Split (x # xs) c =
     (if x = c then [] # Split xs c
      else (case Split xs c of [] \<Rightarrow> [[x]] | p # ps \<Rightarrow> (x # p) # ps))"

text \<open>\<^verbatim>\<open>strings.Fields\<close>: the maximal runs of bytes that are not white space.\<close>

fun fields_acc :: "string \<Rightarrow> string \<Rightarrow> string list" where
  "fields_acc [] acc = (if acc = [] then [] else [rev acc])"
| "fields_acc (x # xs) acc =
     (if is_space x then (if acc = [] then fields_acc xs [] else rev acc # fields_acc xs [])
      else fields_acc xs (x # acc))"

definition Fields :: "string \<Rightarrow> string list" where
  "Fields s = fields_acc s []"

section \<open>Package strconv: decimal rendering\<close>

definition digit_char :: "nat \<Rightarrow> char" where
  "digit_char d = char_of (48 + d)"

fun nat_digits :: "nat \<Rightarrow> string" where
  "nat_digits n = (if n < 10 then [digit_char n] else nat_digits (n div 10) @ [digit_char (n mod 10)])"

declare nat_digits.simps [simp del]

definition Itoa :: "int \<Rightarrow> string" where
  "Itoa n = (if n < 0 then CHR ''-'' # nat_digits (nat (- n)) else nat_digits (nat n))"

text \<open>\<^verbatim>\<open>strconv.Atoi\<close>: an optional sign and decimal digits, \<^const>\<open>None\<close> on a syntax or range error.\<close>

definition is_digit :: "char \<Rightarrow> bool" where
  "is_digit c \<longleftrightarrow> (let n = of_char c :: nat in 48 \<le> n \<and> n \<le> 57)"

definition digits_val :: "string \<Rightarrow> int" where
  "digits_val s = foldl (\<lambda>acc c. acc * 10 + (of_char c - 48)) 0 s"

definition Atoi :: "string \<Rightarrow> int option" where
  "Atoi s =
     (let neg = (s \<noteq> [] \<and> hd s = CHR ''-'');
          body = (if s \<noteq> [] \<and> (hd s = CHR ''-'' \<or> hd s = CHR ''+'') then tl s else s);
          n = (if neg then - digits_val body else digits_val body)
      in if body = [] \<or> \<not> list_all is_digit body \<or> n < - (2 ^ 63) \<or> 2 ^ 63 \<le> n then None else Some n)"

section \<open>Go maps\<close>

text \<open>
  A Go map with string keys is an association list; \<^const>\<open>map_of\<close> reads it, \<open>put\<close> is the
  assignment \<open>m[k] = v\<close>. The position of an entry carries no meaning: every
  statement of the development reads maps through \<^const>\<open>map_of\<close> or its domain.
\<close>

fun put :: "'k \<Rightarrow> 'v \<Rightarrow> ('k \<times> 'v) list \<Rightarrow> ('k \<times> 'v) list" where
  "put k v [] = [(k, v)]"
| "put k v ((k', v') # m) = (if k = k' then (k, v) # m else (k', v') # put k v m)"

definition mdelete :: "'k \<Rightarrow> ('k \<times> 'v) list \<Rightarrow> ('k \<times> 'v) list" where
  "mdelete k m = filter (\<lambda>p. fst p \<noteq> k) m"

text \<open>Copying every entry of \<open>m\<close> into \<open>d\<close> (\<^verbatim>\<open>for k, v := range m { d[k] = v }\<close>).\<close>

fun put_all :: "('k \<times> 'v) list \<Rightarrow> ('k \<times> 'v) list \<Rightarrow> ('k \<times> 'v) list" where
  "put_all [] d = d"
| "put_all ((k, v) # m) d = put_all m (put k v d)"

section \<open>Lemmas\<close>

lemma TrimSpace_Nil [simp]: "TrimSpace [] = []"
  by (simp add: TrimSpace_def)

lemma dropWhile_idem [simp]: "dropWhile P (dropWhile P xs) = dropWhile P xs"
  by (induction xs) auto

lemma dropWhile_hd: "xs = [] \<or> \<not> P (hd xs) \<Longrightarrow> dropWhile P xs = xs"
  by (cases xs) auto

text \<open>A string that neither starts nor ends with white space is its own trimming.\<close>

lemma TrimSpace_id:
  assumes "s \<noteq> []" "\<not> is_space (hd s)" "\<not> is_space (last s)"
  shows "TrimSpace s = s"
  using assms by (simp add: TrimSpace_def dropWhile_hd hd_rev)

lemma TrimSpace_ends:
  assumes "TrimSpace s \<noteq> []"
  shows "\<not> is_space (hd (TrimSpace s))" "\<not> is_space (last (TrimSpace s))"
proof -
  define d where "d = dropWhile is_space s"
  define r where "r = dropWhile is_space (rev d)"
  have trim: "TrimSpace s = rev r" by (simp add: TrimSpace_def d_def r_def)
  with assms have r: "r \<noteq> []" by simp
  show "\<not> is_space (last (TrimSpace s))"
    using r hd_dropWhile [of is_space "rev d"] by (simp add: trim last_rev r_def)
  have "rev d = takeWhile is_space (rev d) @ r"
    by (simp add: r_def)
  then have d: "d = rev r @ rev (takeWhile is_space (rev d))"
    by (metis rev_append rev_rev_ident)
  have "hd d = hd (rev r)" "d \<noteq> []"
    using r by (subst d, simp)+
  then show "\<not> is_space (hd (TrimSpace s))"
    using hd_dropWhile [of is_space s] by (simp add: trim d_def)
qed

lemma TrimSpace_idem [simp]: "TrimSpace (TrimSpace s) = TrimSpace s"
  by (cases "TrimSpace s = []") (simp_all add: TrimSpace_id TrimSpace_ends)

lemma set_TrimSpace: "set (TrimSpace s) \<subseteq> set s"
  by (auto simp: TrimSpace_def dest!: set_dropWhileD)

lemma map_of_put [simp]: "map_of (put k v m) = (map_of m)(k \<mapsto> v)"
  by (induction k v m rule: put.induct) (auto simp: fun_eq_iff)

lemma keys_put [simp]: "set (map fst (put k v m)) = insert k (set (map fst m))"
  by (induction k v m rule: put.induct) auto

lemma fst_image_put [simp]: "fst ` set (put k v m) = insert k (fst ` set m)"
  using keys_put [of k v m] by simp

lemma distinct_put [simp]: "distinct (map fst m) \<Longrightarrow> distinct (map fst (put k v m))"
  by (induction k v m rule: put.induct) auto

lemma put_not_Nil [simp]: "put k v m \<noteq> []"
  by (cases m) (auto split: if_splits)

lemma map_of_mdelete [simp]: "map_of (mdelete k m) = (map_of m)(k := None)"
  by (induction m) (auto simp: mdelete_def fun_eq_iff)

lemma map_of_put_all [simp]:
  "distinct (map fst m) \<Longrightarrow> map_of (put_all m d) = map_of d ++ map_of m"
proof (induction m d rule: put_all.induct)
  case (1 d)
  then show ?case by simp
next
  case (2 k v m d)
  then show ?case by (auto simp: map_add_def fun_eq_iff map_of_eq_None_iff split: option.splits)
qed

lemma Split_not_Nil [simp]: "Split s c \<noteq> []"
  by (induction s c rule: Split.induct) (auto split: list.splits)

lemma Split_free [simp]: "c \<notin> set x \<Longrightarrow> Split x c = [x]"
  by (induction x) auto

lemma Split_sep [simp]: "c \<notin> set x \<Longrightarrow> Split (x @ c # ys) c = x # Split ys c"
  by (induction x) auto

text \<open>Joining with a separator that occurs in no piece is undone by splitting.\<close>

fun Join :: "char \<Rightarrow> string list \<Rightarrow> string" where
  "Join c [] = []"
| "Join c [x] = x"
| "Join c (x # y # ys) = x @ c # Join c (y # ys)"

lemma Split_Join: "xs \<noteq> [] \<Longrightarrow> (\<And>x. x \<in> set xs \<Longrightarrow> c \<notin> set x) \<Longrightarrow> Split (Join c xs) c = xs"
  by (induction c xs rule: Join.induct) auto

lemma set_Join: "set (Join c xs) \<subseteq> insert c (\<Union> (set ` set xs))"
  by (induction c xs rule: Join.induct) auto

lemma hd_Join: "xs \<noteq> [] \<Longrightarrow> hd xs \<noteq> [] \<Longrightarrow> Join c xs \<noteq> [] \<and> hd (Join c xs) = hd (hd xs)"
  by (induction c xs rule: Join.induct) auto

lemma last_Join: "xs \<noteq> [] \<Longrightarrow> last xs \<noteq> [] \<Longrightarrow> Join c xs \<noteq> [] \<and> last (Join c xs) = last (last xs)"
  by (induction c xs rule: Join.induct) auto

text \<open>Reading back a printed number.\<close>

lemma of_char_digit_char: "d < 10 \<Longrightarrow> (of_char (digit_char d) :: nat) = 48 + d"
  by (simp add: digit_char_def)

lemma int_of_char: "(of_char c :: int) = int (of_char c)"
  by (simp add: of_nat_of_char)

lemma digit_char_simps [simp]:
  "d < 10 \<Longrightarrow> is_digit (digit_char d)" "d < 10 \<Longrightarrow> (of_char (digit_char d) :: int) - 48 = int d"
  by (simp_all add: is_digit_def of_char_digit_char int_of_char)

lemma digits_val_snoc [simp]: "digits_val (s @ [c]) = digits_val s * 10 + (of_char c - 48)"
  by (simp add: digits_val_def)

lemma nat_digits_props: "nat_digits n \<noteq> [] \<and> list_all is_digit (nat_digits n) \<and> digits_val (nat_digits n) = int n"
proof (induction n rule: nat_digits.induct)
  case (1 n)
  show ?case
  proof (cases "n < 10")
    case True
    then show ?thesis by (simp add: nat_digits.simps [of n] digits_val_snoc [of "[]", simplified] digits_val_def)
  next
    case False
    have "int (n div 10) * 10 + int (n mod 10) = int n"
      by (metis div_mult_mod_eq of_nat_add of_nat_mult of_nat_numeral)
    with 1 [OF False] False show ?thesis by (simp add: nat_digits.simps [of n])
  qed
qed

lemmas nat_digits_simps [simp] = nat_digits_props [THEN conjunct1]
  nat_digits_props [THEN conjunct2, THEN conjunct1] nat_digits_props [THEN conjunct2, THEN conjunct2]

lemma is_digit_plain: "is_digit c \<Longrightarrow> c \<noteq> CHR ''-'' \<and> c \<noteq> CHR ''+'' \<and> \<not> is_space c"
  by (auto simp: is_digit_def is_space_def)

lemma nat_digits_hd: "is_digit (hd (nat_digits n))" "is_digit (last (nat_digits n))"
  using nat_digits_props [of n] by (cases "nat_digits n"; simp add: list_all_iff)+

lemma Atoi_Itoa: "- (2 ^ 63) \<le> n \<Longrightarrow> n < 2 ^ 63 \<Longrightarrow> Atoi (Itoa n) = Some n"
  using is_digit_plain [OF nat_digits_hd(1) [of "nat n"]]
  by (auto simp: Atoi_def Itoa_def Let_def)

lemma Itoa_nat_plain: "c \<in> set (Itoa (int n)) \<Longrightarrow> is_digit c"
  using nat_digits_props [of n] by (auto simp: Itoa_def list_all_iff)

lemma Itoa_not_Nil [simp]: "Itoa n \<noteq> []"
  by (simp add: Itoa_def)

end
