(* ===== verification/Float64.thy ===== *)
theory Float64
  imports Prelude Complex_Main "HOL-Library.Log_Nat"
begin

text \<open>
  Go's \<^verbatim>\<open>float64\<close>: IEEE 754 binary64 with round to nearest, ties to even. A finite value is
  the rational number it denotes, so comparisons are exact and every arithmetic
  operation is the exact result followed by \<open>round64\<close>. The two zeros are one value here:
  no component of the system divides by a computed value or prints a sign of zero, so the
  sources cannot tell them apart. Fused multiply-add is not used (Go fuses on some
  processors only).

  The elementary functions of package \<^verbatim>\<open>math\<close> that are not correctly rounded differ between
  processors; they are the fields of a \<open>libm\<close> record that the definitions take as an
  argument.
\<close>

section \<open>Values and comparisons\<close>

datatype float64 = NaN | PInf | NInf | Fin rat

fun flt :: "float64 \<Rightarrow> float64 \<Rightarrow> bool" where
  "flt NaN _ = False"
| "flt _ NaN = False"
| "flt (Fin a) (Fin b) = (a < b)"
| "flt NInf NInf = False"
| "flt NInf _ = True"
| "flt _ NInf = False"
| "flt PInf _ = False"
| "flt (Fin _) PInf = True"

definition fgt :: "float64 \<Rightarrow> float64 \<Rightarrow> bool" where
  "fgt x y = flt y x"

definition feq :: "float64 \<Rightarrow> float64 \<Rightarrow> bool" where
  "feq x y \<longleftrightarrow> x \<noteq> NaN \<and> x = y"

definition fle :: "float64 \<Rightarrow> float64 \<Rightarrow> bool" where
  "fle x y \<longleftrightarrow> flt x y \<or> feq x y"

definition fge :: "float64 \<Rightarrow> float64 \<Rightarrow> bool" where
  "fge x y = fle y x"

fun is_fin :: "float64 \<Rightarrow> bool" where
  "is_fin (Fin _) = True"
| "is_fin _ = False"

section \<open>Rounding\<close>

definition pow2 :: "int \<Rightarrow> rat" where
  "pow2 e = (if 0 \<le> e then 2 ^ nat e else 1 / 2 ^ nat (- e))"

text \<open>\<open>ilog2 q\<close> is the exponent \<open>e\<close> with \<open>2^e \<le> q < 2^(e+1)\<close>, for positive \<open>q\<close>.\<close>

definition ilog2 :: "rat \<Rightarrow> int" where
  "ilog2 q = (let (n, d) = quotient_of q; e = bitlen n - bitlen d
              in if pow2 e \<le> q then e else e - 1)"

definition round_half_even :: "rat \<Rightarrow> int" where
  "round_half_even x =
     (let f = \<lfloor>x\<rfloor>; r = x - of_int f
      in if r < 1/2 then f else if r > 1/2 then f + 1 else if even f then f else f + 1)"

definition round64 :: "rat \<Rightarrow> float64" where
  "round64 q =
     (if q = 0 then Fin 0
      else let u = pow2 (max (ilog2 \<bar>q\<bar>) (-1022) - 52);
               r = of_int (round_half_even (q / u)) * u
           in if 1024 \<le> ilog2 \<bar>r\<bar> then (if 0 < q then PInf else NInf) else Fin r)"

section \<open>Arithmetic\<close>

fun fneg :: "float64 \<Rightarrow> float64" where
  "fneg NaN = NaN"
| "fneg PInf = NInf"
| "fneg NInf = PInf"
| "fneg (Fin a) = Fin (- a)"

fun fadd :: "float64 \<Rightarrow> float64 \<Rightarrow> float64" where
  "fadd NaN _ = NaN"
| "fadd _ NaN = NaN"
| "fadd (Fin a) (Fin b) = round64 (a + b)"
| "fadd PInf NInf = NaN"
| "fadd NInf PInf = NaN"
| "fadd PInf _ = PInf"
| "fadd _ PInf = PInf"
| "fadd NInf _ = NInf"
| "fadd _ NInf = NInf"

definition fsub :: "float64 \<Rightarrow> float64 \<Rightarrow> float64" where
  "fsub x y = fadd x (fneg y)"

text \<open>The sign of a value, and the infinity (or NaN, for a zero factor) of that sign.\<close>

fun fsgn :: "float64 \<Rightarrow> rat" where
  "fsgn (Fin a) = sgn a"
| "fsgn PInf = 1"
| "fsgn NInf = -1"
| "fsgn NaN = 0"

definition finf :: "rat \<Rightarrow> float64" where
  "finf s = (if s = 0 then NaN else if 0 < s then PInf else NInf)"

fun fmul :: "float64 \<Rightarrow> float64 \<Rightarrow> float64" where
  "fmul (Fin a) (Fin b) = round64 (a * b)"
| "fmul NaN _ = NaN"
| "fmul _ NaN = NaN"
| "fmul x y = finf (fsgn x * fsgn y)"

text \<open>
  Division, for the constant non-zero divisors the sources use; a zero divisor gives the
  infinity of the dividend's sign.
\<close>

fun fdiv :: "float64 \<Rightarrow> float64 \<Rightarrow> float64" where
  "fdiv NaN _ = NaN"
| "fdiv _ NaN = NaN"
| "fdiv (Fin a) (Fin b) = (if b = 0 then finf (sgn a) else round64 (a / b))"
| "fdiv (Fin a) _ = Fin 0"
| "fdiv x (Fin b) = finf (fsgn x * (if b < 0 then -1 else 1))"
| "fdiv _ _ = NaN"

fun fabs :: "float64 \<Rightarrow> float64" where
  "fabs NaN = NaN"
| "fabs (Fin a) = Fin \<bar>a\<bar>"
| "fabs _ = PInf"

text \<open>\<^verbatim>\<open>float64(n)\<close> of an integer; \<^verbatim>\<open>int64(x)\<close> truncates towards zero.\<close>

definition float_of_int :: "int \<Rightarrow> float64" where
  "float_of_int n = round64 (of_int n)"

definition rat_trunc :: "rat \<Rightarrow> int" where
  "rat_trunc q = (if 0 \<le> q then \<lfloor>q\<rfloor> else \<lceil>q\<rceil>)"

text \<open>
  \<^verbatim>\<open>int64(x)\<close>: truncation towards zero. Go leaves the conversion of a value outside of int64 to
  the implementation; this is the result on amd64. \<open>wrap64\<close> is the wrap-around of int64
  arithmetic.
\<close>

definition trunc64 :: "float64 \<Rightarrow> int" where
  "trunc64 x =
     (case x of
        Fin q \<Rightarrow> let n = rat_trunc q in if - (2 ^ 63) \<le> n \<and> n < 2 ^ 63 then n else - (2 ^ 63)
      | _ \<Rightarrow> - (2 ^ 63))"

definition wrap64 :: "int \<Rightarrow> int" where
  "wrap64 n = (n + 2 ^ 63) mod 2 ^ 64 - 2 ^ 63"

text \<open>\<^verbatim>\<open>math.Mod\<close>: the remainder of truncated division, exact.\<close>

fun fmod :: "float64 \<Rightarrow> float64 \<Rightarrow> float64" where
  "fmod (Fin a) (Fin b) = (if b = 0 then NaN else Fin (a - b * of_int (rat_trunc (a / b))))"
| "fmod (Fin a) PInf = Fin a"
| "fmod (Fin a) NInf = Fin a"
| "fmod _ _ = NaN"

text \<open>\<^verbatim>\<open>math.Pi\<close> as a float64: 884279719003555 / 2^48.\<close>

definition fpi :: float64 where
  "fpi = Fin (884279719003555 / 281474976710656)"

record libm =
  m_sin :: "float64 \<Rightarrow> float64"
  m_cos :: "float64 \<Rightarrow> float64"
  m_atan2 :: "float64 \<Rightarrow> float64 \<Rightarrow> float64"
  m_sqrt :: "float64 \<Rightarrow> float64"

section \<open>Lemmas\<close>

lemma round64_not_NaN [simp]: "round64 q \<noteq> NaN"
  by (simp add: round64_def Let_def)

lemma round64_0 [simp]: "round64 0 = Fin 0"
  by (simp add: round64_def)

lemma fadd_Fin_not_NaN [simp]: "fadd (Fin a) (Fin b) \<noteq> NaN"
  by simp

lemma fsub_Fin_not_NaN [simp]: "fsub (Fin a) (Fin b) \<noteq> NaN"
  by (simp add: fsub_def)

lemma flt_irrefl [simp]: "\<not> flt x x"
  by (cases x) auto

lemma flt_trans: "flt x y \<Longrightarrow> flt y z \<Longrightarrow> flt x z"
  by (cases x; cases y; cases z) auto

lemma flt_asym: "flt x y \<Longrightarrow> \<not> flt y x"
  by (cases x; cases y) auto

lemma flt_total: "x \<noteq> NaN \<Longrightarrow> y \<noteq> NaN \<Longrightarrow> flt x y \<or> x = y \<or> flt y x"
  by (cases x; cases y) auto

lemma not_flt_fle: "x \<noteq> NaN \<Longrightarrow> y \<noteq> NaN \<Longrightarrow> \<not> flt x y \<longleftrightarrow> fle y x"
  using flt_total [of x y] flt_asym [of x y] by (auto simp: fle_def feq_def)

lemma fle_refl [simp]: "fle x x \<longleftrightarrow> x \<noteq> NaN"
  by (simp add: fle_def feq_def)

lemma fle_trans: "fle x y \<Longrightarrow> fle y z \<Longrightarrow> fle x z"
  by (auto simp: fle_def feq_def intro: flt_trans)

lemma fle_Fin [simp]: "fle (Fin a) (Fin b) \<longleftrightarrow> a \<le> b"
  by (auto simp: fle_def feq_def)

lemma feq_Fin [simp]: "feq (Fin a) (Fin b) \<longleftrightarrow> a = b"
  by (simp add: feq_def)

lemma fgt_Fin [simp]: "fgt (Fin a) (Fin b) \<longleftrightarrow> b < a"
  by (simp add: fgt_def)

lemma fge_Fin [simp]: "fge (Fin a) (Fin b) \<longleftrightarrow> b \<le> a"
  by (simp add: fge_def)

lemma NaN_compare [simp]: "\<not> flt x NaN" "\<not> flt NaN x" "\<not> fle x NaN" "\<not> fle NaN x"
  by (cases x; simp add: fle_def feq_def)+

lemma is_fin_iff: "is_fin x \<longleftrightarrow> (\<exists>a. x = Fin a)"
  by (cases x) auto

text \<open>Rounding keeps values of moderate size finite; in particular every machine integer is finite.\<close>

lemma pow2_powi: "pow2 e = 2 powi e"
  by (simp add: pow2_def power_int_def power_one_over inverse_eq_divide)

lemma pow2_pos [simp]: "0 < pow2 e"
  by (simp add: pow2_def)

lemma pow2_mono: "a \<le> b \<Longrightarrow> pow2 a \<le> pow2 b"
  unfolding pow2_powi by (rule power_int_increasing) auto

text \<open>The exponent never overestimates.\<close>

lemma pow2_ilog2:
  assumes "0 < q"
  shows "pow2 (ilog2 q) \<le> q"
proof -
  obtain n d where nd: "quotient_of q = (n, d)" by (cases "quotient_of q")
  have d: "0 < d" using quotient_of_denom_pos [OF nd] .
  have q: "q = of_int n / of_int d" using quotient_of_div [OF nd] .
  have n: "0 < n" using assms d by (simp add: q zero_less_divide_iff)
  have bn: "0 < bitlen n" "0 < bitlen d" using n d bitlen_nonneg [of n] bitlen_nonneg [of d] bitlen_eq_zero_iff [of n] bitlen_eq_zero_iff [of d] by linarith+
  have "(2::int) ^ nat (bitlen n - 1) \<le> n" "d \<le> 2 ^ nat (bitlen d)"
    using bitlen_bounds [OF n] bitlen_bounds [OF d] by auto
  then have b: "(2::rat) ^ nat (bitlen n - 1) \<le> of_int n" "of_int d \<le> (2::rat) ^ nat (bitlen d)"
    by (metis of_int_le_iff of_int_numeral of_int_power)+
  have "pow2 (bitlen n - bitlen d - 1) = 2 powi (bitlen n - 1) / 2 powi (bitlen d)"
    unfolding pow2_powi by (simp add: power_int_diff [symmetric] diff_diff_eq add.commute)
  also have "\<dots> = 2 ^ nat (bitlen n - 1) / 2 ^ nat (bitlen d)"
    using bn by (simp add: power_int_def)
  also have "\<dots> \<le> of_int n / of_int d"
    using b d n by (intro frac_le) auto
  finally have "pow2 (bitlen n - bitlen d - 1) \<le> q" by (simp add: q)
  then show ?thesis by (simp add: ilog2_def nd Let_def)
qed

lemma round_half_even_near: "\<bar>of_int (round_half_even x) - x\<bar> \<le> 1"
proof -
  have "of_int \<lfloor>x\<rfloor> \<le> x" "x < of_int \<lfloor>x\<rfloor> + 1" using floor_correct [of x] by auto
  then have "\<bar>of_int \<lfloor>x\<rfloor> - x\<bar> \<le> 1" "\<bar>of_int \<lfloor>x\<rfloor> + 1 - x\<bar> \<le> 1" by linarith+
  then show ?thesis by (auto simp: round_half_even_def Let_def)
qed

lemma round64_finite:
  assumes "\<bar>q\<bar> \<le> 2 ^ 64"
  shows "is_fin (round64 q)"
proof (cases "q = 0")
  case False
  define u where "u = pow2 (max (ilog2 \<bar>q\<bar>) (-1022) - 52)"
  define r where "r = of_int (round_half_even (q / u)) * u"
  have u: "0 < u" by (simp add: u_def)
  have "u \<le> pow2 (max (ilog2 \<bar>q\<bar>) (-1022))" unfolding u_def by (rule pow2_mono) simp
  also have "\<dots> \<le> max \<bar>q\<bar> 1"
    using pow2_ilog2 [of "\<bar>q\<bar>"] False pow2_mono [of "-1022" 0] by (auto simp: max_def pow2_def split: if_splits)
  also have "\<dots> \<le> 2 ^ 64" using assms by simp
  finally have u64: "u \<le> 2 ^ 64" .
  have "\<bar>r - q\<bar> = \<bar>of_int (round_half_even (q / u)) - q / u\<bar> * u"
    using u by (simp add: r_def field_simps abs_mult [symmetric])
  also have "\<dots> \<le> u" using mult_right_mono [OF round_half_even_near [of "q / u"], of u] u by simp
  finally have "\<bar>r - q\<bar> \<le> u" .
  moreover have "(2::rat) ^ 65 = 2 ^ 64 + 2 ^ 64" by simp
  ultimately have "\<bar>r\<bar> \<le> 2 ^ 65" using u64 assms by linarith
  moreover have "r \<noteq> 0 \<longrightarrow> pow2 (ilog2 \<bar>r\<bar>) \<le> \<bar>r\<bar>" using pow2_ilog2 [of "\<bar>r\<bar>"] by simp
  moreover have "pow2 1024 \<le> pow2 (ilog2 \<bar>r\<bar>)" if "1024 \<le> ilog2 \<bar>r\<bar>" using that by (rule pow2_mono)
  moreover have "(2::rat) ^ 65 < pow2 1024" by (simp add: pow2_def)
  moreover have "ilog2 0 < 1024" by code_simp
  ultimately have "\<not> 1024 \<le> ilog2 \<bar>r\<bar>" by (cases "r = 0") auto
  with False show ?thesis by (simp add: round64_def Let_def u_def r_def)
qed (simp add: round64_def)

lemma float_of_int_finite: "\<bar>n\<bar> \<le> 2 ^ 64 \<Longrightarrow> is_fin (float_of_int n)"
  unfolding float_of_int_def by (rule round64_finite) (metis of_int_abs of_int_le_iff of_int_numeral of_int_power)

end
