(* ===== verification/Go_Value.thy ===== *)
theory Go_Value
  imports Float64 "HOL-Library.Word"
begin

text \<open>
  The dynamic values the components exchange: Go's \<^verbatim>\<open>interface{}\<close>, \<^verbatim>\<open>map[string]interface{}\<close>,
  type assertions on them, and what the broker adapters do to a message between two
  processes (\<^verbatim>\<open>json.Marshal\<close> by the publisher, \<^verbatim>\<open>json.Unmarshal\<close> by the receiver).
\<close>

section \<open>Values\<close>

text \<open>
  One constructor per dynamic type that occurs in the sources or that one of their type
  switches names: \<open>GInt\<close>, \<open>GInt64\<close>, \<open>GInt32\<close> are the machine integers, \<open>GFloat32\<close> holds the
  value of a float32 (exact in binary64), \<open>GMap\<close> is \<^verbatim>\<open>map[string]interface{}\<close>, \<open>GNilMap\<close> the nil
  map of that type stored in an interface, \<open>GMaps\<close> \<^verbatim>\<open>[]map[string]interface{}\<close>, \<open>GStrs\<close>
  \<^verbatim>\<open>[]string\<close>, \<open>GStrMap\<close> \<^verbatim>\<open>map[string]string\<close> and \<open>GStrMaps\<close> a slice of these.
\<close>

datatype gval =
    GNil
  | GBool bool
  | GStr string
  | GFloat float64
  | GFloat32 float64
  | GInt "64 word"
  | GInt64 "64 word"
  | GInt32 "32 word"
  | GList "gval list"
  | GMap "(string \<times> gval) list"
  | GNilMap
  | GMaps "(string \<times> gval) list list"
  | GStrs "string list"
  | GStrMap "(string \<times> string) list"
  | GStrMaps "(string \<times> string) list list"

type_synonym gmap = "(string \<times> gval) list"

text \<open>A variable of type \<^verbatim>\<open>map[string]interface{}\<close> is a \<open>gmap option\<close>, \<^const>\<open>None\<close> for nil.\<close>

definition map_val :: "gmap option \<Rightarrow> gval" where
  "map_val m = (case m of None \<Rightarrow> GNilMap | Some m \<Rightarrow> GMap m)"

section \<open>Reading a message\<close>

text \<open>\<open>s, _ := m[k].(string)\<close>, \<open>b, _ := m[k].(bool)\<close> and their kin: the zero value when the
  key is missing or holds another type.\<close>

definition get_str :: "gmap \<Rightarrow> string \<Rightarrow> string" where
  "get_str m k = (case map_of m k of Some (GStr s) \<Rightarrow> s | _ \<Rightarrow> [])"

definition get_bool :: "gmap \<Rightarrow> string \<Rightarrow> bool" where
  "get_bool m k = (case map_of m k of Some (GBool b) \<Rightarrow> b | _ \<Rightarrow> False)"

definition get_map :: "gmap \<Rightarrow> string \<Rightarrow> gmap option" where
  "get_map m k = (case map_of m k of Some (GMap n) \<Rightarrow> Some n | _ \<Rightarrow> None)"

definition get_list :: "gmap \<Rightarrow> string \<Rightarrow> gval list" where
  "get_list m k = (case map_of m k of Some (GList xs) \<Rightarrow> xs | _ \<Rightarrow> [])"

text \<open>\<open>v, ok := m[k].(float64)\<close>.\<close>

definition get_float64 :: "gmap \<Rightarrow> string \<Rightarrow> float64 option" where
  "get_float64 m k = (case map_of m k of Some (GFloat x) \<Rightarrow> Some x | _ \<Rightarrow> None)"

text \<open>\<open>m[k] == true\<close> as an interface comparison, and \<open>m[k] != nil\<close>.\<close>

definition is_true :: "gmap \<Rightarrow> string \<Rightarrow> bool" where
  "is_true m k \<longleftrightarrow> map_of m k = Some (GBool True)"

definition not_nil :: "gmap \<Rightarrow> string \<Rightarrow> bool" where
  "not_nil m k \<longleftrightarrow> map_of m k \<noteq> None \<and> map_of m k \<noteq> Some GNil"

definition has_key :: "gmap \<Rightarrow> string \<Rightarrow> bool" where
  "has_key m k \<longleftrightarrow> map_of m k \<noteq> None"

text \<open>
  A nil map may be read like an empty one; \<open>get_opt\<close> applies a reader to a possibly nil map.
\<close>

definition nilmap :: "gmap option \<Rightarrow> gmap" where
  "nilmap m = (case m of None \<Rightarrow> [] | Some m \<Rightarrow> m)"

section \<open>Numbers in messages\<close>

definition i64 :: "64 word \<Rightarrow> float64" where
  "i64 w = float_of_int (sint w)"

definition i32 :: "32 word \<Rightarrow> float64" where
  "i32 w = float_of_int (sint w)"

section \<open>The wire\<close>

text \<open>
  What a value becomes after \<^verbatim>\<open>json.Marshal\<close> and \<^verbatim>\<open>json.Unmarshal\<close> into an interface:
  \<open>None\<close> when marshalling fails (NaN and the infinities have no JSON form), every number is a
  float64, typed maps and slices become the generic ones, nil maps become null. Finite
  float64 values survive: \<^verbatim>\<open>encoding/json\<close> prints the shortest decimal that parses back to
  the same value. Strings are valid UTF-8.
\<close>

primrec wire :: "gval \<Rightarrow> gval option" where
  "wire GNil = Some GNil"
| "wire (GBool b) = Some (GBool b)"
| "wire (GStr s) = Some (GStr s)"
| "wire (GFloat x) = (if is_fin x then Some (GFloat x) else None)"
| "wire (GFloat32 x) = (if is_fin x then Some (GFloat x) else None)"
| "wire (GInt w) = Some (GFloat (i64 w))"
| "wire (GInt64 w) = Some (GFloat (i64 w))"
| "wire (GInt32 w) = Some (GFloat (i32 w))"
| "wire (GList xs) = map_option GList (those (map wire xs))"
| "wire (GMap m) = map_option GMap (those (map (\<lambda>p. map_option (Pair (fst p)) (snd p)) (map (map_prod id wire) m)))"
| "wire GNilMap = Some GNil"
| "wire (GMaps ms) =
     map_option GList (those (map (\<lambda>m. map_option GMap
       (those (map (\<lambda>p. map_option (Pair (fst p)) (snd p)) m))) (map (map (map_prod id wire)) ms)))"
| "wire (GStrs xs) = Some (GList (map GStr xs))"
| "wire (GStrMap m) = Some (GMap (map (map_prod id GStr) m))"
| "wire (GStrMaps ms) = Some (GList (map (\<lambda>m. GMap (map (map_prod id GStr) m)) ms))"

text \<open>A whole message.\<close>

fun wire_map :: "gmap \<Rightarrow> gmap option" where
  "wire_map [] = Some []"
| "wire_map ((k, v) # m) =
     (case wire v of None \<Rightarrow> None
      | Some v' \<Rightarrow> (case wire_map m of None \<Rightarrow> None | Some m' \<Rightarrow> Some ((k, v') # m')))"

text \<open>The values that are the same on both sides of the wire: what JSON decoding produces.\<close>

fun json_val :: "gval \<Rightarrow> bool" where
  "json_val GNil = True"
| "json_val (GBool _) = True"
| "json_val (GStr _) = True"
| "json_val (GFloat x) = is_fin x"
| "json_val (GList xs) = (\<forall>x \<in> set xs. json_val x)"
| "json_val (GMap m) = (\<forall>p \<in> set m. json_val (snd p))"
| "json_val _ = False"

definition json_map :: "gmap \<Rightarrow> bool" where
  "json_map m \<longleftrightarrow> (\<forall>p \<in> set m. json_val (snd p))"

section \<open>Lemmas\<close>

lemmas readers = get_str_def get_bool_def get_map_def get_list_def get_float64_def
  is_true_def not_nil_def has_key_def nilmap_def map_val_def

declare readers [go_defs]

lemma wire_map_eq:
  "wire_map m = those (map (\<lambda>p. map_option (Pair (fst p)) (snd p)) (map (map_prod id wire) m))"
  by (induction m rule: wire_map.induct) (auto split: option.splits)

lemma wire_GMap [simp]: "wire (GMap m) = map_option GMap (wire_map m)"
  by (simp add: wire_map_eq comp_def)

declare wire.simps(10) [simp del]

lemma those_map_id: "(\<And>x. x \<in> set xs \<Longrightarrow> f x = Some x) \<Longrightarrow> those (map f xs) = Some xs"
  by (induction xs) auto

lemma those_SomeD: "those ys = Some zs \<Longrightarrow> z \<in> set zs \<Longrightarrow> Some z \<in> set ys"
  by (induction ys arbitrary: zs) (auto split: option.splits)

lemma wire_map_id: "(\<And>p. p \<in> set m \<Longrightarrow> wire (snd p) = Some (snd p)) \<Longrightarrow> wire_map m = Some m"
proof (induction m)
  case (Cons p m)
  then have "wire (snd p) = Some (snd p)" "wire_map m = Some m" by auto
  then show ?case by (cases p) simp
qed simp

text \<open>JSON values pass the wire unchanged.\<close>

lemma wire_json_val: "json_val v \<Longrightarrow> wire v = Some v"
proof (induction v)
  case (GList xs)
  then show ?case by (simp add: those_map_id)
next
  case (GMap m)
  have "wire_map m = Some m"
  proof (rule wire_map_id)
    fix p assume p: "p \<in> set m"
    with GMap.prems have "json_val (snd p)" by simp
    then show "wire (snd p) = Some (snd p)"
      using GMap.IH [OF p, of "snd p"] by (cases p) simp
  qed
  then show ?case by simp
qed simp_all

lemma wire_json_map: "json_map m \<Longrightarrow> wire_map m = Some m"
  by (rule wire_map_id) (auto simp: json_map_def wire_json_val)

lemma wire_map_SomeD:
  "wire_map m = Some m' \<Longrightarrow> (k, v) \<in> set m' \<Longrightarrow> \<exists>u. (k, u) \<in> set m \<and> wire u = Some v"
  by (induction m arbitrary: m') (fastforce split: option.splits)+

lemma wire_map_keys: "wire_map m = Some m' \<Longrightarrow> map fst m' = map fst m"
  by (induction m arbitrary: m') (auto split: option.splits)

lemma wire_map_lookup:
  "wire_map m = Some m' \<Longrightarrow>
     map_of m' k = (case map_of m k of None \<Rightarrow> None | Some v \<Rightarrow> wire v)"
  by (induction m arbitrary: m') (auto split: option.splits)

text \<open>Texts are the same on both sides.\<close>

lemma wire_GStr: "wire v = Some (GStr x) \<longleftrightarrow> v = GStr x"
  by (cases v) (auto split: if_splits)

lemma get_str_wire: "wire_map m = Some m' \<Longrightarrow> get_str m' k = get_str m k"
proof -
  assume w: "wire_map m = Some m'"
  show ?thesis
  proof (cases "map_of m k")
    case None
    then show ?thesis using wire_map_lookup [OF w, of k] by (simp add: get_str_def)
  next
    case (Some v)
    obtain v' where v': "wire v = Some v'" "map_of m' k = Some v'"
      using wire_map_SomeD wire_map_lookup [OF w, of k] wire_map_keys [OF w] Some
      by (metis map_of_eq_None_iff option.exhaust option.simps(5) list.set_map)
    show ?thesis
      using Some v' wire_GStr [of v] by (cases v; cases v') (auto simp: get_str_def split: if_splits)
  qed
qed

lemma i64_finite [simp]: "is_fin (i64 w)" "is_fin (i32 v)"
proof -
  have "\<bar>sint w\<bar> \<le> 2 ^ 64" "\<bar>sint v\<bar> \<le> 2 ^ 64"
    using sint_lt [of w] sint_ge [of w] sint_lt [of v] sint_ge [of v] by (simp_all add: abs_le_iff)
  then show "is_fin (i64 w)" "is_fin (i32 v)" by (simp_all add: i64_def i32_def float_of_int_finite)
qed

lemma wire_GMaps: "wire (GMaps ms) = map_option GList (those (map (\<lambda>m. map_option GMap (wire_map m)) ms))"
  by (simp add: wire_map_eq comp_def)

text \<open>What comes out of the wire is a JSON value.\<close>

lemma json_wire_map:
  assumes "wire_map m = Some m'" and "\<And>p v. p \<in> set m \<Longrightarrow> wire (snd p) = Some v \<Longrightarrow> json_val v"
  shows "json_val (GMap m')"
proof -
  have "json_val (snd p)" if p: "p \<in> set m'" for p
  proof -
    obtain k v where kv: "p = (k, v)" by (cases p)
    obtain u where "(k, u) \<in> set m" "wire u = Some v" using wire_map_SomeD [OF assms(1)] p kv by blast
    then show ?thesis using assms(2) [of "(k, u)" v] kv by simp
  qed
  then show ?thesis by simp
qed

lemma json_val_wire: "wire v = Some v' \<Longrightarrow> json_val v'"
proof (induction v arbitrary: v')
  case (GList xs)
  then obtain zs where zs: "those (map wire xs) = Some zs" "v' = GList zs" by auto
  have "json_val z" if "z \<in> set zs" for z
    using those_SomeD [OF zs(1) that] GList.IH by auto
  then show ?case by (simp add: zs(2))
next
  case (GMap m)
  then obtain m' where m': "wire_map m = Some m'" "v' = GMap m'" by auto
  have "json_val v" if "p \<in> set m" "wire (snd p) = Some v" for p v
    using GMap.IH [OF that(1), of "snd p" v] that(2) by (cases p) simp
  then show ?case using json_wire_map [OF m'(1)] m'(2) by blast
next
  case (GMaps ms)
  then obtain zs where zs: "those (map (\<lambda>m. map_option GMap (wire_map m)) ms) = Some zs" "v' = GList zs"
    unfolding wire_GMaps by auto
  have "json_val z" if z: "z \<in> set zs" for z
  proof -
    obtain m m' where m: "m \<in> set ms" "wire_map m = Some m'" "z = GMap m'"
      using those_SomeD [OF zs(1) z] by (metis (no_types, lifting) imageE list.set_map map_option_eq_Some)
    have "json_val v" if "p \<in> set m" "wire (snd p) = Some v" for p v
      using GMaps.IH [OF m(1) that(1), of "snd p" v] that(2) by (cases p) simp
    then show ?thesis using json_wire_map [OF m(2)] m(3) by blast
  qed
  then show ?case by (simp add: zs(2))
qed (auto split: if_splits)

lemma json_map_wire: "wire_map m = Some m' \<Longrightarrow> json_map m'"
  using json_val_wire [of "GMap m" "GMap m'"] by (simp add: json_map_def)

end
