(* ===== verification/Effects.thy ===== *)
theory Effects
  imports Go_Value
begin

text \<open>
  Effectful Go code as data. A handler or a loop body is a finite tree of the effects the
  components have: a critical section on the component's own state (what the code does
  between \<^verbatim>\<open>mu.Lock()\<close> and \<^verbatim>\<open>mu.Unlock()\<close>, or one unlocked read or write), \<^verbatim>\<open>Bus.Publish\<close>,
  \<^verbatim>\<open>Bus.Request\<close> and \<^verbatim>\<open>time.Now\<close>. The result of each effect is an input of the tree, so a
  definition says what the code does for every outcome.

  Two semantics: \<open>run\<close> executes one program alone against an environment, and
  \<open>reachable\<close> interleaves any number of them over one shared state, at every effect.
  The contract \<open>sat\<close> (invariant, guarantee on state changes, what may be sent, what may be
  returned) is checked on the tree once and holds in both.
\<close>

section \<open>Programs\<close>

text \<open>
  \<open>Atom u k\<close>: in one critical section read the state \<open>s\<close>, replace it by \<open>u s\<close>, go on as
  \<open>k s\<close>. \<open>Now\<close> yields the wall clock in nanoseconds.
\<close>

datatype (dead 's, 'a) prog =
    Ret 'a
  | Atom "'s \<Rightarrow> 's" "'s \<Rightarrow> ('s, 'a) prog"
  | Pub string gmap "string option \<Rightarrow> ('s, 'a) prog"
  | Req string gmap float64 "string + gmap \<Rightarrow> ('s, 'a) prog"
  | Now "int \<Rightarrow> ('s, 'a) prog"

primrec bind :: "('s, 'a) prog \<Rightarrow> ('a \<Rightarrow> ('s, 'b) prog) \<Rightarrow> ('s, 'b) prog" where
  "bind (Ret a) f = f a"
| "bind (Atom u k) f = Atom u (\<lambda>s. bind (k s) f)"
| "bind (Pub t m k) f = Pub t m (\<lambda>e. bind (k e) f)"
| "bind (Req t m d k) f = Req t m d (\<lambda>r. bind (k r) f)"
| "bind (Now k) f = Now (\<lambda>t. bind (k t) f)"

definition andThen :: "('s, unit) prog \<Rightarrow> ('s, 'b) prog \<Rightarrow> ('s, 'b) prog" where
  "andThen p q = bind p (\<lambda>_. q)"

text \<open>A critical section that only reads, and one whose continuation ignores what it read.\<close>

definition readState :: "('s \<Rightarrow> ('s, 'a) prog) \<Rightarrow> ('s, 'a) prog" where
  "readState k = Atom (\<lambda>s. s) k"

definition modify :: "('s \<Rightarrow> 's) \<Rightarrow> ('s, 'a) prog \<Rightarrow> ('s, 'a) prog" where
  "modify u p = Atom u (\<lambda>_. p)"

section \<open>Running one program\<close>

datatype event =
    Published string gmap "string option"
  | Requested string gmap "string + gmap"
  | Clock int

text \<open>The environment answers each effect, knowing everything that happened before.\<close>

record env =
  on_pub :: "event list \<Rightarrow> string \<Rightarrow> gmap \<Rightarrow> string option"
  on_req :: "event list \<Rightarrow> string \<Rightarrow> gmap \<Rightarrow> string + gmap"
  on_now :: "event list \<Rightarrow> int"

primrec run :: "env \<Rightarrow> ('s, 'a) prog \<Rightarrow> 's \<Rightarrow> event list \<Rightarrow> 'a \<times> 's \<times> event list" where
  "run E (Ret a) s tr = (a, s, tr)"
| "run E (Atom u k) s tr = run E (k s) (u s) tr"
| "run E (Pub t m k) s tr =
     (let e = on_pub E tr t m in run E (k e) s (tr @ [Published t m e]))"
| "run E (Req t m d k) s tr =
     (let r = on_req E tr t m in run E (k r) s (tr @ [Requested t m r]))"
| "run E (Now k) s tr = (let n = on_now E tr in run E (k n) s (tr @ [Clock n]))"

text \<open>The messages of a trace, in order.\<close>

fun sent :: "event list \<Rightarrow> (string \<times> gmap) list" where
  "sent [] = []"
| "sent (Published t m _ # tr) = (t, m) # sent tr"
| "sent (Requested t m _ # tr) = (t, m) # sent tr"
| "sent (Clock _ # tr) = sent tr"

text \<open>The requests of a trace with their answers, in order.\<close>

fun requests :: "event list \<Rightarrow> (string \<times> gmap \<times> (string + gmap)) list" where
  "requests [] = []"
| "requests (Requested t m r # tr) = (t, m, r) # requests tr"
| "requests (_ # tr) = requests tr"

text \<open>What a program returns, leaves behind and sends when it is run alone.\<close>

definition result :: "env \<Rightarrow> ('s, 'a) prog \<Rightarrow> 's \<Rightarrow> 'a" where
  "result E p s = fst (run E p s [])"

definition final :: "env \<Rightarrow> ('s, 'a) prog \<Rightarrow> 's \<Rightarrow> 's" where
  "final E p s = fst (snd (run E p s []))"

definition outputs :: "env \<Rightarrow> ('s, 'a) prog \<Rightarrow> 's \<Rightarrow> (string \<times> gmap) list" where
  "outputs E p s = sent (snd (snd (run E p s [])))"

section \<open>Interleaving\<close>

inductive pstep :: "'s \<Rightarrow> ('s, 'a) prog \<Rightarrow> event list \<Rightarrow> 's \<Rightarrow> ('s, 'a) prog \<Rightarrow> bool" where
  atom: "pstep s (Atom u k) [] (u s) (k s)"
| pub: "pstep s (Pub t m k) [Published t m e] s (k e)"
| req: "pstep s (Req t m d k) [Requested t m r] s (k r)"
| now: "pstep s (Now k) [Clock n] s (k n)"

inductive_cases pstep_RetE: "pstep s (Ret a) l s' p'"
inductive_cases pstep_AtomE: "pstep s (Atom u k) l s' p'"
inductive_cases pstep_PubE: "pstep s (Pub t m k) l s' p'"
inductive_cases pstep_ReqE: "pstep s (Req t m d k) l s' p'"
inductive_cases pstep_NowE: "pstep s (Now k) l s' p'"

text \<open>
  \<open>reachable H s0 s ps tr\<close>: from state \<open>s0\<close>, with goroutines started from the programs in \<open>H\<close>
  (a handler for an incoming message, one round of a loop) and scheduled in any order,
  the state is now \<open>s\<close>, the goroutines in flight are \<open>ps\<close> and \<open>tr\<close> has happened.
\<close>

inductive reachable :: "('s, 'a) prog set \<Rightarrow> 's \<Rightarrow> 's \<Rightarrow> ('s, 'a) prog list \<Rightarrow> event list \<Rightarrow> bool"
  for H :: "('s, 'a) prog set" and s0 :: 's where
  start: "reachable H s0 s0 [] []"
| spawn: "reachable H s0 s ps tr \<Longrightarrow> p \<in> H \<Longrightarrow> reachable H s0 s (p # ps) tr"
| sched: "reachable H s0 s ps tr \<Longrightarrow> i < length ps \<Longrightarrow> pstep s (ps ! i) l s' p' \<Longrightarrow>
     reachable H s0 s' (ps[i := p']) (tr @ l)"

section \<open>Contracts\<close>

text \<open>
  \<open>sat I G Q R p\<close>: started where the invariant \<open>I\<close> holds and with \<open>I\<close> holding before each of
  its critical sections, \<open>p\<close> keeps \<open>I\<close>, changes the state only along \<open>G\<close>, sends only
  messages in \<open>Q\<close>, and returns a value in \<open>R\<close>.
\<close>

primrec sat :: "('s \<Rightarrow> bool) \<Rightarrow> ('s \<Rightarrow> 's \<Rightarrow> bool) \<Rightarrow> (string \<Rightarrow> gmap \<Rightarrow> bool) \<Rightarrow> ('a \<Rightarrow> bool)
    \<Rightarrow> ('s, 'a) prog \<Rightarrow> bool" where
  "sat I G Q R (Ret a) = R a"
| "sat I G Q R (Atom u k) = (\<forall>s. I s \<longrightarrow> I (u s) \<and> G s (u s) \<and> sat I G Q R (k s))"
| "sat I G Q R (Pub t m k) = (Q t m \<and> (\<forall>e. sat I G Q R (k e)))"
| "sat I G Q R (Req t m d k) = (Q t m \<and> (\<forall>r. sat I G Q R (k r)))"
| "sat I G Q R (Now k) = (\<forall>n. sat I G Q R (k n))"

abbreviation anyResult :: "'a \<Rightarrow> bool" where
  "anyResult \<equiv> \<lambda>_. True"

abbreviation anyMessage :: "string \<Rightarrow> gmap \<Rightarrow> bool" where
  "anyMessage \<equiv> \<lambda>_ _. True"

text \<open>
  The interface a component offers to the system: a set of entry points with their common
  contract. A component theory interprets it once; the facts proved here then hold for
  every schedule of its handlers and loops.
\<close>

locale goroutines =
  fixes H :: "('s, 'a) prog set"
    and s0 :: 's
    and I :: "'s \<Rightarrow> bool"
    and G :: "'s \<Rightarrow> 's \<Rightarrow> bool"
    and Q :: "string \<Rightarrow> gmap \<Rightarrow> bool"
  assumes initial: "I s0"
    and entry: "p \<in> H \<Longrightarrow> sat I G Q anyResult p"

section \<open>Lemmas\<close>

lemma andThen_simps [simp]:
  "andThen (Ret a) q = q"
  "andThen (Atom u k) q = Atom u (\<lambda>s. andThen (k s) q)"
  "andThen (Pub t m j) q = Pub t m (\<lambda>e. andThen (j e) q)"
  "andThen (Req t m d l) q = Req t m d (\<lambda>r. andThen (l r) q)"
  "andThen (Now h) q = Now (\<lambda>n. andThen (h n) q)"
  by (simp_all add: andThen_def)

lemma bind_Ret [simp]: "bind p Ret = p"
  by (induction p) auto

lemma bind_assoc: "bind (bind p f) g = bind p (\<lambda>a. bind (f a) g)"
  by (induction p) auto

lemma bind_readState [simp]: "bind (readState k) f = readState (\<lambda>s. bind (k s) f)"
  by (simp add: readState_def)

lemma bind_modify [simp]: "bind (modify u p) f = modify u (bind p f)"
  by (simp add: modify_def)

lemma bind_andThen [simp]: "bind (andThen p q) f = andThen p (bind q f)"
  by (simp add: andThen_def bind_assoc)

lemma andThen_assoc: "andThen (andThen p q) r = andThen p (andThen q r)"
  by (simp add: andThen_def bind_assoc)

lemma andThen_readState [simp]: "andThen (readState k) q = readState (\<lambda>s. andThen (k s) q)"
  by (simp add: andThen_def)

lemma andThen_modify [simp]: "andThen (modify u p) q = modify u (andThen p q)"
  by (simp add: andThen_def)

lemma bind_if [simp]: "bind (if c then p else q) f = (if c then bind p f else bind q f)"
  by simp

lemma run_bind:
  "run E (bind p f) s tr = (case run E p s tr of (a, s', tr') \<Rightarrow> run E (f a) s' tr')"
  by (induction p arbitrary: s tr) (auto simp: Let_def)

lemma run_andThen [simp]:
  "run E (andThen p q) s tr = (case run E p s tr of (_, s', tr') \<Rightarrow> run E q s' tr')"
  by (simp add: andThen_def run_bind)

lemma run_readState [simp]: "run E (readState k) s tr = run E (k s) s tr"
  by (simp add: readState_def)

lemma run_modify [simp]: "run E (modify u p) s tr = run E p (u s) tr"
  by (simp add: modify_def)

lemma sat_readState [simp]:
  "sat I G Q R (readState k) \<longleftrightarrow> (\<forall>s. I s \<longrightarrow> G s s \<and> sat I G Q R (k s))"
  by (auto simp: readState_def)

lemma sat_modify [simp]:
  "sat I G Q R (modify u p) \<longleftrightarrow> (\<forall>s. I s \<longrightarrow> I (u s) \<and> G s (u s) \<and> sat I G Q R p)"
  by (auto simp: modify_def)

lemma sat_mono:
  assumes "sat I G Q R p" "\<And>a. R a \<Longrightarrow> R' a" "\<And>t m. Q t m \<Longrightarrow> Q' t m"
    "\<And>s s'. I s \<Longrightarrow> I s' \<Longrightarrow> G s s' \<Longrightarrow> G' s s'"
  shows "sat I G' Q' R' p"
  using assms(1) by (induction p) (auto intro: assms(2-4))

lemma sat_bind:
  "sat I G Q R p \<Longrightarrow> (\<And>a. R a \<Longrightarrow> sat I G Q R' (f a)) \<Longrightarrow> sat I G Q R' (bind p f)"
  by (induction p) auto

lemma sat_bind_any:
  "sat I G Q anyResult p \<Longrightarrow> (\<And>a. sat I G Q R' (f a)) \<Longrightarrow> sat I G Q R' (bind p f)"
  by (rule sat_bind) auto

lemma sat_andThen:
  "sat I G Q anyResult p \<Longrightarrow> sat I G Q R q \<Longrightarrow> sat I G Q R (andThen p q)"
  by (simp add: andThen_def sat_bind_any)

lemma sent_append [simp]: "sent (xs @ ys) = sent xs @ sent ys"
  by (induction xs rule: sent.induct) auto

lemma requests_append [simp]: "requests (xs @ ys) = requests xs @ requests ys"
  by (induction xs rule: requests.induct) auto

lemma sat_trivial: "sat (\<lambda>_. True) (\<lambda>_ _. True) anyMessage anyResult p"
  by (induction p) auto

text \<open>A run of a program that has a contract obeys it.\<close>

lemma sat_run:
  assumes "sat I G Q R p" "I s" "run E p s tr = (a, s', tr')"
  shows "I s' \<and> G\<^sup>*\<^sup>* s s' \<and> R a \<and>
    (\<exists>new. tr' = tr @ new \<and> (\<forall>(t, m) \<in> set (sent new). Q t m))"
  using assms
proof (induction p arbitrary: s tr)
  case (Ret x)
  then show ?case by auto
next
  case (Atom u k)
  then have "I (u s)" "G s (u s)" "sat I G Q R (k s)" "run E (k s) (u s) tr = (a, s', tr')"
    by auto
  with Atom.IH [of "k s" "u s" tr] show ?case
    by (auto intro: converse_rtranclp_into_rtranclp)
next
  case (Pub t m k)
  let ?e = "on_pub E tr t m"
  from Pub.prems have "run E (k ?e) s (tr @ [Published t m ?e]) = (a, s', tr')" "sat I G Q R (k ?e)"
    by (simp_all add: Let_def)
  with Pub.IH [of "k ?e" s "tr @ [Published t m ?e]"] Pub.prems(1,2) show ?case by auto
next
  case (Req t m d k)
  let ?e = "on_req E tr t m"
  from Req.prems have "run E (k ?e) s (tr @ [Requested t m ?e]) = (a, s', tr')" "sat I G Q R (k ?e)"
    by (simp_all add: Let_def)
  with Req.IH [of "k ?e" s "tr @ [Requested t m ?e]"] Req.prems(1,2) show ?case by auto
next
  case (Now k)
  let ?e = "on_now E tr"
  from Now.prems have "run E (k ?e) s (tr @ [Clock ?e]) = (a, s', tr')" "sat I G Q R (k ?e)"
    by (simp_all add: Let_def)
  with Now.IH [of "k ?e" s "tr @ [Clock ?e]"] Now.prems(1,2) show ?case by auto
qed

lemma run_extends: "run E p s tr = (a, s', tr') \<Longrightarrow> set tr \<subseteq> set tr'"
  using sat_run [of "\<lambda>_. True" "\<lambda>_ _. True" anyMessage anyResult p s E tr a s' tr']
  by (auto simp: sat_trivial)

lemma run_appends: "\<exists>new. snd (snd (run E p s tr)) = tr @ new"
  using sat_run [of "\<lambda>_. True" "\<lambda>_ _. True" anyMessage anyResult p s E tr]
  by (cases "run E p s tr") (auto simp: sat_trivial)

text \<open>A program none of whose critical sections changes the part \<open>f\<close> of the state leaves it alone.\<close>

abbreviation keeps :: "('s \<Rightarrow> 'v) \<Rightarrow> ('s, 'a) prog \<Rightarrow> bool" where
  "keeps f p \<equiv> sat (\<lambda>_. True) (\<lambda>s s'. f s' = f s) anyMessage anyResult p"

lemma keeps_run: "keeps f p \<Longrightarrow> f (fst (snd (run E p s tr))) = f s"
  by (induction p arbitrary: s tr) (auto simp: Let_def)

text \<open>What a program may send, whatever the state.\<close>

abbreviation sends :: "(string \<Rightarrow> gmap \<Rightarrow> bool) \<Rightarrow> ('s, 'a) prog \<Rightarrow> bool" where
  "sends Q p \<equiv> sat (\<lambda>_. True) (\<lambda>_ _. True) Q anyResult p"

lemma sends_run:
  assumes "sends Q p" "(t, m) \<in> set (sent (snd (snd (run E p s tr))))"
  shows "(t, m) \<in> set (sent tr) \<or> Q t m"
  using sat_run [OF assms(1)] assms(2) by (cases "run E p s tr") fastforce

text \<open>
  Contracts with a history: \<open>hsat I Q V p\<close> says that \<open>p\<close>, whose goroutine has so far run while the component
  was in the states \<open>V\<close>, sends a message only if \<open>Q\<close> of the states seen until then allows it. This is
  how one speaks about a check and the message it guards when other goroutines run in between.
\<close>

primrec hsat :: "('s \<Rightarrow> bool) \<Rightarrow> ('s set \<Rightarrow> string \<Rightarrow> gmap \<Rightarrow> bool) \<Rightarrow> 's set \<Rightarrow> ('s, 'a) prog \<Rightarrow> bool" where
  "hsat I Q V (Ret a) = True"
| "hsat I Q V (Atom u k) = (\<forall>s. I s \<longrightarrow> hsat I Q (insert s V) (k s))"
| "hsat I Q V (Pub t m k) = (Q V t m \<and> (\<forall>e. hsat I Q V (k e)))"
| "hsat I Q V (Req t m d k) = (Q V t m \<and> (\<forall>r. hsat I Q V (k r)))"
| "hsat I Q V (Now k) = (\<forall>n. hsat I Q V (k n))"

lemma hsat_mono:
  assumes "hsat I Q V p" "V \<subseteq> W" "\<And>V W t m. V \<subseteq> W \<Longrightarrow> Q V t m \<Longrightarrow> Q' W t m"
  shows "hsat I Q' W p"
  using assms(1,2)
proof (induction p arbitrary: V W)
  case (Atom u k)
  then show ?case by (simp add: insert_mono) (meson Atom.IH insert_mono rangeI)
qed (auto intro: assms(3), blast+)

lemma hsat_bind:
  assumes "hsat I Q V p" "\<And>a W. V \<subseteq> W \<Longrightarrow> hsat I Q W (f a)"
  shows "hsat I Q V (bind p f)"
  using assms
proof (induction p arbitrary: V)
  case (Atom u k)
  have "hsat I Q (insert s V) (bind (k s) f)" if "I s" for s
    using Atom.prems that by (intro Atom.IH) auto
  then show ?case by simp
qed auto

lemma sat_hsat: "sat I G Q R p \<Longrightarrow> (\<And>V t m. Q t m \<Longrightarrow> Q' V t m) \<Longrightarrow> hsat I Q' V p"
  by (induction p arbitrary: V) auto

lemma hsat_pstep:
  assumes "pstep s p l s' p'" "hsat I Q V p" "I s" "s \<in> V"
  shows "hsat I Q V p' \<and> (\<forall>(t, m) \<in> set (sent l). Q V t m)"
  using assms by (cases rule: pstep.cases) (auto simp: insert_absorb)

lemmas run_views = result_def final_def outputs_def

lemma sat_final: "sat I G Q R p \<Longrightarrow> I s \<Longrightarrow> I (final E p s) \<and> G\<^sup>*\<^sup>* s (final E p s)"
  using sat_run [of I G Q R p s E "[]"] by (cases "run E p s []") (auto simp: final_def)

lemma sat_outputs: "sat I G Q R p \<Longrightarrow> I s \<Longrightarrow> (t, m) \<in> set (outputs E p s) \<Longrightarrow> Q t m"
  using sat_run [of I G Q R p s E "[]"] by (cases "run E p s []") (fastforce simp: outputs_def)

lemma sat_pstep:
  assumes "pstep s p l s' p'" "sat I G Q R p" "I s"
  shows "I s' \<and> (s' = s \<or> G s s') \<and> sat I G Q R p' \<and> (\<forall>(t, m) \<in> set (sent l). Q t m)"
  using assms by (cases rule: pstep.cases) auto

text \<open>Running a program to its end is one of the schedules.\<close>

lemma run_schedules:
  assumes "reachable H s0 s (p # ps) tr"
  shows "reachable H s0 (fst (snd (run E p s tr)))
    (Ret (fst (run E p s tr)) # ps) (snd (snd (run E p s tr)))"
  using assms
proof (induction p arbitrary: s tr)
  case (Ret a)
  then show ?case by simp
next
  case (Atom u k)
  have "reachable H s0 (u s) (k s # ps) tr"
    using reachable.sched [OF Atom.prems, of 0 "[]" "u s" "k s"] by (simp add: pstep.atom)
  then show ?case using Atom.IH [of "k s"] by simp
next
  case (Pub t m k)
  let ?e = "on_pub E tr t m"
  have "reachable H s0 s (k ?e # ps) (tr @ [Published t m ?e])"
    using reachable.sched [OF Pub.prems, of 0 "[Published t m ?e]" s "k ?e"] by (simp add: pstep.pub)
  then show ?case using Pub.IH [of "k ?e"] by (simp add: Let_def)
next
  case (Req t m d k)
  let ?r = "on_req E tr t m"
  have "reachable H s0 s (k ?r # ps) (tr @ [Requested t m ?r])"
    using reachable.sched [OF Req.prems, of 0 "[Requested t m ?r]" s "k ?r"] by (simp add: pstep.req)
  then show ?case using Req.IH [of "k ?r"] by (simp add: Let_def)
next
  case (Now k)
  let ?n = "on_now E tr"
  have "reachable H s0 s (k ?n # ps) (tr @ [Clock ?n])"
    using reachable.sched [OF Now.prems, of 0 "[Clock ?n]" s "k ?n"] by (simp add: pstep.now)
  then show ?case using Now.IH [of "k ?n"] by (simp add: Let_def)
qed

lemma run_reachable:
  assumes "reachable H s0 s ps tr" "p \<in> H" "run E p s tr = (a, s', tr')"
  shows "reachable H s0 s' (Ret a # ps) tr'"
  using run_schedules [OF reachable.spawn [OF assms(1,2)], of E] assms(3) by simp

lemma final_reachable:
  "p \<in> H \<Longrightarrow> reachable H s0 (final E p s0) [Ret (result E p s0)] (snd (snd (run E p s0 [])))"
  using run_reachable [OF reachable.start, of p H E s0] by (simp add: run_views prod_eq_iff)

lemma run_reachable_range:
  "run E (f m) s0 [] = (a, s', tr') \<Longrightarrow> reachable (range f) s0 s' [Ret a] tr'"
  by (rule run_reachable [OF reachable.start rangeI])

lemma final_reachable_range:
  "\<exists>ps tr. reachable (range f) s0 (final E (f m) s0) ps tr"
  by (intro exI, rule final_reachable, rule rangeI)

context goroutines
begin

lemma reachable_contract:
  assumes "reachable H s0 s ps tr"
  shows "I s \<and> G\<^sup>*\<^sup>* s0 s \<and> (\<forall>p \<in> set ps. sat I G Q anyResult p) \<and>
    (\<forall>(t, m) \<in> set (sent tr). Q t m)"
  using assms
proof (induction rule: reachable.induct)
  case start
  then show ?case by (simp add: initial)
next
  case (spawn s ps tr p)
  then show ?case by (simp add: entry)
next
  case (sched s ps tr i l s' p')
  then have "sat I G Q anyResult (ps ! i)" by simp
  with sched sat_pstep [of s "ps ! i" l s' p' I G Q anyResult]
  have step: "I s'" "s' = s \<or> G s s'" "sat I G Q anyResult p'" "\<forall>(t, m) \<in> set (sent l). Q t m"
    by auto
  have "G\<^sup>*\<^sup>* s0 s'" using step(2) sched.IH by auto
  moreover have "\<forall>p \<in> set (ps[i := p']). sat I G Q anyResult p"
    using sched.IH step(3) by (auto dest: set_update_subset_insert [THEN subsetD])
  ultimately show ?case using step(1,4) sched.IH by auto
qed

lemma invariant: "reachable H s0 s ps tr \<Longrightarrow> I s"
  using reachable_contract by blast

lemma guarantee: "reachable H s0 s ps tr \<Longrightarrow> G\<^sup>*\<^sup>* s0 s"
  using reachable_contract by blast

lemma only_sent: "reachable H s0 s ps tr \<Longrightarrow> (t, m) \<in> set (sent tr) \<Longrightarrow> Q t m"
  using reachable_contract by fastforce

text \<open>One more step of any schedule: the state change obeys the guarantee.\<close>

lemma next_step:
  assumes "reachable H s0 s ps tr" "i < length ps" "pstep s (ps ! i) l s' p'"
  shows "I s \<and> I s' \<and> (s' = s \<or> G s s')"
  using reachable_contract [OF assms(1)] assms(2,3)
    sat_pstep [of s "ps ! i" l s' p' I G Q anyResult] by auto

end

end
