(* ===== verification/Config.thy ===== *)
theory Config
  imports Effects
begin

text \<open>
  Package \<^verbatim>\<open>config\<close> (\<^verbatim>\<open>config/src/config.go\<close>, \<^verbatim>\<open>config/src/broker_auth.go\<close>) and the default user
  names of \<^verbatim>\<open>bus/auth/mqtt_acl.go\<close>: settings from the environment, broker topics and broker user
  names. The process environment, \<^verbatim>\<open>strconv.ParseFloat\<close> and \<open>fmt.Sscanf(s, "%f", &f)\<close> are the fields of a
  \<open>host\<close> record, an argument of the definitions that use them.
\<close>

section \<open>The host\<close>

record host =
  Getenv :: "string \<Rightarrow> string"
  ParseFloat :: "string \<Rightarrow> float64 option"
  ScanFloat :: "string \<Rightarrow> float64 option"

definition orElse :: "string \<Rightarrow> string \<Rightarrow> string" where
  "orElse s d = (if s = [] then d else s)"

text \<open>
  The idiom \<open>if s := os.Getenv(k); s != "" { if v, err := ParseFloat(TrimSpace(s)); err == nil
  && ok(v) { x = v } }\<close>.
\<close>

definition env_float :: "host \<Rightarrow> string \<Rightarrow> (float64 \<Rightarrow> bool) \<Rightarrow> float64 \<Rightarrow> float64" where
  "env_float h k ok d =
     (if Getenv h k = [] then d
      else case ParseFloat h (TrimSpace (Getenv h k)) of
             None \<Rightarrow> d | Some v \<Rightarrow> if ok v then v else d)"

definition positive :: "float64 \<Rightarrow> bool" where
  "positive v = fgt v (Fin 0)"

definition env_int :: "host \<Rightarrow> string \<Rightarrow> int \<Rightarrow> int" where
  "env_int h k d =
     (if Getenv h k = [] then d
      else case Atoi (TrimSpace (Getenv h k)) of None \<Rightarrow> d | Some v \<Rightarrow> v)"

section \<open>config.go\<close>

record Config =
  BrokerType :: string
  ComponentID :: string
  ComponentTopic :: string
  SystemName :: string
  TopicScheme :: string
  TopicPrefixEnv :: string
  TopicVersion :: string
  InstanceID :: string
  HealthPort :: string
  KafkaBootstrap :: string
  KafkaGroupID :: string
  BrokerUser :: string
  BrokerPassword :: string
  MQTTBroker :: string
  MQTTPort :: int
  MQTTQoS :: int

definition TopicPrefix :: "Config \<Rightarrow> string" where
  "TopicPrefix c =
     (let p = TrimSpace (TopicPrefixEnv c);
          sys = orElse (TrimSpace (SystemName c)) ''deliverydron''
      in if p \<noteq> [] then p
         else if EqualFold (TrimSpace (TopicScheme c)) ''components'' then ''components.'' @ sys
         else orElse (TrimSpace (TopicVersion c)) ''v1'' @ ''.'' @ sys @ ''.'' @
              orElse (TrimSpace (InstanceID c)) ''Delivery001'')"

definition BrokerTopicFor :: "Config \<Rightarrow> string \<Rightarrow> string" where
  "BrokerTopicFor c nm = TopicPrefix c @ ''.'' @ TrimSpace nm"

section \<open>broker\_auth.go\<close>

definition InternalComponents :: "string list" where
  "InternalComponents =
     [''security_monitor'', ''journal'', ''navigation'', ''mission_handler'', ''autopilot'',
      ''limiter'', ''emergency'', ''motors'', ''cargo'', ''telemetry'']"

definition ComponentEnvPrefix :: "string \<Rightarrow> string" where
  "ComponentEnvPrefix cid = ToUpper (ReplaceAll (TrimSpace cid) ''-'' ''_'')"

definition is_alnum :: "char \<Rightarrow> bool" where
  "is_alnum c \<longleftrightarrow> (let n = of_char c :: nat in
     (97 \<le> n \<and> n \<le> 122) \<or> (65 \<le> n \<and> n \<le> 90) \<or> (48 \<le> n \<and> n \<le> 57))"

fun slug_chars :: "string \<Rightarrow> string" where
  "slug_chars [] = []"
| "slug_chars (r # rs) =
     (if is_alnum r then r # slug_chars rs
      else if r \<in> {CHR ''-'', CHR ''_'', CHR ''.''} then CHR ''_'' # slug_chars rs
      else slug_chars rs)"

definition slugBrokerID :: "string \<Rightarrow> string" where
  "slugBrokerID s = (let s = TrimSpace s in if s = [] then [] else slug_chars s)"

definition DefaultBrokerUsername :: "string \<Rightarrow> string \<Rightarrow> string" where
  "DefaultBrokerUsername inst nm =
     ''dd_'' @ orElse (slugBrokerID inst) ''default'' @ ''_'' @ orElse (slugBrokerID nm) ''component''"

definition BrokerCredentials :: "host \<Rightarrow> Config \<Rightarrow> string \<times> string" where
  "BrokerCredentials h c =
     (let pre = ComponentEnvPrefix (ComponentID c);
          user1 = (if pre \<noteq> [] then TrimSpace (Getenv h (pre @ ''_BROKER_USER'')) else []);
          pass1 = (if pre \<noteq> [] then Getenv h (pre @ ''_BROKER_PASSWORD'') else []);
          user2 = orElse user1 (TrimSpace (Getenv h ''BROKER_USER''));
          pass2 = orElse pass1 (Getenv h ''BROKER_PASSWORD'')
      in (orElse user2 (DefaultBrokerUsername (InstanceID c) (ComponentID c)), pass2))"

definition ReplyBrokerTopic :: "Config \<Rightarrow> string" where
  "ReplyBrokerTopic c =
     BrokerTopicFor c (''replies.'' @ orElse (TrimSpace (ComponentID c)) ''component'')"

definition SecurityMonitorTopic :: "Config \<Rightarrow> string" where
  "SecurityMonitorTopic c = BrokerTopicFor c ''security_monitor''"

definition FromEnv :: "host \<Rightarrow> Config" where
  "FromEnv h =
     (let cid = orElse (orElse (Getenv h ''COMPONENT_ID'') (Getenv h ''SYSTEM_ID'')) ''delivery_drone'';
          cfg0 = \<lparr>BrokerType = orElse (Getenv h ''BROKER_TYPE'') ''kafka'',
             ComponentID = cid,
             ComponentTopic = TrimSpace (Getenv h ''COMPONENT_TOPIC''),
             SystemName = orElse (TrimSpace (Getenv h ''SYSTEM_NAME'')) ''deliverydron'',
             TopicScheme = orElse (TrimSpace (Getenv h ''TOPIC_SCHEME'')) ''legacy'',
             TopicPrefixEnv = TrimSpace (Getenv h ''TOPIC_PREFIX''),
             TopicVersion = orElse (TrimSpace (Getenv h ''TOPIC_VERSION'')) ''v1'',
             InstanceID = orElse (TrimSpace (Getenv h ''INSTANCE_ID'')) ''Delivery001'',
             HealthPort = orElse (Getenv h ''HEALTH_PORT'') ''8080'',
             KafkaBootstrap = orElse (Getenv h ''KAFKA_BOOTSTRAP_SERVERS'')
               (orElse (Getenv h ''KAFKA_HOST'') ''localhost'' @ '':'' @ orElse (Getenv h ''KAFKA_PORT'') ''9092''),
             KafkaGroupID = orElse (Getenv h ''KAFKA_GROUP_ID'') (cid @ ''_group''),
             BrokerUser = [], BrokerPassword = [],
             MQTTBroker = orElse (orElse (Getenv h ''MQTT_BROKER'') (Getenv h ''MQTT_HOST'')) ''localhost'',
             MQTTPort = env_int h ''MQTT_PORT'' 1883,
             MQTTQoS = env_int h ''MQTT_QOS'' 1\<rparr>;
          cfg1 = cfg0\<lparr>ComponentTopic := orElse (ComponentTopic cfg0) (BrokerTopicFor cfg0 cid)\<rparr>
      in cfg1\<lparr>BrokerUser := fst (BrokerCredentials h cfg1),
              BrokerPassword := snd (BrokerCredentials h cfg1)\<rparr>)"

section \<open>mqtt\_acl.go: user names\<close>

definition slug :: "string \<Rightarrow> string" where
  "slug s = (let s = TrimSpace s in if s = [] then ''default'' else orElse (slug_chars s) ''default'')"

definition DefaultUsername :: "string \<Rightarrow> string \<Rightarrow> string" where
  "DefaultUsername inst nm = ''dd_'' @ slug inst @ ''_'' @ slug nm"

section \<open>Lemmas\<close>

lemma orElse_Nil [simp]: "orElse [] d = d"
  by (simp add: orElse_def)

lemma orElse_eq_Nil [simp]: "orElse s d = [] \<longleftrightarrow> s = [] \<and> d = []"
  by (simp add: orElse_def)

lemma orElse_not_Nil [simp]: "s \<noteq> [] \<Longrightarrow> orElse s d = s"
  by (simp add: orElse_def)

lemma TopicPrefix_not_Nil [simp]: "TopicPrefix c \<noteq> []"
  by (simp add: TopicPrefix_def Let_def)

lemma BrokerTopicFor_not_Nil [simp]: "BrokerTopicFor c x \<noteq> []"
  by (simp add: BrokerTopicFor_def)

lemma BrokerTopicFor_eq [simp]:
  "BrokerTopicFor c a = BrokerTopicFor c b \<longleftrightarrow> TrimSpace a = TrimSpace b"
  by (simp add: BrokerTopicFor_def)

text \<open>The names of the components are trimmed already.\<close>

lemma TrimSpace_names [simp]:
  "TrimSpace ''navigation'' = ''navigation''" "TrimSpace ''motors'' = ''motors''"
  "TrimSpace ''cargo'' = ''cargo''" "TrimSpace ''journal'' = ''journal''"
  "TrimSpace ''security_monitor'' = ''security_monitor''" "TrimSpace ''limiter'' = ''limiter''"
  "TrimSpace ''emergency'' = ''emergency''" "TrimSpace ''autopilot'' = ''autopilot''"
  "TrimSpace ''telemetry'' = ''telemetry''" "TrimSpace ''mission_handler'' = ''mission_handler''"
  by (simp_all add: TrimSpace_def is_space_def)

lemma env_float_ok: "ok d \<Longrightarrow> ok (env_float h k ok d)"
  by (auto simp: env_float_def split: option.splits)

lemma slug_chars_alnum: "c \<in> set (slug_chars s) \<Longrightarrow> is_alnum c \<or> c = CHR ''_''"
  by (induction s) (auto split: if_splits)

lemma slug_slugBrokerID: "slugBrokerID s \<noteq> [] \<Longrightarrow> slug s = slugBrokerID s"
  by (auto simp: slug_def slugBrokerID_def Let_def split: if_splits)

end
