(* ===== verification/Message_Bus.thy ===== *)
theory Message_Bus
  imports Config
begin

text \<open>
  Package \<^verbatim>\<open>bus\<close>: the factory and the two broker adapters \<^verbatim>\<open>bus/src/kafka/bus.go\<close> and \<^verbatim>\<open>bus/src/mqtt/bus.go\<close>. The client
  libraries (sarama, paho) are third-party code: what a connection attempt, a publication or the broker does
  is an input of the model. What the adapters share, the table of handlers and the matching of answers
  to waiting requests by correlation id, is a transition system in which every lock, channel operation
  and broker event is one step, so that requests, arriving messages and timeouts interleave freely.
\<close>

section \<open>Construction\<close>

record kafka_cfg =
  kBroker :: string
  kClientID :: string
  kGroupID :: string
  kUsername :: string
  kPassword :: string
  kReplyTopic :: string
  kConsumerGroupID :: string

definition kafka_New :: "int \<Rightarrow> string \<Rightarrow> string \<Rightarrow> string \<Rightarrow> string \<Rightarrow> string \<Rightarrow> kafka_cfg" where
  "kafka_New now broker clientID groupID user password =
     (let gid = orElse groupID (clientID @ ''_group'') in
      \<lparr>kBroker = broker, kClientID = clientID, kGroupID = gid, kUsername = user, kPassword = password,
       kReplyTopic = ''replies.'' @ clientID @ ''.'' @ Itoa (now mod 100000), kConsumerGroupID = gid @ ''_cg''\<rparr>)"

record mqtt_cfg =
  mBroker :: string
  mPort :: int
  mClientID :: string
  mQos :: int
  mUsername :: string
  mPassword :: string
  mReplyTopic :: string

text \<open>The two clock readings: for the reply topic, when none is given, and for the client id.\<close>

definition mqtt_New :: "int \<Rightarrow> int \<Rightarrow> string \<Rightarrow> int \<Rightarrow> string \<Rightarrow> int \<Rightarrow> string \<Rightarrow> string \<Rightarrow> string \<Rightarrow> mqtt_cfg" where
  "mqtt_New now now' broker port clientID qos user password reply =
     \<lparr>mBroker = broker, mPort = (if port \<le> 0 then 1883 else port),
      mClientID = clientID @ ''_'' @ Itoa (now' mod 10000), mQos = (if 0 \<le> qos \<and> qos \<le> 2 then qos else 1),
      mUsername = user, mPassword = password,
      mReplyTopic = (if TrimSpace reply = [] then ''replies.'' @ clientID @ ''.'' @ Itoa (now mod 100000) else reply)\<rparr>"

datatype adapter = Kafka kafka_cfg | Mqtt mqtt_cfg

definition bus_New :: "int \<Rightarrow> int \<Rightarrow> Config \<Rightarrow> string + adapter" where
  "bus_New now now' cfg =
     (if BrokerType cfg = ''kafka'' then
        Inr (Kafka (kafka_New now (KafkaBootstrap cfg) (ComponentID cfg) (KafkaGroupID cfg) (BrokerUser cfg) (BrokerPassword cfg)))
      else if BrokerType cfg = ''mqtt'' then
        Inr (Mqtt (mqtt_New now now' (MQTTBroker cfg) (MQTTPort cfg) (ComponentID cfg) (MQTTQoS cfg)
          (BrokerUser cfg) (BrokerPassword cfg) (ReplyBrokerTopic cfg)))
      else Inl (''unknown broker type: '' @ [CHR 0x22] @ BrokerType cfg @ [CHR 0x22] @ '' (use kafka or mqtt)''))"

section \<open>Subscriptions\<close>

text \<open>\<open>'h\<close> stands for the handler functions. The client is the connection an MQTT bus holds: whether it is
  connected, and the topics subscribed on it.\<close>

record mqtt_client =
  clConnected :: bool
  clTopics :: "string list"

record 'h mqtt_bus =
  mHandlers :: "(string \<times> 'h) list"
  mClient :: "mqtt_client option"
  mRunning :: bool

definition subscribeClient :: "string \<Rightarrow> mqtt_client \<Rightarrow> mqtt_client" where
  "subscribeClient t cl = cl\<lparr>clTopics := clTopics cl @ [t]\<rparr>"

text \<open>\<open>conn\<close> is the outcome of connecting: an error, or nil.\<close>

definition getClient :: "string option \<Rightarrow> 'h mqtt_bus \<Rightarrow> string option \<times> 'h mqtt_bus" where
  "getClient conn b =
     (case mClient b of
        Some cl \<Rightarrow> if clConnected cl then (None, b)
                   else (case conn of Some e \<Rightarrow> (Some e, b)
                         | None \<Rightarrow> (None, b\<lparr>mClient := Some \<lparr>clConnected = True, clTopics = []\<rparr>\<rparr>))
      | None \<Rightarrow> (case conn of Some e \<Rightarrow> (Some e, b)
                 | None \<Rightarrow> (None, b\<lparr>mClient := Some \<lparr>clConnected = True, clTopics = []\<rparr>\<rparr>)))"

definition mqtt_Start :: "mqtt_cfg \<Rightarrow> string option \<Rightarrow> 'h mqtt_bus \<Rightarrow> string option \<times> 'h mqtt_bus" where
  "mqtt_Start c conn b =
     (if mRunning b then (None, b)
      else case getClient conn b of
        (Some e, b') \<Rightarrow> (Some e, b')
      | (None, b') \<Rightarrow> (None, b'\<lparr>mRunning := True,
          mClient := map_option (fold subscribeClient (mReplyTopic c # map fst (mHandlers b'))) (mClient b')\<rparr>))"

definition mqtt_Stop :: "'h mqtt_bus \<Rightarrow> 'h mqtt_bus" where
  "mqtt_Stop b = (if \<not> mRunning b then b else b\<lparr>mRunning := False, mClient := None\<rparr>)"

definition live :: "'h mqtt_bus \<Rightarrow> bool" where
  "live b \<longleftrightarrow> (\<exists>cl. mClient b = Some cl \<and> clConnected cl)"

definition mqtt_Subscribe :: "string \<Rightarrow> 'h \<Rightarrow> 'h mqtt_bus \<Rightarrow> 'h mqtt_bus" where
  "mqtt_Subscribe t f b =
     (let b' = b\<lparr>mHandlers := put t f (mHandlers b)\<rparr> in
      if live b then b'\<lparr>mClient := map_option (subscribeClient t) (mClient b)\<rparr> else b')"

definition mqtt_Unsubscribe :: "string \<Rightarrow> 'h mqtt_bus \<Rightarrow> 'h mqtt_bus" where
  "mqtt_Unsubscribe t b =
     (let b' = b\<lparr>mHandlers := mdelete t (mHandlers b)\<rparr> in
      if live b then b'\<lparr>mClient := map_option (\<lambda>cl. cl\<lparr>clTopics := removeAll t (clTopics cl)\<rparr>) (mClient b)\<rparr> else b')"

text \<open>\<^verbatim>\<open>Publish\<close>: connect if necessary, marshal, hand over; \<open>token\<close> is the outcome of the client library.\<close>

definition mqtt_Publish :: "string option \<Rightarrow> string option \<Rightarrow> string \<Rightarrow> gmap \<Rightarrow> 'h mqtt_bus \<Rightarrow> string option \<times> 'h mqtt_bus" where
  "mqtt_Publish conn token marshalErr m b =
     (case getClient conn b of
        (Some e, b') \<Rightarrow> (Some e, b')
      | (None, b') \<Rightarrow> (if wire_map m = None then Some marshalErr else token, b'))"

text \<open>The Kafka bus consumes the topics it knows when it is started.\<close>

record 'h kafka_bus =
  kHandlers :: "(string \<times> 'h) list"
  kProducer :: bool
  kConsumes :: "string list option"
  kRunning :: bool

definition getTopics :: "kafka_cfg \<Rightarrow> 'h kafka_bus \<Rightarrow> string list" where
  "getTopics c b = kReplyTopic c # map fst (kHandlers b)"

definition getProducer :: "string option \<Rightarrow> 'h kafka_bus \<Rightarrow> string option \<times> 'h kafka_bus" where
  "getProducer conn b =
     (if kProducer b then (None, b)
      else case conn of Some e \<Rightarrow> (Some e, b) | None \<Rightarrow> (None, b\<lparr>kProducer := True\<rparr>))"

definition kafka_Subscribe :: "string \<Rightarrow> 'h \<Rightarrow> 'h kafka_bus \<Rightarrow> 'h kafka_bus" where
  "kafka_Subscribe t f b = b\<lparr>kHandlers := put t f (kHandlers b)\<rparr>"

definition kafka_Unsubscribe :: "string \<Rightarrow> 'h kafka_bus \<Rightarrow> 'h kafka_bus" where
  "kafka_Unsubscribe t b = b\<lparr>kHandlers := mdelete t (kHandlers b)\<rparr>"

text \<open>\<open>grp\<close> is the outcome of creating the consumer group, in the goroutine that \<^verbatim>\<open>Start\<close> spawns.\<close>

definition startConsumer :: "kafka_cfg \<Rightarrow> string option \<Rightarrow> 'h kafka_bus \<Rightarrow> 'h kafka_bus" where
  "startConsumer c grp b = (case grp of Some _ \<Rightarrow> b | None \<Rightarrow> b\<lparr>kConsumes := Some (getTopics c b)\<rparr>)"

definition kafka_Start :: "kafka_cfg \<Rightarrow> string option \<Rightarrow> string option \<Rightarrow> 'h kafka_bus \<Rightarrow> string option \<times> 'h kafka_bus" where
  "kafka_Start c conn grp b =
     (if kRunning b then (None, b)
      else case getProducer conn b of
        (Some e, b') \<Rightarrow> (Some e, b')
      | (None, b') \<Rightarrow> (None, startConsumer c grp (b'\<lparr>kRunning := True\<rparr>)))"

definition kafka_Stop :: "'h kafka_bus \<Rightarrow> 'h kafka_bus" where
  "kafka_Stop b = (if \<not> kRunning b then b else b\<lparr>kRunning := False, kConsumes := None, kProducer := False\<rparr>)"

definition publishJSON :: "string option \<Rightarrow> string option \<Rightarrow> string \<Rightarrow> gmap \<Rightarrow> 'h kafka_bus \<Rightarrow> string option \<times> 'h kafka_bus" where
  "publishJSON conn outcome marshalErr m b =
     (case getProducer conn b of
        (Some e, b') \<Rightarrow> (Some e, b')
      | (None, b') \<Rightarrow> (if wire_map m = None then Some marshalErr else outcome, b'))"

section \<open>Requests and answers\<close>

datatype phase =
    Registered
  | Waiting
  | Leaving "string + gmap"
  | Returned "string + gmap"

record request =
  rqCorr :: string
  rqChan :: nat
  rqPhase :: phase

text \<open>\<open>chans\<close> are the buffered channels with what they hold; \<open>sending\<close> are messages that the consumer has
  matched and is about to put into a channel; \<open>dispatched\<close> are the calls of handlers, in order.\<close>

record bus =
  pending :: "(string \<times> nat) list"
  chans :: "nat \<rightharpoonup> gmap"
  reqs :: "request list"
  sending :: "(nat \<times> gmap) list"
  subscribed :: "string list"
  dispatched :: "(string \<times> gmap) list"

definition bus_start :: "string list \<Rightarrow> bus" where
  "bus_start topics = \<lparr>pending = [], chans = Map.empty, reqs = [], sending = [], subscribed = topics, dispatched = []\<rparr>"

definition setPhase :: "nat \<Rightarrow> phase \<Rightarrow> bus \<Rightarrow> bus" where
  "setPhase i p b = b\<lparr>reqs := (reqs b)[i := (reqs b ! i)\<lparr>rqPhase := p\<rparr>]\<rparr>"

text \<open>The message a request publishes.\<close>

definition request_msg :: "string \<Rightarrow> string \<Rightarrow> gmap \<Rightarrow> gmap" where
  "request_msg corr reply m = put ''reply_to'' (GStr reply) (put ''correlation_id'' (GStr corr) (put_all m []))"

definition registerRequest :: "int \<Rightarrow> bus \<Rightarrow> bus" where
  "registerRequest now b =
     (let corr = Itoa now; ch = length (reqs b) in
      b\<lparr>pending := put corr ch (pending b), reqs := reqs b @ [\<lparr>rqCorr = corr, rqChan = ch, rqPhase = Registered\<rparr>]\<rparr>)"

text \<open>A message arrives: the body of \<^verbatim>\<open>ConsumeClaim\<close> and of the MQTT publish handler.\<close>

definition arriveMessage :: "string \<Rightarrow> gmap \<Rightarrow> bus \<Rightarrow> bus" where
  "arriveMessage t m b =
     (let corr = get_str m ''correlation_id'' in
      case (if corr = [] then None else map_of (pending b) corr) of
        Some ch \<Rightarrow> b\<lparr>pending := mdelete corr (pending b), sending := sending b @ [(ch, m)]\<rparr>
      | None \<Rightarrow> if t \<in> set (subscribed b) then b\<lparr>dispatched := dispatched b @ [(t, m)]\<rparr> else b)"

text \<open>The non-blocking send on a channel of capacity one: a full channel drops the message.\<close>

definition pushMessage :: "nat \<Rightarrow> bus \<Rightarrow> bus" where
  "pushMessage k b =
     (let (ch, m) = sending b ! k; rest = take k (sending b) @ drop (Suc k) (sending b) in
      case chans b ch of
        None \<Rightarrow> b\<lparr>chans := (chans b)(ch \<mapsto> m), sending := rest\<rparr>
      | Some _ \<Rightarrow> b\<lparr>sending := rest\<rparr>)"

definition receiveAnswer :: "nat \<Rightarrow> gmap \<Rightarrow> bus \<Rightarrow> bus" where
  "receiveAnswer i m b = setPhase i (Leaving (Inr m)) (b\<lparr>chans := (chans b)(rqChan (reqs b ! i) := None)\<rparr>)"

text \<open>The deferred clean-up.\<close>

definition cleanUp :: "nat \<Rightarrow> string + gmap \<Rightarrow> bus \<Rightarrow> bus" where
  "cleanUp i r b = setPhase i (Returned r) (b\<lparr>pending := mdelete (rqCorr (reqs b ! i)) (pending b)\<rparr>)"

inductive bus_step :: "bus \<Rightarrow> bus \<Rightarrow> bool" where
  begin_request: "bus_step b (registerRequest now b)"
| publish_ok: "i < length (reqs b) \<Longrightarrow> rqPhase (reqs b ! i) = Registered \<Longrightarrow> bus_step b (setPhase i Waiting b)"
| publish_error: "i < length (reqs b) \<Longrightarrow> rqPhase (reqs b ! i) = Registered \<Longrightarrow> bus_step b (setPhase i (Leaving (Inl e)) b)"
| arrive: "bus_step b (arriveMessage t m b)"
| push: "k < length (sending b) \<Longrightarrow> bus_step b (pushMessage k b)"
| receive: "i < length (reqs b) \<Longrightarrow> rqPhase (reqs b ! i) = Waiting \<Longrightarrow> chans b (rqChan (reqs b ! i)) = Some m \<Longrightarrow>
    bus_step b (receiveAnswer i m b)"
| give_up: "i < length (reqs b) \<Longrightarrow> rqPhase (reqs b ! i) = Waiting \<Longrightarrow> bus_step b (setPhase i (Leaving (Inl e)) b)"
| clean_up: "i < length (reqs b) \<Longrightarrow> rqPhase (reqs b ! i) = Leaving r \<Longrightarrow> bus_step b (cleanUp i r b)"
| change_subscriptions: "bus_step b (b\<lparr>subscribed := ts\<rparr>)"

inductive_cases bus_stepE: "bus_step b b'"

section \<open>Invariant\<close>

definition answered :: "bus \<Rightarrow> nat \<Rightarrow> gmap \<Rightarrow> bool" where
  "answered b i m \<longleftrightarrow> rqPhase (reqs b ! i) = Leaving (Inr m) \<or> rqPhase (reqs b ! i) = Returned (Inr m)"

definition is_done :: "bus \<Rightarrow> nat \<Rightarrow> bool" where
  "is_done b i \<longleftrightarrow> (\<exists>r. rqPhase (reqs b ! i) = Returned r)"

text \<open>A request that the message \<open>m\<close> answers.\<close>

definition for_request :: "bus \<Rightarrow> nat \<Rightarrow> gmap \<Rightarrow> bool" where
  "for_request b i m \<longleftrightarrow> i < length (reqs b) \<and> get_str m ''correlation_id'' = rqCorr (reqs b ! i)"

definition bus_match :: "bus \<Rightarrow> bool" where
  "bus_match b \<longleftrightarrow> (\<forall>i < length (reqs b). rqChan (reqs b ! i) = i) \<and>
     (\<forall>corr ch. map_of (pending b) corr = Some ch \<longrightarrow> ch < length (reqs b) \<and> rqCorr (reqs b ! ch) = corr \<and> \<not> is_done b ch) \<and>
     (\<forall>ch m. (ch, m) \<in> set (sending b) \<longrightarrow> for_request b ch m) \<and>
     (\<forall>ch m. chans b ch = Some m \<longrightarrow> for_request b ch m) \<and>
     (\<forall>i < length (reqs b). \<forall>m. answered b i m \<longrightarrow> for_request b i m)"

text \<open>An answer is in one place only: not yet matched, on its way, in the channel, or taken.\<close>

definition bus_once :: "bus \<Rightarrow> bool" where
  "bus_once b \<longleftrightarrow> distinct (map fst (sending b)) \<and>
     (\<forall>corr ch. map_of (pending b) corr = Some ch \<longrightarrow> (\<forall>m. (ch, m) \<notin> set (sending b)) \<and> chans b ch = None \<and> (\<forall>m. \<not> answered b ch m)) \<and>
     (\<forall>ch m. (ch, m) \<in> set (sending b) \<longrightarrow> chans b ch = None \<and> (\<forall>m. \<not> answered b ch m)) \<and>
     (\<forall>ch m. chans b ch = Some m \<longrightarrow> (\<forall>m. \<not> answered b ch m))"

definition bus_inv :: "bus \<Rightarrow> bool" where
  "bus_inv b \<longleftrightarrow> bus_match b \<and> bus_once b"

lemma bus_invI:
  assumes "\<And>i. i < length (reqs b) \<Longrightarrow> rqChan (reqs b ! i) = i"
    and "\<And>corr ch. map_of (pending b) corr = Some ch \<Longrightarrow> ch < length (reqs b) \<and> rqCorr (reqs b ! ch) = corr \<and> \<not> is_done b ch \<and>
       (\<forall>m. (ch, m) \<notin> set (sending b)) \<and> chans b ch = None \<and> (\<forall>m. \<not> answered b ch m)"
    and "distinct (map fst (sending b))"
    and "\<And>ch m. (ch, m) \<in> set (sending b) \<Longrightarrow> for_request b ch m \<and> chans b ch = None \<and> (\<forall>m. \<not> answered b ch m)"
    and "\<And>ch m. chans b ch = Some m \<Longrightarrow> for_request b ch m \<and> (\<forall>m. \<not> answered b ch m)"
    and "\<And>i m. i < length (reqs b) \<Longrightarrow> answered b i m \<Longrightarrow> for_request b i m"
  shows "bus_inv b"
  using assms unfolding bus_inv_def bus_match_def bus_once_def by blast

lemma bus_invD:
  assumes "bus_inv b"
  shows "i < length (reqs b) \<Longrightarrow> rqChan (reqs b ! i) = i"
    and "map_of (pending b) corr = Some ch \<Longrightarrow> ch < length (reqs b) \<and> rqCorr (reqs b ! ch) = corr \<and> \<not> is_done b ch \<and>
       (\<forall>m. (ch, m) \<notin> set (sending b)) \<and> chans b ch = None \<and> (\<forall>m. \<not> answered b ch m)"
    and "distinct (map fst (sending b))"
    and "(ch, m) \<in> set (sending b) \<Longrightarrow> for_request b ch m \<and> chans b ch = None \<and> (\<forall>m. \<not> answered b ch m)"
    and "chans b ch = Some m \<Longrightarrow> for_request b ch m \<and> (\<forall>m. \<not> answered b ch m)"
    and "i < length (reqs b) \<Longrightarrow> answered b i m \<Longrightarrow> for_request b i m"
  using assms unfolding bus_inv_def bus_match_def bus_once_def by blast+

lemma setPhase_sel [simp]:
  "pending (setPhase i p b) = pending b" "chans (setPhase i p b) = chans b" "sending (setPhase i p b) = sending b"
  "length (reqs (setPhase i p b)) = length (reqs b)"
  by (simp_all add: setPhase_def)

lemma setPhase_reqs [simp]:
  assumes "i < length (reqs b)"
  shows "rqPhase (reqs (setPhase i p b) ! j) = (if j = i then p else rqPhase (reqs b ! j))"
    "rqCorr (reqs (setPhase i p b) ! j) = rqCorr (reqs b ! j)" "rqChan (reqs (setPhase i p b) ! j) = rqChan (reqs b ! j)"
  using assms by (simp_all add: setPhase_def nth_list_update)

lemma phase_preds [simp]:
  assumes "i < length (reqs b)"
  shows "is_done (setPhase i p b) j = (if j = i then (\<exists>r. p = Returned r) else is_done b j)"
    "answered (setPhase i p b) j m = (if j = i then p \<in> {Leaving (Inr m), Returned (Inr m)} else answered b j m)"
    "for_request (setPhase i p b) j m = for_request b j m"
  using assms by (simp_all add: is_done_def answered_def for_request_def)

text \<open>The operations keep the invariant.\<close>

lemma setPhase_inv:
  assumes "bus_inv b" "i < length (reqs b)" "\<And>r. p \<noteq> Returned r" "\<And>m. p \<noteq> Leaving (Inr m)"
  shows "bus_inv (setPhase i p b)"
proof -
  note D = bus_invD [OF assms(1)]
  show ?thesis
  proof (rule bus_invI)
    show "map_of (pending (setPhase i p b)) corr = Some ch \<Longrightarrow> ch < length (reqs (setPhase i p b)) \<and>
        rqCorr (reqs (setPhase i p b) ! ch) = corr \<and> \<not> is_done (setPhase i p b) ch \<and>
       (\<forall>m. (ch, m) \<notin> set (sending (setPhase i p b))) \<and> chans (setPhase i p b) ch = None \<and> (\<forall>m. \<not> answered (setPhase i p b) ch m)" for corr ch
      using D(2) [of corr ch] assms(2-4) by simp
  qed (use D assms(2-4) in \<open>auto split: if_splits\<close>)
qed

lemma registerRequest_sel [simp]:
  "map_of (pending (registerRequest now b)) = (map_of (pending b))(Itoa now \<mapsto> length (reqs b))"
  "chans (registerRequest now b) = chans b" "sending (registerRequest now b) = sending b"
  "length (reqs (registerRequest now b)) = Suc (length (reqs b))"
  "rqCorr (reqs (registerRequest now b) ! length (reqs b)) = Itoa now" "rqChan (reqs (registerRequest now b) ! length (reqs b)) = length (reqs b)"
  "rqPhase (reqs (registerRequest now b) ! length (reqs b)) = Registered"
  "i < length (reqs b) \<Longrightarrow> reqs (registerRequest now b) ! i = reqs b ! i"
  by (simp_all add: registerRequest_def Let_def nth_append)

lemma registerRequest_preds [simp]:
  "i < length (reqs b) \<Longrightarrow> is_done (registerRequest now b) i = is_done b i" "\<not> is_done (registerRequest now b) (length (reqs b))"
  "i < length (reqs b) \<Longrightarrow> answered (registerRequest now b) i m = answered b i m" "\<not> answered (registerRequest now b) (length (reqs b)) m"
  "i < length (reqs b) \<Longrightarrow> for_request (registerRequest now b) i m = for_request b i m"
  by (simp_all add: is_done_def answered_def for_request_def)

lemma registerRequest_inv:
  assumes "bus_inv b"
  shows "bus_inv (registerRequest now b)"
proof -
  let ?b = "registerRequest now b" and ?n = "length (reqs b)"
  note D = bus_invD [OF assms]
  have lt: "(ch, m) \<in> set (sending b) \<Longrightarrow> ch < ?n" "chans b ch = Some m \<Longrightarrow> ch < ?n" for ch m
    using D(4) [of ch m] D(5) [of ch m] by (simp_all add: for_request_def)
  have fresh: "(?n, m) \<notin> set (sending b)" "chans b ?n = None" for m
    using lt(1) [of ?n m] lt(2) [of ?n "the (chans b ?n)"] by (metis less_irrefl, metis less_irrefl option.collapse)
  show ?thesis
  proof (rule bus_invI)
    fix corr ch assume a: "map_of (pending ?b) corr = Some ch"
    show "ch < length (reqs ?b) \<and> rqCorr (reqs ?b ! ch) = corr \<and> \<not> is_done ?b ch \<and>
       (\<forall>m. (ch, m) \<notin> set (sending ?b)) \<and> chans ?b ch = None \<and> (\<forall>m. \<not> answered ?b ch m)"
    proof (cases "corr = Itoa now")
      case True
      with a have "ch = ?n" by simp
      with True show ?thesis by (simp add: fresh)
    next
      case False
      with a have "map_of (pending b) corr = Some ch" by simp
      then show ?thesis using D(2) [of corr ch] by simp
    qed
  next
    fix ch m assume "(ch, m) \<in> set (sending ?b)"
    then show "for_request ?b ch m \<and> chans ?b ch = None \<and> (\<forall>m. \<not> answered ?b ch m)" using D(4) [of ch m] lt(1) [of ch m] by simp
  next
    fix ch m assume "chans ?b ch = Some m"
    then show "for_request ?b ch m \<and> (\<forall>m. \<not> answered ?b ch m)" using D(5) [of ch m] lt(2) [of ch m] by simp
  next
    fix i m assume "i < length (reqs ?b)" "answered ?b i m"
    then show "for_request ?b i m" using D(6) [of i m] by (cases "i = ?n") auto
  next
    fix i assume "i < length (reqs ?b)"
    then show "rqChan (reqs ?b ! i) = i" using D(1) [of i] by (cases "i = ?n") auto
  qed (use D(3) in simp)
qed

text \<open>Nothing in the invariant but the requests' own fields depends on their list.\<close>

lemma bus_preds_cong:
  "reqs b' = reqs b \<Longrightarrow> is_done b' i = is_done b i" "reqs b' = reqs b \<Longrightarrow> answered b' i m = answered b i m"
  "reqs b' = reqs b \<Longrightarrow> for_request b' i m = for_request b i m"
  by (simp_all add: is_done_def answered_def for_request_def)

lemma arriveMessage_inv:
  assumes "bus_inv b"
  shows "bus_inv (arriveMessage t m b)"
proof -
  note D = bus_invD [OF assms]
  let ?b = "arriveMessage t m b" and ?corr = "get_str m ''correlation_id''"
  have R: "reqs ?b = reqs b" "chans ?b = chans b" by (simp_all add: arriveMessage_def Let_def split: option.splits)
  note P = bus_preds_cong [OF R(1)]
  show ?thesis
  proof (cases "if ?corr = [] then None else map_of (pending b) ?corr")
    case None
    then have "pending ?b = pending b" "sending ?b = sending b" by (simp_all add: arriveMessage_def Let_def)
    then show ?thesis by (intro bus_invI) (simp_all add: R P D)
  next
    case (Some ch)
    then have q: "map_of (pending b) ?corr = Some ch" by (simp split: if_splits)
    note Q = D(2) [OF q]
    have S: "map_of (pending ?b) = (map_of (pending b))(?corr := None)" "sending ?b = sending b @ [(ch, m)]"
      using Some by (simp_all add: arriveMessage_def Let_def)
    show ?thesis
    proof (rule bus_invI)
      fix corr c assume "map_of (pending ?b) corr = Some c"
      then have c: "map_of (pending b) corr = Some c" "corr \<noteq> ?corr" by (auto simp: S split: if_splits)
      then have "c \<noteq> ch" using D(2) [OF c(1)] Q by auto
      then show "c < length (reqs ?b) \<and> rqCorr (reqs ?b ! c) = corr \<and> \<not> is_done ?b c \<and>
       (\<forall>m. (c, m) \<notin> set (sending ?b)) \<and> chans ?b c = None \<and> (\<forall>m. \<not> answered ?b c m)"
        using D(2) [OF c(1)] by (simp add: R P S)
    next
      fix c x assume "(c, x) \<in> set (sending ?b)"
      then show "for_request ?b c x \<and> chans ?b c = None \<and> (\<forall>m. \<not> answered ?b c m)"
        using D(4) [of c x] Q by (auto simp: S R P for_request_def)
    next
      show "distinct (map fst (sending ?b))" using D(3) Q by (force simp: S)
    qed (simp_all add: R P D)
  qed
qed

lemma pushMessage_drops_nothing:
  assumes "bus_inv b" "k < length (sending b)" "sending b ! k = (ch, m)"
  shows "pushMessage k b = b\<lparr>chans := (chans b)(ch \<mapsto> m), sending := take k (sending b) @ drop (Suc k) (sending b)\<rparr>"
proof -
  have "(ch, m) \<in> set (sending b)" using assms(2,3) nth_mem by metis
  then have "chans b ch = None" using bus_invD(4) [OF assms(1)] by blast
  then show ?thesis by (simp add: pushMessage_def assms(3))
qed

lemma pushMessage_inv:
  assumes "bus_inv b" "k < length (sending b)"
  shows "bus_inv (pushMessage k b)"
proof -
  note D = bus_invD [OF assms(1)]
  obtain ch m where cm: "sending b ! k = (ch, m)" by (cases "sending b ! k")
  let ?b = "pushMessage k b" and ?rest = "take k (sending b) @ drop (Suc k) (sending b)"
  obtain xs ys where xs: "sending b = xs @ (ch, m) # ys" "?rest = xs @ ys"
    using id_take_nth_drop [OF assms(2)] cm by metis
  have S: "chans ?b = (chans b)(ch \<mapsto> m)" "sending ?b = xs @ ys" "reqs ?b = reqs b" "pending ?b = pending b"
    using xs(2) by (simp_all add: pushMessage_drops_nothing [OF assms cm])
  note P = bus_preds_cong [OF S(3)]
  have d: "distinct (map fst (xs @ (ch, m) # ys))" using D(3) xs(1) by simp
  have mem: "(c, x) \<in> set (xs @ ys) \<Longrightarrow> (c, x) \<in> set (sending b) \<and> c \<noteq> ch" for c x
    using d by (auto simp: xs(1) rev_image_eqI)
  have here: "(ch, m) \<in> set (sending b)" by (simp add: xs(1))
  show ?thesis
  proof (rule bus_invI)
    fix corr c assume c: "map_of (pending ?b) corr = Some c"
    then have "c \<noteq> ch" using D(2) [of corr c] here by (auto simp: S)
    then show "c < length (reqs ?b) \<and> rqCorr (reqs ?b ! c) = corr \<and> \<not> is_done ?b c \<and>
       (\<forall>m. (c, m) \<notin> set (sending ?b)) \<and> chans ?b c = None \<and> (\<forall>m. \<not> answered ?b c m)"
      using D(2) [of corr c] c mem [of c] by (auto simp: S P)
  next
    fix c x assume "(c, x) \<in> set (sending ?b)"
    then show "for_request ?b c x \<and> chans ?b c = None \<and> (\<forall>m. \<not> answered ?b c m)"
      using mem [of c x] D(4) [of c x] by (simp add: S P)
  next
    fix c x assume "chans ?b c = Some x"
    then show "for_request ?b c x \<and> (\<forall>m. \<not> answered ?b c m)"
      using D(5) [of c x] D(4) [OF here] by (auto simp: S P split: if_splits)
  next
    show "distinct (map fst (sending ?b))" using d by (simp add: S)
  qed (simp_all add: S P D)
qed

lemma receiveAnswer_inv:
  assumes "bus_inv b" "i < length (reqs b)" "rqPhase (reqs b ! i) = Waiting" "chans b (rqChan (reqs b ! i)) = Some m"
  shows "bus_inv (receiveAnswer i m b)"
proof -
  note D = bus_invD [OF assms(1)]
  have ch: "rqChan (reqs b ! i) = i" "chans b i = Some m" using D(1) [OF assms(2)] assms(4) by simp_all
  let ?c = "b\<lparr>chans := (chans b)(i := None)\<rparr>"
  have i: "i < length (reqs ?c)" using assms(2) by simp
  have P: "is_done ?c j = is_done b j" "answered ?c j x = answered b j x" "for_request ?c j x = for_request b j x" for j x
    by (simp_all add: is_done_def answered_def for_request_def)
  have s: "(i, x) \<notin> set (sending b)" for x using D(4) [of i x] ch(2) by auto
  have p: "map_of (pending b) corr \<noteq> Some i" for corr using D(2) [of corr i] ch(2) by auto
  have f: "for_request b i m" using D(5) [OF ch(2)] by simp
  have "bus_inv (setPhase i (Leaving (Inr m)) ?c)"
  proof (rule bus_invI)
    fix corr c assume "map_of (pending (setPhase i (Leaving (Inr m)) ?c)) corr = Some c"
    then have c: "map_of (pending b) corr = Some c" "c \<noteq> i" using p by auto
    show "c < length (reqs (setPhase i (Leaving (Inr m)) ?c)) \<and> rqCorr (reqs (setPhase i (Leaving (Inr m)) ?c) ! c) = corr \<and>
       \<not> is_done (setPhase i (Leaving (Inr m)) ?c) c \<and> (\<forall>m'. (c, m') \<notin> set (sending (setPhase i (Leaving (Inr m)) ?c))) \<and>
       chans (setPhase i (Leaving (Inr m)) ?c) c = None \<and> (\<forall>m'. \<not> answered (setPhase i (Leaving (Inr m)) ?c) c m')"
      using D(2) [OF c(1)] c(2) by (simp add: phase_preds [OF i] setPhase_reqs [OF i] P)
  next
    fix c x assume "(c, x) \<in> set (sending (setPhase i (Leaving (Inr m)) ?c))"
    then show "for_request (setPhase i (Leaving (Inr m)) ?c) c x \<and> chans (setPhase i (Leaving (Inr m)) ?c) c = None \<and>
        (\<forall>m'. \<not> answered (setPhase i (Leaving (Inr m)) ?c) c m')"
      using D(4) [of c x] s by (cases "c = i") (simp_all add: phase_preds [OF i] P)
  next
    fix c x assume "chans (setPhase i (Leaving (Inr m)) ?c) c = Some x"
    then show "for_request (setPhase i (Leaving (Inr m)) ?c) c x \<and> (\<forall>m'. \<not> answered (setPhase i (Leaving (Inr m)) ?c) c m')"
      using D(5) [of c x] by (cases "c = i") (simp_all add: phase_preds [OF i] P)
  next
    fix j x assume "j < length (reqs (setPhase i (Leaving (Inr m)) ?c))" "answered (setPhase i (Leaving (Inr m)) ?c) j x"
    then show "for_request (setPhase i (Leaving (Inr m)) ?c) j x"
      using D(6) [of j x] f by (cases "j = i") (simp_all add: phase_preds [OF i] P)
  next
    show "distinct (map fst (sending (setPhase i (Leaving (Inr m)) ?c)))" using D(3) by simp
  next
    fix j assume "j < length (reqs (setPhase i (Leaving (Inr m)) ?c))"
    then show "rqChan (reqs (setPhase i (Leaving (Inr m)) ?c) ! j) = j" using D(1) [of j] by (simp add: setPhase_reqs [OF i])
  qed
  then show ?thesis by (simp add: receiveAnswer_def ch(1))
qed

lemma cleanUp_inv:
  assumes "bus_inv b" "i < length (reqs b)" "rqPhase (reqs b ! i) = Leaving r"
  shows "bus_inv (cleanUp i r b)"
proof -
  note D = bus_invD [OF assms(1)]
  let ?corr = "rqCorr (reqs b ! i)"
  let ?c = "b\<lparr>pending := mdelete ?corr (pending b)\<rparr>"
  have i: "i < length (reqs ?c)" using assms(2) by simp
  have P: "is_done ?c j = is_done b j" "answered ?c j x = answered b j x" "for_request ?c j x = for_request b j x" for j x
    by (simp_all add: is_done_def answered_def for_request_def)
  have A: "answered (setPhase i (Returned r) ?c) j x \<longleftrightarrow> answered b j x" for j x
    using assms(3) by (simp add: phase_preds [OF i] P) (auto simp: answered_def)
  have "bus_inv (setPhase i (Returned r) ?c)"
  proof (rule bus_invI)
    fix corr c assume "map_of (pending (setPhase i (Returned r) ?c)) corr = Some c"
    then have c: "map_of (pending b) corr = Some c" "corr \<noteq> ?corr" by (auto split: if_splits)
    then have "c \<noteq> i" using D(2) [OF c(1)] by auto
    then show "c < length (reqs (setPhase i (Returned r) ?c)) \<and> rqCorr (reqs (setPhase i (Returned r) ?c) ! c) = corr \<and>
       \<not> is_done (setPhase i (Returned r) ?c) c \<and> (\<forall>m. (c, m) \<notin> set (sending (setPhase i (Returned r) ?c))) \<and>
       chans (setPhase i (Returned r) ?c) c = None \<and> (\<forall>m. \<not> answered (setPhase i (Returned r) ?c) c m)"
      using D(2) [OF c(1)] by (simp add: A phase_preds(1) [OF i] setPhase_reqs [OF i] P)
  next
    fix c x assume "(c, x) \<in> set (sending (setPhase i (Returned r) ?c))"
    then show "for_request (setPhase i (Returned r) ?c) c x \<and> chans (setPhase i (Returned r) ?c) c = None \<and>
        (\<forall>m. \<not> answered (setPhase i (Returned r) ?c) c m)"
      using D(4) [of c x] by (simp add: A phase_preds(3) [OF i] P)
  next
    fix c x assume "chans (setPhase i (Returned r) ?c) c = Some x"
    then show "for_request (setPhase i (Returned r) ?c) c x \<and> (\<forall>m. \<not> answered (setPhase i (Returned r) ?c) c m)"
      using D(5) [of c x] by (simp add: A phase_preds(3) [OF i] P)
  next
    fix j x assume "j < length (reqs (setPhase i (Returned r) ?c))" "answered (setPhase i (Returned r) ?c) j x"
    then show "for_request (setPhase i (Returned r) ?c) j x" using D(6) [of j x] by (simp add: A phase_preds(3) [OF i] P)
  next
    show "distinct (map fst (sending (setPhase i (Returned r) ?c)))" using D(3) by simp
  next
    fix j assume "j < length (reqs (setPhase i (Returned r) ?c))"
    then show "rqChan (reqs (setPhase i (Returned r) ?c) ! j) = j" using D(1) [of j] by (simp add: setPhase_reqs [OF i])
  qed
  then show ?thesis by (simp add: cleanUp_def)
qed

lemma bus_inv_step: "bus_step b b' \<Longrightarrow> bus_inv b \<Longrightarrow> bus_inv b'"
proof (induction rule: bus_step.induct)
  case (change_subscriptions b ts)
  then show ?case by (simp add: bus_inv_def bus_match_def bus_once_def is_done_def answered_def for_request_def)
qed (simp_all add: setPhase_inv registerRequest_inv arriveMessage_inv pushMessage_inv receiveAnswer_inv cleanUp_inv)

lemma bus_reachable_inv: "bus_step\<^sup>*\<^sup>* (bus_start ts) b \<Longrightarrow> bus_inv b"
proof (induction rule: rtranclp_induct)
  case base
  show ?case by (rule bus_invI) (simp_all add: bus_start_def)
next
  case (step b b')
  then show ?case using bus_inv_step by blast
qed

section \<open>Properties\<close>

text \<open>C19. Answers are matched. In every execution, a request that returns an answer returns one with its own correlation
  id; a matched answer always finds its channel empty, so none is dropped; and when every
  request has returned, the table of waiting requests is empty.\<close>

theorem bus_answers_match:
  assumes "bus_step\<^sup>*\<^sup>* (bus_start ts) b"
  shows "(\<forall>i < length (reqs b). \<forall>m. rqPhase (reqs b ! i) = Returned (Inr m) \<longrightarrow> get_str m ''correlation_id'' = rqCorr (reqs b ! i)) \<and>
     (\<forall>(ch, m) \<in> set (sending b). chans b ch = None) \<and>
     ((\<forall>i < length (reqs b). \<exists>r. rqPhase (reqs b ! i) = Returned r) \<longrightarrow> map_of (pending b) = Map.empty)"
proof (intro conjI allI impI ballI)
  note D = bus_invD [OF bus_reachable_inv [OF assms]]
  show "get_str m ''correlation_id'' = rqCorr (reqs b ! i)" if "i < length (reqs b)" "rqPhase (reqs b ! i) = Returned (Inr m)" for i m
    using D(6) [OF that(1), of m] that(2) by (simp add: answered_def for_request_def)
  show "case x of (ch, m) \<Rightarrow> chans b ch = None" if "x \<in> set (sending b)" for x
    using that D(4) [of "fst x" "snd x"] by (simp add: case_prod_beta)
  show "map_of (pending b) = Map.empty" if all: "\<forall>i < length (reqs b). \<exists>r. rqPhase (reqs b ! i) = Returned r"
  proof (rule ext)
    fix corr
    show "map_of (pending b) corr = None"
      using D(2) [of corr] all by (cases "map_of (pending b) corr") (auto simp: is_done_def)
  qed
qed

text \<open>One request that is answered, from the beginning to the end.\<close>

definition demo_answer :: gmap where
  "demo_answer = [(''action'', GStr ''response''), (''correlation_id'', GStr ''7'')]"

definition demo_waiting :: bus where
  "demo_waiting = setPhase 0 Waiting (registerRequest 7 (bus_start []))"

lemma demo_waiting_eq: "demo_waiting = (bus_start [])\<lparr>pending := [(''7'', 0)],
    reqs := [\<lparr>rqCorr = ''7'', rqChan = 0, rqPhase = Waiting\<rparr>]\<rparr>"
proof -
  have "Itoa 7 = ''7''" by code_simp
  then show ?thesis by (simp add: demo_waiting_def setPhase_def registerRequest_def bus_start_def Let_def)
qed

lemma demo_waiting_reachable: "bus_step\<^sup>*\<^sup>* (bus_start []) demo_waiting"
proof -
  have "bus_step (bus_start []) (registerRequest 7 (bus_start []))" by (rule bus_step.begin_request)
  moreover have "bus_step (registerRequest 7 (bus_start [])) demo_waiting"
    unfolding demo_waiting_def by (rule bus_step.publish_ok) (simp_all add: registerRequest_def bus_start_def Let_def)
  ultimately show ?thesis by (meson rtranclp.rtrancl_refl rtranclp.rtrancl_into_rtrancl)
qed

lemma answer_delivered:
  assumes "bus_inv b" and "i < length (reqs b)" and "rqPhase (reqs b ! i) = Waiting"
    and "map_of (pending b) (rqCorr (reqs b ! i)) = Some i" and "rqCorr (reqs b ! i) \<noteq> []"
    and "get_str m ''correlation_id'' = rqCorr (reqs b ! i)"
  shows "\<exists>b'. bus_step\<^sup>*\<^sup>* b b' \<and> bus_step b (arriveMessage t m b) \<and> bus_step\<^sup>*\<^sup>* (arriveMessage t m b) b' \<and>
    rqPhase (reqs b' ! i) = Returned (Inr m)"
proof -
  let ?b1 = "arriveMessage t m b" and ?k = "length (sending b)"
  let ?b2 = "pushMessage ?k ?b1" let ?b3 = "receiveAnswer i m ?b2" let ?b4 = "cleanUp i (Inr m) ?b3"
  have b1: "sending ?b1 = sending b @ [(i, m)]" "reqs ?b1 = reqs b"
    using assms(4-6) by (simp_all add: arriveMessage_def Let_def)
  have inv1: "bus_inv ?b1" by (rule arriveMessage_inv [OF assms(1)])
  have s2: "bus_step ?b1 ?b2" by (rule bus_step.push) (simp add: b1)
  have b2: "chans ?b2 i = Some m" "reqs ?b2 = reqs b"
    using pushMessage_drops_nothing [OF inv1, of ?k i m] b1 by simp_all
  have i: "rqChan (reqs b ! i) = i" using bus_invD(1) [OF assms(1,2)] .
  have s3: "bus_step ?b2 ?b3" by (rule bus_step.receive) (simp_all add: b2 assms(2,3) i)
  have ph: "rqPhase (reqs ?b3 ! i) = Leaving (Inr m)" "i < length (reqs ?b3)"
    using assms(2) by (simp_all add: receiveAnswer_def b2)
  have s4: "bus_step ?b3 ?b4" by (rule bus_step.clean_up [OF ph(2,1)])
  have fin: "rqPhase (reqs ?b4 ! i) = Returned (Inr m)" using ph(2) by (simp add: cleanUp_def)
  have "bus_step b ?b1" by (rule bus_step.arrive)
  moreover have "bus_step\<^sup>*\<^sup>* ?b1 ?b4" using s2 s3 s4 by (meson r_into_rtranclp rtranclp_trans)
  ultimately show ?thesis using fin by (meson converse_rtranclp_into_rtranclp)
qed

theorem bus_answers_match_witness:
  "\<exists>b. bus_step\<^sup>*\<^sup>* (bus_start []) b \<and> rqPhase (reqs b ! 0) = Returned (Inr demo_answer) \<and>
     get_str demo_answer ''correlation_id'' = rqCorr (reqs b ! 0)"
proof -
  have "\<exists>b'. bus_step\<^sup>*\<^sup>* demo_waiting b' \<and> bus_step demo_waiting (arriveMessage [] demo_answer demo_waiting) \<and>
      bus_step\<^sup>*\<^sup>* (arriveMessage [] demo_answer demo_waiting) b' \<and> rqPhase (reqs b' ! 0) = Returned (Inr demo_answer)"
    by (rule answer_delivered [OF bus_reachable_inv [OF demo_waiting_reachable]])
       (simp_all add: demo_waiting_eq demo_answer_def get_str_def)
  then obtain b where "bus_step\<^sup>*\<^sup>* demo_waiting b" "rqPhase (reqs b ! 0) = Returned (Inr demo_answer)" by blast
  moreover from this have r: "bus_step\<^sup>*\<^sup>* (bus_start []) b" using demo_waiting_reachable by simp
  moreover have "0 < length (reqs b)"
  proof -
    have grow: "bus_step b1 b2 \<Longrightarrow> length (reqs b1) \<le> length (reqs b2)" for b1 b2
      by (induction rule: bus_step.induct)
         (simp_all add: arriveMessage_def pushMessage_def receiveAnswer_def cleanUp_def Let_def split: option.splits prod.splits)
    have "length (reqs demo_waiting) \<le> length (reqs b)"
      using \<open>bus_step\<^sup>*\<^sup>* demo_waiting b\<close> by (induction rule: rtranclp_induct) (use grow le_trans in blast)+
    then show ?thesis by (auto simp: demo_waiting_eq)
  qed
  ultimately show ?thesis using bus_answers_match [OF r] by blast
qed

text \<open>C20. An answer gets through. In every reachable state, when a message with the correlation id of a request
  that waits under its own id arrives, on whatever topic, the request can finish, and it returns that very message.\<close>

theorem bus_answer_returned:
  assumes "bus_step\<^sup>*\<^sup>* (bus_start ts) b" and "i < length (reqs b)" and "rqPhase (reqs b ! i) = Waiting"
    and "map_of (pending b) (rqCorr (reqs b ! i)) = Some i" and "rqCorr (reqs b ! i) \<noteq> []"
    and "get_str m ''correlation_id'' = rqCorr (reqs b ! i)"
  shows "\<exists>b'. bus_step\<^sup>*\<^sup>* (arriveMessage t m b) b' \<and> rqPhase (reqs b' ! i) = Returned (Inr m)"
  using answer_delivered [OF bus_reachable_inv [OF assms(1)] assms(2-6), of t] by blast

theorem bus_answer_returned_witness:
  "\<exists>b'. bus_step\<^sup>*\<^sup>* (arriveMessage ''any'' demo_answer demo_waiting) b' \<and> rqPhase (reqs b' ! 0) = Returned (Inr demo_answer)"
  by (rule bus_answer_returned [OF demo_waiting_reachable]) (simp_all add: demo_waiting_eq demo_answer_def get_str_def)

text \<open>A request that no message can reach any more.\<close>

definition starved :: "bus \<Rightarrow> nat \<Rightarrow> bool" where
  "starved b i \<longleftrightarrow> i < length (reqs b) \<and> (\<forall>corr. map_of (pending b) corr \<noteq> Some i) \<and> (\<forall>m. (i, m) \<notin> set (sending b)) \<and>
     chans b i = None \<and> (\<forall>m. \<not> answered b i m)"

lemma starved_setPhase:
  assumes "starved b i" "j < length (reqs b)" "j = i \<Longrightarrow> \<forall>m. p \<noteq> Leaving (Inr m) \<and> p \<noteq> Returned (Inr m)"
  shows "starved (setPhase j p b) i"
  using assms by (auto simp: starved_def)

lemma starved_step:
  assumes "bus_step b b'" "bus_inv b" "starved b i"
  shows "starved b' i"
  using assms
proof (induction rule: bus_step.induct)
  case (begin_request b now)
  then show ?case by (auto simp: starved_def split: if_splits)
next
  case (arrive b t m)
  have R: "reqs (arriveMessage t m b) = reqs b" "chans (arriveMessage t m b) = chans b"
    by (simp_all add: arriveMessage_def Let_def split: option.splits)
  have "\<forall>corr. map_of (pending (arriveMessage t m b)) corr \<noteq> Some i" "\<forall>x. (i, x) \<notin> set (sending (arriveMessage t m b))"
    using arrive(2) by (auto simp: starved_def arriveMessage_def Let_def split: option.splits if_splits)
  then show ?case using arrive(2) bus_preds_cong(2) [OF R(1)] by (simp add: starved_def R)
next
  case (push k b)
  obtain ch m where cm: "sending b ! k = (ch, m)" by (cases "sending b ! k")
  have "(ch, m) \<in> set (sending b)" using push(1) cm nth_mem by metis
  then have "ch \<noteq> i" using push(3) by (auto simp: starved_def)
  moreover have "set (take k (sending b) @ drop (Suc k) (sending b)) \<subseteq> set (sending b)"
    by (auto dest: in_set_takeD in_set_dropD)
  ultimately show ?case using push(3)
    by (auto simp: starved_def pushMessage_drops_nothing [OF push(2,1) cm] answered_def)
next
  case (receive j b m)
  have "j \<noteq> i" using receive bus_invD(1) [OF receive(4,1)] by (auto simp: starved_def)
  moreover have "starved (b\<lparr>chans := (chans b)(rqChan (reqs b ! j) := None)\<rparr>) i"
    using receive(5) by (simp add: starved_def answered_def)
  ultimately show ?case unfolding receiveAnswer_def using receive(1) by (intro starved_setPhase) auto
next
  case (clean_up j b r)
  have "starved (b\<lparr>pending := mdelete (rqCorr (reqs b ! j)) (pending b)\<rparr>) i"
    using clean_up(4) by (simp add: starved_def answered_def)
  moreover have "j = i \<Longrightarrow> \<forall>m. r \<noteq> Inr m" using clean_up(2,4) by (auto simp: starved_def answered_def)
  ultimately show ?case unfolding cleanUp_def using clean_up(1) by (intro starved_setPhase) auto
next
  case (change_subscriptions b ts)
  then show ?case by (simp add: starved_def answered_def)
qed (simp_all add: starved_setPhase)

text \<open>C38. Correlation ids are clock readings. When two requests are registered at the same nanosecond, the first
  can never return an answer, whatever arrives.\<close>

theorem bus_collision_starves:
  assumes "bus_step\<^sup>*\<^sup>* (bus_start ts) b" and "bus_step\<^sup>*\<^sup>* (registerRequest now (registerRequest now b)) b'"
  shows "rqPhase (reqs b' ! length (reqs b)) \<noteq> Returned (Inr m)"
proof -
  let ?b1 = "registerRequest now b" let ?b2 = "registerRequest now ?b1" and ?i = "length (reqs b)"
  have inv: "bus_inv ?b1" "bus_inv ?b2" using registerRequest_inv bus_reachable_inv [OF assms(1)] by blast+
  note Q = bus_invD(2) [OF inv(1), of "Itoa now" ?i]
  have p: "map_of (pending ?b2) corr \<noteq> Some ?i" for corr
    using bus_invD(2) [OF bus_reachable_inv [OF assms(1)], of corr ?i] by auto
  have "starved ?b2 ?i" using Q p by (simp add: starved_def)
  moreover have "bus_inv b' \<and> starved b' ?i" if "bus_step\<^sup>*\<^sup>* ?b2 b'" "starved ?b2 ?i" for b'
    using that by (induction rule: rtranclp_induct) (use inv(2) bus_inv_step starved_step in blast)+
  ultimately have "starved b' ?i" using assms(2) by blast
  then show ?thesis by (auto simp: starved_def answered_def)
qed

theorem bus_collision_starves_witness:
  "rqPhase (reqs (arriveMessage [] demo_answer (registerRequest 7 (registerRequest 7 (bus_start [])))) ! 0) \<noteq> Returned (Inr demo_answer)"
proof -
  let ?b = "registerRequest 7 (registerRequest 7 (bus_start []))"
  have "bus_step\<^sup>*\<^sup>* ?b (arriveMessage [] demo_answer ?b)" by (rule r_into_rtranclp, rule bus_step.arrive)
  then show ?thesis using bus_collision_starves [of "[]" "bus_start []" 7] by (simp add: bus_start_def)
qed

section \<open>Lost subscriptions\<close>

text \<open>What the library does on its own to a connection: paho reconnects with a clean session (its default), so the
  broker forgets the subscriptions; a rebalance ends the one call of sarama's \<^verbatim>\<open>Consume\<close>.\<close>

definition lose_session :: "'h mqtt_bus \<Rightarrow> 'h mqtt_bus" where
  "lose_session b = b\<lparr>mClient := map_option (\<lambda>cl. cl\<lparr>clTopics := []\<rparr>) (mClient b)\<rparr>"

definition rebalance :: "'h kafka_bus \<Rightarrow> 'h kafka_bus" where
  "rebalance b = b\<lparr>kConsumes := None\<rparr>"

text \<open>The operations of a bus short of \<^verbatim>\<open>Stop\<close>, and the changes of the connection. The reply topic is never passed
  to \<^verbatim>\<open>Subscribe\<close>: the component base subscribes the component's own topic only.\<close>

inductive mqtt_op :: "mqtt_cfg \<Rightarrow> 'h mqtt_bus \<Rightarrow> 'h mqtt_bus \<Rightarrow> bool" for c :: mqtt_cfg where
  start: "mqtt_op c b (snd (mqtt_Start c conn b))"
| publish: "mqtt_op c b (snd (mqtt_Publish conn token marshalErr m b))"
| subscribe: "t \<noteq> mReplyTopic c \<Longrightarrow> mqtt_op c b (mqtt_Subscribe t f b)"
| unsubscribe: "mqtt_op c b (mqtt_Unsubscribe t b)"
| disconnect: "mqtt_op c b (b\<lparr>mClient := map_option (\<lambda>cl. cl\<lparr>clConnected := False\<rparr>) (mClient b)\<rparr>)"
| reconnect: "mqtt_op c b (lose_session b)"

inductive kafka_op :: "kafka_cfg \<Rightarrow> 'h kafka_bus \<Rightarrow> 'h kafka_bus \<Rightarrow> bool" for c :: kafka_cfg where
  start: "kafka_op c b (snd (kafka_Start c conn grp b))"
| publish: "kafka_op c b (snd (publishJSON conn outcome marshalErr m b))"
| subscribe: "kafka_op c b (kafka_Subscribe t f b)"
| unsubscribe: "kafka_op c b (kafka_Unsubscribe t b)"
| rebalance: "kafka_op c b (rebalance b)"

definition mqtt_deaf :: "mqtt_cfg \<Rightarrow> 'h mqtt_bus \<Rightarrow> bool" where
  "mqtt_deaf c b \<longleftrightarrow> mRunning b \<and> (\<forall>cl. mClient b = Some cl \<longrightarrow> mReplyTopic c \<notin> set (clTopics cl))"

definition kafka_deaf :: "'h kafka_bus \<Rightarrow> bool" where
  "kafka_deaf b \<longleftrightarrow> kRunning b \<and> kConsumes b = None"

lemma mqtt_deaf_step: "mqtt_op c b b' \<Longrightarrow> mqtt_deaf c b \<Longrightarrow> mqtt_deaf c b'"
proof (induction rule: mqtt_op.induct)
  case (publish b conn token marshalErr m)
  then show ?case by (auto simp: mqtt_deaf_def mqtt_Publish_def getClient_def split: option.splits)
next
  case (subscribe t b f)
  then show ?case by (auto simp: mqtt_deaf_def mqtt_Subscribe_def subscribeClient_def Let_def)
qed (auto simp: mqtt_deaf_def mqtt_Start_def mqtt_Unsubscribe_def lose_session_def Let_def)

lemma kafka_deaf_step: "kafka_op c b b' \<Longrightarrow> kafka_deaf b \<Longrightarrow> kafka_deaf b'"
  by (induction rule: kafka_op.induct)
    (auto simp: kafka_deaf_def kafka_Start_def publishJSON_def getProducer_def kafka_Subscribe_def kafka_Unsubscribe_def
      rebalance_def split: option.splits)

lemma rtranclp_keeps:
  assumes "R\<^sup>*\<^sup>* x y" "P x" "\<And>x y. R x y \<Longrightarrow> P x \<Longrightarrow> P y"
  shows "P y"
  using assms by (induction rule: rtranclp_induct) blast+

text \<open>C40. A bus that loses its subscriptions stays deaf. Once a running MQTT bus has been reconnected, or the consumer of a
  running Kafka bus has been rebalanced, no sequence of starts, publications, subscriptions and further
  changes of the connection brings the reply topic back: the bus goes on as running, and no answer reaches its
  requests until it is stopped.\<close>

theorem bus_stays_deaf:
  "(\<forall>b b'. mRunning b \<and> (mqtt_op mc)\<^sup>*\<^sup>* (lose_session b) b' \<longrightarrow>
      mRunning b' \<and> (\<forall>cl. mClient b' = Some cl \<longrightarrow> mReplyTopic mc \<notin> set (clTopics cl))) \<and>
   (\<forall>b b'. kRunning b \<and> (kafka_op kc)\<^sup>*\<^sup>* (rebalance b) b' \<longrightarrow> kRunning b' \<and> kConsumes b' = None)"
proof (intro conjI allI impI)
  fix b b' :: "'a mqtt_bus"
  assume run: "mRunning b \<and> (mqtt_op mc)\<^sup>*\<^sup>* (lose_session b) b'"
  then have "mqtt_deaf mc (lose_session b)" by (auto simp: mqtt_deaf_def lose_session_def)
  then have "mqtt_deaf mc b'"
    using rtranclp_keeps [of "mqtt_op mc" "lose_session b" b' "mqtt_deaf mc"] run mqtt_deaf_step by blast
  then show "mRunning b'" "\<And>cl. mClient b' = Some cl \<Longrightarrow> mReplyTopic mc \<notin> set (clTopics cl)"
    by (simp_all add: mqtt_deaf_def)
next
  fix b b' :: "'b kafka_bus"
  assume run: "kRunning b \<and> (kafka_op kc)\<^sup>*\<^sup>* (rebalance b) b'"
  then have "kafka_deaf (rebalance b)" by (simp add: kafka_deaf_def rebalance_def)
  then have "kafka_deaf b'"
    using rtranclp_keeps [of "kafka_op kc" "rebalance b" b' kafka_deaf] run kafka_deaf_step by blast
  then show "kRunning b'" "kConsumes b' = None" by (simp_all add: kafka_deaf_def)
qed

definition demo_mqtt :: mqtt_cfg where
  "demo_mqtt = mqtt_New 1 2 ''b'' 0 ''c'' 1 [] [] ''r''"

definition demo_mqtt_bus :: "nat mqtt_bus" where
  "demo_mqtt_bus = snd (mqtt_Start demo_mqtt None \<lparr>mHandlers = [(''t'', 0)], mClient = None, mRunning = False\<rparr>)"

theorem bus_stays_deaf_witness:
  "map_option clTopics (mClient demo_mqtt_bus) = Some [''r'', ''t''] \<and>
   mRunning (snd (mqtt_Start demo_mqtt None (lose_session demo_mqtt_bus))) \<and>
   (\<exists>cl. mClient (snd (mqtt_Start demo_mqtt None (lose_session demo_mqtt_bus))) = Some cl \<and> ''r'' \<notin> set (clTopics cl))"
proof -
  have reply: "mReplyTopic demo_mqtt = ''r''" by (simp add: demo_mqtt_def mqtt_New_def TrimSpace_def is_space_def)
  then have up: "map_option clTopics (mClient demo_mqtt_bus) = Some [''r'', ''t'']" and "mRunning demo_mqtt_bus"
    by (simp_all add: demo_mqtt_bus_def mqtt_Start_def getClient_def subscribeClient_def)
  moreover have "(mqtt_op demo_mqtt)\<^sup>*\<^sup>* (lose_session demo_mqtt_bus) (snd (mqtt_Start demo_mqtt None (lose_session demo_mqtt_bus)))"
    by (rule r_into_rtranclp, rule mqtt_op.start)
  moreover have "\<exists>cl. mClient (snd (mqtt_Start demo_mqtt None (lose_session demo_mqtt_bus))) = Some cl"
    by (simp add: demo_mqtt_bus_def mqtt_Start_def getClient_def lose_session_def)
  ultimately show ?thesis using conjunct1 [OF bus_stays_deaf [of demo_mqtt]] reply by metis
qed

end
