(* ===== verification/Component_Base.thy ===== *)
theory Component_Base
  imports Config
begin

text \<open>
  Packages \<^verbatim>\<open>component\<close> (\<^verbatim>\<open>component/src\<close>) and \<^verbatim>\<open>sdk\<close> (\<^verbatim>\<open>sdk/src/messages.go\<close>), with \<^verbatim>\<open>bus.Respond\<close>: the
  message format, the dispatcher every component runs its handlers under, the client
  side of the security monitor's proxy, and the audit logger. A handler returns an error
  or a possibly nil map.
\<close>

section \<open>Time stamps\<close>

text \<open>
  \<^verbatim>\<open>time.Now().UTC().Format(...)\<close> with the layouts RFC3339 and RFC3339Nano, from the clock in
  nanoseconds since the epoch (years 0 to 9999).
\<close>

definition civil :: "int \<Rightarrow> int \<times> int \<times> int" where
  "civil days =
     (let z = days + 719468; era = z div 146097; doe = z mod 146097;
          yoe = (doe - doe div 1460 + doe div 36524 - doe div 146096) div 365;
          doy = doe - (365 * yoe + yoe div 4 - yoe div 100);
          mp = (5 * doy + 2) div 153;
          d = doy - (153 * mp + 2) div 5 + 1;
          m = (if mp < 10 then mp + 3 else mp - 9);
          y = yoe + era * 400
      in (if m \<le> 2 then y + 1 else y, m, d))"

definition pad :: "nat \<Rightarrow> int \<Rightarrow> string" where
  "pad w n = (let s = Itoa n in replicate (w - length s) (CHR ''0'') @ s)"

definition RFC3339_date :: "int \<Rightarrow> string" where
  "RFC3339_date t =
     (let s = t div 1000000000; (y, m, d) = civil (s div 86400); r = s mod 86400
      in pad 4 y @ ''-'' @ pad 2 m @ ''-'' @ pad 2 d @ ''T'' @
         pad 2 (r div 3600) @ '':'' @ pad 2 (r div 60 mod 60) @ '':'' @ pad 2 (r mod 60))"

definition RFC3339 :: "int \<Rightarrow> string" where
  "RFC3339 t = RFC3339_date t @ ''Z''"

definition RFC3339Nano :: "int \<Rightarrow> string" where
  "RFC3339Nano t =
     (let f = TrimRight (pad 9 (t mod 1000000000)) (CHR ''0'')
      in RFC3339_date t @ (if f = [] then [] else ''.'' @ f) @ ''Z'')"

text \<open>\<open>float64(time.Now().UnixNano()) / 1e9\<close>, the clock in seconds.\<close>

definition seconds :: "int \<Rightarrow> float64" where
  "seconds t = fdiv (float_of_int t) (Fin 1000000000)"

section \<open>sdk/src/messages.go\<close>

record Message =
  msgAction :: string
  msgPayload :: gmap
  msgSender :: string
  msgCorrelationID :: string
  msgReplyTo :: string
  msgTimestamp :: string

text \<open>\<open>now\<close> is the clock read when the time stamp is left empty.\<close>

definition NewMessage ::
    "int \<Rightarrow> string \<Rightarrow> gmap option \<Rightarrow> string \<Rightarrow> string \<Rightarrow> string \<Rightarrow> string \<Rightarrow> Message" where
  "NewMessage now action payload sender cid replyTo ts =
     \<lparr>msgAction = action, msgPayload = nilmap payload, msgSender = sender,
      msgCorrelationID = cid, msgReplyTo = replyTo,
      msgTimestamp = (if ts = [] then RFC3339Nano now else ts)\<rparr>"

definition ToMap :: "Message \<Rightarrow> gmap" where
  "ToMap m =
     [(''action'', GStr (msgAction m)), (''payload'', GMap (msgPayload m)),
      (''sender'', GStr (msgSender m)), (''timestamp'', GStr (msgTimestamp m))] @
     (if msgCorrelationID m \<noteq> [] then [(''correlation_id'', GStr (msgCorrelationID m))] else []) @
     (if msgReplyTo m \<noteq> [] then [(''reply_to'', GStr (msgReplyTo m))] else [])"

definition CreateResponse :: "int \<Rightarrow> string \<Rightarrow> gmap \<Rightarrow> string \<Rightarrow> bool \<Rightarrow> string \<Rightarrow> gmap" where
  "CreateResponse now cid payload sender success errMsg =
     [(''action'', GStr ''response''), (''payload'', GMap payload), (''sender'', GStr sender),
      (''correlation_id'', GStr cid), (''success'', GBool success),
      (''timestamp'', GStr (RFC3339Nano now))] @
     (if errMsg \<noteq> [] then [(''error'', GStr errMsg)] else [])"

section \<open>bus.Respond\<close>

definition errNoReplyTo :: string where
  "errNoReplyTo = ''cannot respond: no reply_to in message''"

definition Respond :: "gmap \<Rightarrow> gmap \<Rightarrow> string \<Rightarrow> bool \<Rightarrow> string \<Rightarrow> ('s, string option) prog" where
  "Respond original payload sender success errMsg =
     (let replyTo = get_str original ''reply_to''; cid = get_str original ''correlation_id''
      in if replyTo = [] then Ret (Some errNoReplyTo)
         else Now (\<lambda>now. Pub replyTo (CreateResponse now cid payload sender success errMsg) Ret))"

section \<open>component/src/component.go\<close>

type_synonym hres = "string + gmap option"
type_synonym 's handler = "gmap \<Rightarrow> ('s, hres) prog"

record BaseComponent =
  bcID :: string
  bcType :: string
  bcTopic :: string

text \<open>The mutable part of \<^verbatim>\<open>BaseComponent\<close>; the state of each component extends it.\<close>

record base_state =
  running :: bool

definition reply :: "gmap \<Rightarrow> ('s, hres) prog" where
  "reply m = Ret (Inr (Some m))"

definition noReply :: "('s, hres) prog" where
  "noReply = Ret (Inr None)"

text \<open>The first lines of every \<^verbatim>\<open>New\<close>: identity, type and topic, and the monitor's topic.\<close>

definition newBase :: "Config \<Rightarrow> string \<Rightarrow> BaseComponent" where
  "newBase cfg ctype =
     \<lparr>bcID = ComponentID cfg, bcType = ctype,
      bcTopic = orElse (ComponentTopic cfg) (BrokerTopicFor cfg ctype)\<rparr>"

definition secTopic :: "host \<Rightarrow> Config \<Rightarrow> string" where
  "secTopic h cfg = orElse (Getenv h ''SECURITY_MONITOR_TOPIC'') (BrokerTopicFor cfg ''security_monitor'')"

definition IsTrustedSender :: "gmap \<Rightarrow> string \<Rightarrow> bool" where
  "IsTrustedSender m expected =
     (let s = get_str m ''sender'' in if s = [] then False else s = expected)"

definition handlePing :: "BaseComponent \<Rightarrow> 's handler" where
  "handlePing c _ = reply [(''pong'', GBool True), (''component_id'', GStr (bcID c))]"

definition handleGetStatus :: "BaseComponent \<Rightarrow> string list \<Rightarrow> 'x base_state_scheme handler" where
  "handleGetStatus c actions _ = readState (\<lambda>s.
     reply [(''component_id'', GStr (bcID c)), (''component_type'', GStr (bcType c)),
            (''topic'', GStr (bcTopic c)), (''running'', GBool (running s)),
            (''handlers'', GStrs actions)])"

text \<open>\<^verbatim>\<open>NewBaseComponent\<close> registers the two built-in handlers, \<^verbatim>\<open>registerHandlers\<close> of the component
  adds its own: the map of handlers as the dispatcher finds it.\<close>

definition registerBuiltinHandlers ::
    "BaseComponent \<Rightarrow> string list \<Rightarrow> (string \<times> 'x base_state_scheme handler) list" where
  "registerBuiltinHandlers c actions =
     put ''get_status'' (handleGetStatus c actions) (put ''ping'' (handlePing c) [])"

definition registered ::
    "BaseComponent \<Rightarrow> (string \<times> 'x base_state_scheme handler) list
      \<Rightarrow> (string \<times> 'x base_state_scheme handler) list" where
  "registered c hs =
     (let actions = map fst (put_all hs (registerBuiltinHandlers c []))
      in put_all hs (registerBuiltinHandlers c actions))"

definition handleMessage ::
    "BaseComponent \<Rightarrow> (string \<times> 's handler) list \<Rightarrow> gmap \<Rightarrow> ('s, unit) prog" where
  "handleMessage c handlers message =
     (let action = get_str message ''action''; replyTo = get_str message ''reply_to'' in
      if action = [] then Ret ()
      else case map_of handlers action of
        None \<Rightarrow>
          if replyTo \<noteq> [] then
            bind (Respond message [(''error'', GStr (''unknown action: '' @ action))] (bcID c) False
                    ''unknown action'') (\<lambda>_. Ret ())
          else Ret ()
      | Some h \<Rightarrow> bind (h message) (\<lambda>r.
          if replyTo = [] then Ret ()
          else case r of
            Inl err \<Rightarrow> bind (Respond message [] (bcID c) False err) (\<lambda>_. Ret ())
          | Inr None \<Rightarrow> Ret ()
          | Inr (Some payload) \<Rightarrow> Now (\<lambda>now.
              Pub replyTo (CreateResponse now (get_str message ''correlation_id'') payload (bcID c) True [])
                (\<lambda>_. Ret ()))))"

definition Request :: "BaseComponent \<Rightarrow> string \<Rightarrow> string \<Rightarrow> gmap \<Rightarrow> float64 \<Rightarrow> ('s, hres) prog" where
  "Request c topic action payload timeoutSec =
     Req topic [(''action'', GStr action), (''payload'', GMap payload), (''sender'', GStr (bcID c))]
       timeoutSec (\<lambda>r. case r of
         Inl e \<Rightarrow> Ret (Inl e)
       | Inr resp \<Rightarrow>
           if \<not> get_bool resp ''success'' then Ret (Inl (''remote error: '' @ get_str resp ''error''))
           else Ret (Inr (get_map resp ''payload'')))"

section \<open>component/src/security\_proxy.go\<close>

record ProxyClient =
  pxSender :: string
  pxMonitor :: string
  pxTimeout :: float64

definition proxy_msg :: "ProxyClient \<Rightarrow> string \<Rightarrow> string \<Rightarrow> string \<Rightarrow> gmap \<Rightarrow> gmap" where
  "proxy_msg p kind topic action data =
     [(''action'', GStr kind), (''sender'', GStr (pxSender p)),
      (''payload'', GMap [(''target'', GMap [(''topic'', GStr topic), (''action'', GStr action)]),
                          (''data'', GMap data)])]"

text \<open>
  The text of the remote error is kept as it is: \<^verbatim>\<open>fmt.Errorf(errText)\<close> differs only for texts
  that contain a formatting verb.
\<close>

definition proxy_answer :: "string + gmap \<Rightarrow> hres" where
  "proxy_answer r =
     (case r of
        Inl e \<Rightarrow> Inl e
      | Inr resp \<Rightarrow> (case get_map resp ''payload'' of
          None \<Rightarrow> Inl ''proxy response payload missing''
        | Some payload \<Rightarrow>
            if get_str payload ''error'' \<noteq> [] then Inl (get_str payload ''error'')
            else (case get_map payload ''target_response'' of
              None \<Rightarrow> Inl ''proxy target_response missing''
            | Some tr \<Rightarrow> Inr (get_map tr ''payload''))))"

definition ProxyRequest :: "ProxyClient \<Rightarrow> string \<Rightarrow> string \<Rightarrow> gmap \<Rightarrow> ('s, hres) prog" where
  "ProxyRequest p topic action data =
     Req (pxMonitor p) (proxy_msg p ''proxy_request'' topic action data) (pxTimeout p)
       (\<lambda>r. Ret (proxy_answer r))"

definition ProxyPublishAsync :: "ProxyClient \<Rightarrow> string \<Rightarrow> string \<Rightarrow> gmap \<Rightarrow> ('s, string option) prog" where
  "ProxyPublishAsync p topic action data =
     Pub (pxMonitor p) (proxy_msg p ''proxy_publish'' topic action data) Ret"

section \<open>component/src/audit\_logger.go and loop.go\<close>

record AuditLogger =
  alProxy :: ProxyClient
  alJournal :: string
  alSource :: string

definition LogEvent :: "AuditLogger \<Rightarrow> string \<Rightarrow> gmap \<Rightarrow> ('s, string option) prog" where
  "LogEvent a event details =
     ProxyPublishAsync (alProxy a) (alJournal a) ''LOG_EVENT''
       [(''event'', GStr event), (''source'', GStr (alSource a)), (''details'', GMap details)]"

text \<open>\<^verbatim>\<open>logToJournal\<close> of the components: the error is only logged.\<close>

definition logToJournal :: "AuditLogger \<Rightarrow> string \<Rightarrow> gmap \<Rightarrow> ('s, unit) prog" where
  "logToJournal a event details = bind (LogEvent a event details) (\<lambda>_. Ret ())"

text \<open>Returns whether to run, and the new value of \<^verbatim>\<open>*last\<close> (here \<open>prev\<close>).\<close>

definition ShouldRunInterval :: "float64 \<Rightarrow> float64 \<Rightarrow> float64 \<Rightarrow> bool \<times> float64" where
  "ShouldRunInterval now prev intervalSec =
     (if flt (fsub now prev) intervalSec then (False, prev) else (True, now))"

section \<open>Lemmas\<close>

declare reply_def [prog_defs] noReply_def [prog_defs]

lemma IsTrustedSender_iff:
  "IsTrustedSender m e \<longleftrightarrow> get_str m ''sender'' = e \<and> e \<noteq> []"
  by (auto simp: IsTrustedSender_def Let_def)

lemma IsTrustedSender_monitor [simp]:
  "get_str m ''sender'' \<noteq> ''security_monitor'' \<Longrightarrow> \<not> IsTrustedSender m ''security_monitor''"
  by (simp add: IsTrustedSender_iff)

lemma CreateResponse_action [simp]: "get_str (CreateResponse now cid pl who ok e) ''action'' = ''response''"
  by (simp add: CreateResponse_def get_str_def)

lemma CreateResponse_sender [simp]: "get_str (CreateResponse now cid pl who ok e) ''sender'' = who"
  by (simp add: CreateResponse_def get_str_def)

lemma sat_reply [simp]: "sat I G Q R (reply m) = R (Inr (Some m))"
  by (simp add: reply_def)

lemma sat_noReply [simp]: "sat I G Q R noReply = R (Inr None)"
  by (simp add: noReply_def)

lemma run_reply [simp]: "run E (reply m) s tr = (Inr (Some m), s, tr)"
  by (simp add: reply_def)

lemma run_noReply [simp]: "run E noReply s tr = (Inr None, s, tr)"
  by (simp add: noReply_def)

lemma bind_reply [simp]: "bind (reply m) f = f (Inr (Some m))"
  by (simp add: reply_def)

lemma bind_noReply [simp]: "bind noReply f = f (Inr None)"
  by (simp add: noReply_def)

lemma sat_ProxyPublishAsync [simp]:
  "sat I G Q R (ProxyPublishAsync p t a d) \<longleftrightarrow>
     Q (pxMonitor p) (proxy_msg p ''proxy_publish'' t a d) \<and> (\<forall>e. R e)"
  by (simp add: ProxyPublishAsync_def)

lemma sat_logToJournal [simp]:
  "sat I G Q R (logToJournal a ev d) \<longleftrightarrow>
     Q (pxMonitor (alProxy a)) (proxy_msg (alProxy a) ''proxy_publish'' (alJournal a) ''LOG_EVENT''
         [(''event'', GStr ev), (''source'', GStr (alSource a)), (''details'', GMap d)]) \<and> R ()"
  by (auto simp: logToJournal_def LogEvent_def ProxyPublishAsync_def)

lemma sat_ProxyRequest:
  "Q (pxMonitor p) (proxy_msg p ''proxy_request'' t a d) \<Longrightarrow> sat I G Q anyResult (ProxyRequest p t a d)"
  by (simp add: ProxyRequest_def)

lemma sat_Respond:
  "(\<And>t now cid. Q t (CreateResponse now cid pl c ok e)) \<Longrightarrow> sat I G Q anyResult (Respond m pl c ok e)"
  by (simp add: Respond_def Let_def)

lemma sat_handleMessage:
  assumes "\<And>a h. (a, h) \<in> set hs \<Longrightarrow> sat I G Q anyResult (h m)"
    and "\<And>t now cid pl ok e. Q t (CreateResponse now cid pl (bcID c) ok e)"
  shows "sat I G Q anyResult (handleMessage c hs m)"
proof (cases "map_of hs (get_str m ''action'')")
  case None
  then show ?thesis
    by (auto simp: handleMessage_def Let_def intro!: sat_bind_any sat_Respond assms(2))
next
  case (Some h)
  then have "sat I G Q anyResult (h m)" by (blast dest: map_of_SomeD intro: assms(1))
  with Some show ?thesis
    by (auto simp: handleMessage_def Let_def assms(2) split: sum.splits option.splits
        intro!: sat_bind_any sat_Respond)
qed

lemma set_put_subset: "set (put k v m) \<subseteq> insert (k, v) (set m)"
  by (induction k v m rule: put.induct) auto

lemma set_put_all_subset: "set (put_all m d) \<subseteq> set m \<union> set d"
  by (induction m d rule: put_all.induct) (use set_put_subset in fastforce)+

lemma registered_cases:
  assumes "(a, h) \<in> set (registered c hs)"
  obtains "(a, h) \<in> set hs" | "h = handlePing c" | acts where "h = handleGetStatus c acts"
  using assms set_put_all_subset
  by (fastforce simp: registered_def registerBuiltinHandlers_def Let_def)

lemma map_of_registered:
  "distinct (map fst hs) \<Longrightarrow> map_of hs a = Some h \<Longrightarrow> map_of (registered c hs) a = Some h"
  by (simp add: registered_def Let_def)

text \<open>
  Every component: the contract of its dispatcher follows from the contracts of its own
  handlers when the contract also covers \<^verbatim>\<open>ping\<close>, \<^verbatim>\<open>get_status\<close> and the responses.
\<close>

lemma sat_registered:
  assumes "\<And>a h m. (a, h) \<in> set hs \<Longrightarrow> sat I G Q anyResult (h m)"
    and "\<And>s. I s \<Longrightarrow> G s s"
    and "\<And>t now cid pl ok e. Q t (CreateResponse now cid pl (bcID c) ok e)"
  shows "sat I G Q anyResult (handleMessage c (registered c hs) m)"
proof (rule sat_handleMessage)
  fix a h assume "(a, h) \<in> set (registered c hs)"
  then show "sat I G Q anyResult (h m)"
    by (cases rule: registered_cases) (auto simp: assms handlePing_def handleGetStatus_def)
qed (rule assms(3))

text \<open>Answering never touches the component's state: the dispatcher leaves what the handler leaves.\<close>

lemma run_Respond_state [simp]:
  "fst (snd (run E (bind (Respond m pl c ok e) (\<lambda>_. Ret ())) s tr)) = s"
  by (simp add: Respond_def Let_def)

lemma final_handleMessage:
  "final E (handleMessage c hs m) s =
     (if get_str m ''action'' = [] then s
      else case map_of hs (get_str m ''action'') of None \<Rightarrow> s | Some h \<Rightarrow> final E (h m) s)"
proof (cases "map_of hs (get_str m ''action'')")
  case None
  then show ?thesis by (simp add: handleMessage_def Let_def final_def)
next
  case (Some h)
  obtain r s' tr where r: "run E (h m) s [] = (r, s', tr)" by (cases "run E (h m) s []") auto
  show ?thesis
  proof (cases r)
    case (Inl e)
    with Some r show ?thesis
      by (simp add: handleMessage_def Let_def final_def run_bind [of E "h m"])
  next
    case (Inr p)
    with Some r show ?thesis
      by (cases p) (simp_all add: handleMessage_def Let_def final_def run_bind [of E "h m"])
  qed
qed

lemma map_of_registered_full:
  assumes "distinct (map fst hs)"
  shows "map_of (registered c hs) a =
    (case map_of hs a of Some h \<Rightarrow> Some h
     | None \<Rightarrow> map_of (registerBuiltinHandlers c (map fst (put_all hs (registerBuiltinHandlers c [])))) a)"
  using assms by (simp add: registered_def Let_def map_add_def split: option.splits)

lemma final_builtin:
  "map_of (registerBuiltinHandlers c acts) a = Some h \<Longrightarrow> final E (h m) s = s"
  by (auto simp: registerBuiltinHandlers_def handlePing_def handleGetStatus_def final_def split: if_splits)

text \<open>What a component's dispatcher does to its state, in terms of its own handlers.\<close>

lemma final_registered:
  assumes "distinct (map fst hs)"
  shows "final E (handleMessage c (registered c hs) m) s =
    (if get_str m ''action'' = [] then s
     else case map_of hs (get_str m ''action'') of None \<Rightarrow> s | Some h \<Rightarrow> final E (h m) s)"
  by (auto simp: final_handleMessage map_of_registered_full [OF assms] final_builtin split: option.splits)

text \<open>
  A component with command handlers that obey only certain senders. Its dispatcher then drops a
  command of anyone else: no state change, no message, not even a reply.
\<close>

locale guarded_component =
  fixes c :: BaseComponent
    and hs :: "(string \<times> 'x base_state_scheme handler) list"
    and commands :: "string set"
    and trusted :: "string set"
  assumes distinct_actions: "distinct (map fst hs)"
    and commands_registered: "commands \<subseteq> fst ` set hs"
    and untrusted: "(a, h) \<in> set hs \<Longrightarrow> a \<in> commands \<Longrightarrow> get_str m ''sender'' \<notin> trusted \<Longrightarrow>
      h m = noReply"
begin

lemma dispatch_drops:
  assumes "get_str m ''action'' \<in> commands" "get_str m ''sender'' \<notin> trusted"
  shows "handleMessage c (registered c hs) m = Ret ()"
proof -
  obtain h where h: "(get_str m ''action'', h) \<in> set hs"
    using assms(1) commands_registered by fastforce
  then have "map_of (registered c hs) (get_str m ''action'') = Some h"
    by (intro map_of_registered distinct_actions) (simp add: distinct_actions)
  then show ?thesis
    using untrusted [OF h assms] by (simp add: handleMessage_def Let_def)
qed

end

text \<open>
  A component whose state moves only by commands: everything else it answers from what it has.
\<close>

locale commanded_component = guarded_component c hs commands trusted
  for c :: BaseComponent and hs :: "(string \<times> 'x base_state_scheme handler) list"
    and commands :: "string set" and trusted :: "string set" +
  assumes readers: "(a, h) \<in> set hs \<Longrightarrow> a \<notin> commands \<Longrightarrow> keeps (\<lambda>s. s) (h m)"
begin

lemma dispatch_inert:
  assumes "get_str m ''action'' \<notin> commands \<or> get_str m ''sender'' \<notin> trusted"
  shows "keeps (\<lambda>s. s) (handleMessage c (registered c hs) m)"
proof (cases "get_str m ''action'' \<in> commands")
  case True
  with assms show ?thesis by (simp add: dispatch_drops)
next
  case False
  have "keeps (\<lambda>s. s) (h m)" if "map_of (registered c hs) (get_str m ''action'') = Some h" for h
  proof -
    from map_of_SomeD [OF that] show ?thesis
      using readers [of "get_str m ''action''" h m] False
      by (cases rule: registered_cases) (auto simp: handlePing_def handleGetStatus_def)
  qed
  then show ?thesis
    by (auto simp: handleMessage_def Let_def split: option.splits sum.splits intro!: sat_bind_any sat_Respond)
qed

end

text \<open>
  The architecture's rule for every component but the monitor: it sends under its own name,
  and apart from replies it sends to the monitor only. A component that keeps it is a
  \<open>proxied_component\<close>.
\<close>

definition via_monitor :: "string \<Rightarrow> string \<Rightarrow> string \<Rightarrow> gmap \<Rightarrow> bool" where
  "via_monitor self mon t m \<longleftrightarrow>
     get_str m ''sender'' = self \<and> (get_str m ''action'' = ''response'' \<or> t = mon)"

lemma via_monitor_response [simp]: "via_monitor self mon t (CreateResponse now cid pl self ok e)"
  by (simp add: via_monitor_def)

lemma via_monitor_proxy [simp]: "pxSender p = self \<Longrightarrow> via_monitor self mon mon (proxy_msg p k t a d)"
  by (simp add: via_monitor_def proxy_msg_def get_str_def)

locale proxied_component = goroutines H s0 I G "via_monitor self mon"
  for H :: "('s, unit) prog set" and s0 :: 's and I :: "'s \<Rightarrow> bool" and G :: "'s \<Rightarrow> 's \<Rightarrow> bool"
    and self :: string and mon :: string
begin

lemma never_bypasses:
  assumes "reachable H s0 s ps tr" "(t, m) \<in> set (sent tr)" "get_str m ''action'' \<noteq> ''response''"
  shows "t = mon \<and> get_str m ''sender'' = self"
  using only_sent [OF assms(1,2)] assms(3) by (simp add: via_monitor_def)

end

section \<open>A sample host and environment\<close>

text \<open>A small environment for witnesses: publishing works, requests time out, the clock stands.\<close>

definition demo_env :: env where
  "demo_env = \<lparr>on_pub = (\<lambda>_ _ _. None), on_req = (\<lambda>_ _ _. Inl ''timeout''), on_now = (\<lambda>_. 5)\<rparr>"

definition demo_host :: host where
  "demo_host = \<lparr>Getenv = (\<lambda>k. if k = ''POLICY_ADMIN_SENDER'' then ''admin'' else []), ParseFloat = (\<lambda>_. None), ScanFloat = (\<lambda>_. None)\<rparr>"

definition demo_libm :: libm where
  "demo_libm = \<lparr>m_sin = (\<lambda>_. Fin 0), m_cos = (\<lambda>_. Fin 1), m_atan2 = (\<lambda>_ _. Fin 0), m_sqrt = (\<lambda>x. x)\<rparr>"

end
