(* ===== verification/Security_Monitor.thy ===== *)
theory Security_Monitor
  imports Component_Base
begin

text \<open>
  Package \<^verbatim>\<open>securitymonitor\<close> (\<^verbatim>\<open>security_monitor/src\<close>): the policy gateway all components talk
  through, with its policy store, isolation mode and heartbeat watchdog.

  The fields set by \<^verbatim>\<open>New\<close> and never written again are a \<open>sm_cfg\<close>; the fields guarded by
  \<^verbatim>\<open>sm.mu\<close> are a \<open>sm_state\<close>. A Go map used as a set of policies is the list of its keys without
  repetition. The clock that a mode transition stamps is read just before the
  critical section, and the journal entry of a transition is published just after it (the code
  does both while it holds the lock): the model allows more interleavings than the code, never
  fewer.
\<close>

section \<open>Data (security\_monitor.go)\<close>

record PolicyKey =
  pkSender :: string
  pkTopic :: string
  pkAction :: string

definition ModeNormal :: string where "ModeNormal = ''NORMAL''"
definition ModeIsolated :: string where "ModeIsolated = ''ISOLATED''"
definition SecurityMonitorComponentID :: string where
  "SecurityMonitorComponentID = ''security_monitor''"

record SafetyState =
  Mode :: string
  Reason :: string
  Source :: string
  TransitionID :: string
  Version :: "64 word"
  ActivatedAt :: int
  LastTransitionAt :: int

record sm_cfg =
  smConfig :: Config
  smBase :: BaseComponent
  policyAdmin :: string
  smJournalTopic :: string
  proxyTimeoutSec :: float64
  heartbeatTimeout :: int
  failsafeAction :: string

record sm_state = base_state +
  policies :: "PolicyKey list"
  normalPolicies :: "PolicyKey list"
  safetyState :: SafetyState
  lastSeenBySender :: "(string \<times> int) list"

section \<open>Policy store (policy\_store.go)\<close>

definition str :: "gval \<Rightarrow> string" where
  "str v = (case v of GStr s \<Rightarrow> s | _ \<Rightarrow> [])"

definition getStr :: "gmap \<Rightarrow> string \<Rightarrow> string" where
  "getStr m k = (case map_of m k of Some v \<Rightarrow> str v | None \<Rightarrow> [])"

definition key :: "string \<Rightarrow> string \<Rightarrow> string \<Rightarrow> PolicyKey" where
  "key s t a = \<lparr>pkSender = s, pkTopic = t, pkAction = a\<rparr>"

definition add_policy :: "string \<Rightarrow> string \<Rightarrow> string \<Rightarrow> PolicyKey list \<Rightarrow> PolicyKey list" where
  "add_policy s t a out =
     (if s \<noteq> [] \<and> t \<noteq> [] \<and> a \<noteq> [] then List.insert (key s t a) out else out)"

fun parse_item :: "gval \<Rightarrow> PolicyKey list \<Rightarrow> PolicyKey list" where
  "parse_item (GMap v) out =
     add_policy (TrimSpace (getStr v ''sender'')) (TrimSpace (getStr v ''topic''))
                (TrimSpace (getStr v ''action'')) out"
| "parse_item (GList v) out =
     (if 3 \<le> length v
      then add_policy (TrimSpace (str (v ! 0))) (TrimSpace (str (v ! 1))) (TrimSpace (str (v ! 2))) out
      else out)"
| "parse_item _ out = out"

definition parse_chunk :: "string \<Rightarrow> PolicyKey list \<Rightarrow> PolicyKey list" where
  "parse_chunk chunk out =
     (let parts = Split chunk (CHR '','')
      in if length parts \<noteq> 3 then out
         else add_policy (TrimSpace (parts ! 0)) (TrimSpace (parts ! 1)) (TrimSpace (parts ! 2)) out)"

text \<open>\<open>json\<close> is \<^verbatim>\<open>json.Unmarshal\<close> into a slice: \<^const>\<open>None\<close> when the text is not a JSON array.\<close>

definition parsePolicies :: "(string \<Rightarrow> gval list option) \<Rightarrow> string \<Rightarrow> PolicyKey list" where
  "parsePolicies json raw =
     (let raw = TrimSpace raw in
      if raw = [] then []
      else case json raw of
        Some items \<Rightarrow> fold parse_item items []
      | None \<Rightarrow> fold parse_chunk (Split raw (CHR '';'')) [])"

definition clonePolicyMap :: "PolicyKey list \<Rightarrow> PolicyKey list" where
  "clonePolicyMap src = fold List.insert src []"

definition allowed :: "sm_state \<Rightarrow> string \<Rightarrow> string \<Rightarrow> string \<Rightarrow> bool" where
  "allowed s sender topic action \<longleftrightarrow> key sender topic action \<in> set (policies s)"

definition canManagePolicies :: "sm_cfg \<Rightarrow> string \<Rightarrow> bool" where
  "canManagePolicies c sender \<longleftrightarrow> policyAdmin c \<noteq> [] \<and> sender = policyAdmin c"

definition setPolicy :: "PolicyKey \<Rightarrow> sm_state \<Rightarrow> sm_state" where
  "setPolicy k s =
     (let s1 = s\<lparr>normalPolicies := List.insert k (normalPolicies s)\<rparr>
      in if Mode (safetyState s) = ModeNormal then s1\<lparr>policies := List.insert k (policies s)\<rparr> else s1)"

definition removePolicy :: "PolicyKey \<Rightarrow> sm_state \<Rightarrow> sm_state" where
  "removePolicy k s =
     (let s1 = s\<lparr>normalPolicies := removeAll k (normalPolicies s)\<rparr>
      in if Mode (safetyState s) = ModeNormal then s1\<lparr>policies := removeAll k (policies s)\<rparr> else s1)"

definition clearPolicies :: "sm_state \<Rightarrow> sm_state" where
  "clearPolicies s =
     (let s1 = s\<lparr>normalPolicies := []\<rparr>
      in if Mode (safetyState s) = ModeNormal then s1\<lparr>policies := []\<rparr> else s1)"

definition policy_val :: "string \<Rightarrow> string \<Rightarrow> string \<Rightarrow> (string \<times> string) list" where
  "policy_val s t a = [(''sender'', s), (''topic'', t), (''action'', a)]"

definition handleSetPolicy :: "sm_cfg \<Rightarrow> sm_state handler" where
  "handleSetPolicy c m =
     (if \<not> canManagePolicies c (get_str m ''sender'') then
        reply [(''updated'', GBool False), (''error'', GStr ''forbidden'')]
      else case get_map m ''payload'' of
        None \<Rightarrow> reply [(''updated'', GBool False), (''error'', GStr ''invalid_policy'')]
      | Some payload \<Rightarrow>
          let s = TrimSpace (getStr payload ''sender''); t = TrimSpace (getStr payload ''topic'');
              a = TrimSpace (getStr payload ''action'')
          in if s = [] \<or> t = [] \<or> a = [] then
               reply [(''updated'', GBool False), (''error'', GStr ''invalid_policy'')]
             else modify (setPolicy (key s t a))
               (reply [(''updated'', GBool True), (''policy'', GStrMap (policy_val s t a))]))"

definition handleRemovePolicy :: "sm_cfg \<Rightarrow> sm_state handler" where
  "handleRemovePolicy c m =
     (if \<not> canManagePolicies c (get_str m ''sender'') then
        reply [(''removed'', GBool False), (''error'', GStr ''forbidden'')]
      else case get_map m ''payload'' of
        None \<Rightarrow> reply [(''removed'', GBool False), (''error'', GStr ''invalid_policy'')]
      | Some payload \<Rightarrow>
          let s = TrimSpace (getStr payload ''sender''); t = TrimSpace (getStr payload ''topic'');
              a = TrimSpace (getStr payload ''action'')
          in if s = [] \<or> t = [] \<or> a = [] then
               reply [(''removed'', GBool False), (''error'', GStr ''invalid_policy'')]
             else Atom (removePolicy (key s t a)) (\<lambda>old.
               reply [(''removed'', GBool (key s t a \<in> set (normalPolicies old))),
                      (''policy'', GStrMap (policy_val s t a))]))"

definition handleClearPolicies :: "sm_cfg \<Rightarrow> sm_state handler" where
  "handleClearPolicies c m =
     (if \<not> canManagePolicies c (get_str m ''sender'') then
        reply [(''cleared'', GBool False), (''error'', GStr ''forbidden'')]
      else Atom clearPolicies (\<lambda>old.
        reply [(''cleared'', GBool True), (''removed_count'', GInt (of_nat (length (normalPolicies old))))]))"

definition handleListPolicies :: "sm_cfg \<Rightarrow> sm_state handler" where
  "handleListPolicies c _ = readState (\<lambda>s.
     let src = (if Mode (safetyState s) = ModeIsolated then policies s else normalPolicies s);
         lst = map (\<lambda>k. policy_val (pkSender k) (pkTopic k) (pkAction k)) src
     in reply [(''policy_admin_sender'', GStr (policyAdmin c)), (''mode'', GStr (Mode (safetyState s))),
               (''count'', GInt (of_nat (length lst))), (''policies'', GStrMaps lst)])"

section \<open>Isolation (isolation.go)\<close>

definition emergencyPolicies :: "sm_cfg \<Rightarrow> PolicyKey list" where
  "emergencyPolicies c =
     (let t = BrokerTopicFor (smConfig c) in
      [key ''emergency'' (t ''navigation'') ''get_state'',
       key ''emergency'' (t ''motors'') ''LAND'',
       key ''emergency'' (t ''cargo'') ''CLOSE'',
       key ''emergency'' (t ''journal'') ''LOG_EVENT'',
       key ''emergency'' (t ''security_monitor'') ''isolation_status'',
       key ''emergency'' (t ''security_monitor'') ''ISOLATION_END''])"

definition transition_id :: "int \<Rightarrow> string" where
  "transition_id now = ''safety-'' @ Itoa now"

definition enterIsolatedLocked ::
    "sm_cfg \<Rightarrow> int \<Rightarrow> string \<Rightarrow> string \<Rightarrow> sm_state \<Rightarrow> bool \<times> sm_state" where
  "enterIsolatedLocked c now reason src s =
     (if Mode (safetyState s) = ModeIsolated then (False, s)
      else (True, s\<lparr>policies := emergencyPolicies c,
        safetyState := (safetyState s)\<lparr>Mode := ModeIsolated, Reason := reason, Source := src,
          Version := Version (safetyState s) + 1, TransitionID := transition_id now,
          ActivatedAt := now, LastTransitionAt := now\<rparr>\<rparr>))"

definition enterNormalLocked ::
    "int \<Rightarrow> string \<Rightarrow> string \<Rightarrow> sm_state \<Rightarrow> bool \<times> sm_state" where
  "enterNormalLocked now reason src s =
     (if Mode (safetyState s) = ModeNormal then (False, s)
      else (True, s\<lparr>policies := clonePolicyMap (normalPolicies s),
        safetyState := (safetyState s)\<lparr>Mode := ModeNormal, Reason := reason, Source := src,
          Version := Version (safetyState s) + 1, TransitionID := transition_id now,
          LastTransitionAt := now\<rparr>\<rparr>))"

definition logModeTransitionLocked :: "sm_cfg \<Rightarrow> SafetyState \<Rightarrow> (sm_state, unit) prog" where
  "logModeTransitionLocked c st =
     Pub (smJournalTopic c)
       [(''action'', GStr ''LOG_EVENT''), (''sender'', GStr (bcID (smBase c))),
        (''payload'', GMap [(''event'', GStr ''SECURITY_MONITOR_MODE_TRANSITION''),
           (''source'', GStr ''security_monitor''),
           (''details'', GMap [(''mode'', GStr (Mode st)), (''reason'', GStr (Reason st)),
              (''transition_id'', GStr (TransitionID st)),
              (''transition_at'', GStr (RFC3339Nano (LastTransitionAt st))),
              (''state_version'', GInt64 (Version st)), (''trigger_source'', GStr (Source st))])])]
       (\<lambda>_. Ret ())"

definition payload_reason :: "gmap \<Rightarrow> string \<Rightarrow> string" where
  "payload_reason m dflt =
     (case get_map m ''payload'' of None \<Rightarrow> dflt | Some p \<Rightarrow> orElse (get_str p ''reason'') dflt)"

definition handleIsolationStart :: "sm_cfg \<Rightarrow> sm_state handler" where
  "handleIsolationStart c m =
     (let sender = get_str m ''sender'' in
      if sender = [] then reply [(''activated'', GBool False), (''error'', GStr ''forbidden'')]
      else if sender \<noteq> ''emergency'' \<and> \<not> canManagePolicies c sender then
        reply [(''activated'', GBool False), (''error'', GStr ''forbidden'')]
      else let reason = payload_reason m ''manual_isolation'' in
        Now (\<lambda>now. Atom (\<lambda>s. snd (enterIsolatedLocked c now reason sender s)) (\<lambda>old.
          let (changed, new) = enterIsolatedLocked c now reason sender old; st = safetyState new
          in andThen (if changed then logModeTransitionLocked c st else Ret ())
               (reply [(''activated'', GBool True), (''already_active'', GBool (\<not> changed)),
                  (''mode'', GStr (Mode st)), (''reason'', GStr (Reason st)),
                  (''transition_id'', GStr (TransitionID st)), (''state_version'', GInt64 (Version st))]))))"

definition handleIsolationEnd :: "sm_cfg \<Rightarrow> sm_state handler" where
  "handleIsolationEnd c m =
     (let sender = get_str m ''sender'' in
      if sender = [] then reply [(''deactivated'', GBool False), (''error'', GStr ''forbidden'')]
      else if sender \<noteq> ''emergency'' \<and> \<not> canManagePolicies c sender then
        reply [(''deactivated'', GBool False), (''error'', GStr ''forbidden'')]
      else let reason = payload_reason m ''manual_recovery'' in
        Now (\<lambda>now. Atom (\<lambda>s. snd (enterNormalLocked now reason sender s)) (\<lambda>old.
          let (changed, new) = enterNormalLocked now reason sender old; st = safetyState new
          in andThen (if changed then logModeTransitionLocked c st else Ret ())
               (reply [(''deactivated'', GBool True), (''already_normal'', GBool (\<not> changed)),
                  (''mode'', GStr (Mode st)), (''reason'', GStr (Reason st)),
                  (''transition_id'', GStr (TransitionID st)), (''state_version'', GInt64 (Version st)),
                  (''restored_policies'', GInt (of_nat (length (normalPolicies new))))]))))"

definition recordSenderSeen :: "string \<Rightarrow> (sm_state, unit) prog" where
  "recordSenderSeen sender =
     (let sender = TrimSpace sender in
      if sender = [] then Ret ()
      else Now (\<lambda>now. modify (\<lambda>s. s\<lparr>lastSeenBySender := put sender now (lastSeenBySender s)\<rparr>) (Ret ())))"

definition handleSafetyHeartbeat :: "sm_state handler" where
  "handleSafetyHeartbeat m =
     (let sender = get_str m ''sender'' in
      if sender \<noteq> ''limiter'' \<and> sender \<noteq> ''emergency'' then
        reply [(''ok'', GBool False), (''error'', GStr ''forbidden'')]
      else andThen (recordSenderSeen sender) (reply [(''ok'', GBool True), (''sender'', GStr sender)]))"

definition handleIsolationStatus :: "sm_state handler" where
  "handleIsolationStatus _ = readState (\<lambda>s. let st = safetyState s in
     reply [(''mode'', GStr (Mode st)), (''reason'', GStr (Reason st)), (''source'', GStr (Source st)),
       (''transition_id'', GStr (TransitionID st)), (''state_version'', GInt64 (Version st)),
       (''activated_at'', GStr (RFC3339Nano (ActivatedAt st))),
       (''last_transition_at'', GStr (RFC3339Nano (LastTransitionAt st)))])"

section \<open>The proxy (proxy\_handlers.go)\<close>

definition extractTarget :: "gmap \<Rightarrow> string \<times> string \<times> gmap" where
  "extractTarget payload =
     (case get_map payload ''target'' of
        None \<Rightarrow> ([], [], [])
      | Some target \<Rightarrow> (TrimSpace (getStr target ''topic''), TrimSpace (getStr target ''action''),
                        nilmap (get_map payload ''data'')))"

definition proxy_sender :: "gmap \<Rightarrow> string" where
  "proxy_sender m = orElse (get_str m ''sender'') ''unknown''"

definition forward_msg :: "sm_cfg \<Rightarrow> string \<Rightarrow> gmap \<Rightarrow> gmap" where
  "forward_msg c action data =
     [(''action'', GStr action), (''sender'', GStr (bcID (smBase c))), (''payload'', GMap data)]"

definition handleProxyRequest :: "sm_cfg \<Rightarrow> sm_state handler" where
  "handleProxyRequest c m =
     (let sender = proxy_sender m in
      andThen (recordSenderSeen sender)
       (case get_map m ''payload'' of
          None \<Rightarrow> reply [(''error'', GStr ''invalid_payload'')]
        | Some payload \<Rightarrow>
            let (topic, action, data) = extractTarget payload in
            if topic = [] \<or> action = [] then reply [(''error'', GStr ''invalid_target'')]
            else readState (\<lambda>s.
              if \<not> allowed s sender topic action then reply [(''error'', GStr ''forbidden'')]
              else Req topic (forward_msg c action data) (proxyTimeoutSec c) (\<lambda>r. case r of
                Inl err \<Rightarrow> reply [(''error'', GStr err)]
              | Inr resp \<Rightarrow> reply [(''target_topic'', GStr topic), (''target_action'', GStr action),
                                  (''target_response'', GMap resp)]))))"

definition handleProxyPublish :: "sm_cfg \<Rightarrow> sm_state handler" where
  "handleProxyPublish c m =
     (let sender = proxy_sender m in
      andThen (recordSenderSeen sender)
       (case get_map m ''payload'' of
          None \<Rightarrow> reply [(''published'', GBool False), (''error'', GStr ''invalid_payload'')]
        | Some payload \<Rightarrow>
            let (topic, action, data) = extractTarget payload in
            if topic = [] \<or> action = [] then
              reply [(''published'', GBool False), (''error'', GStr ''invalid_target'')]
            else readState (\<lambda>s.
              if \<not> allowed s sender topic action then
                reply [(''published'', GBool False), (''error'', GStr ''forbidden'')]
              else Pub topic (forward_msg c action data) (\<lambda>e. case e of
                Some err \<Rightarrow> reply [(''published'', GBool False), (''error'', GStr err)]
              | None \<Rightarrow> reply [(''published'', GBool True)]))))"

section \<open>Watchdog and construction (security\_monitor.go)\<close>

text \<open>The first supervised sender that was never seen or not seen for too long.\<close>

definition staleSender :: "sm_cfg \<Rightarrow> int \<Rightarrow> sm_state \<Rightarrow> string option" where
  "staleSender c now s =
     find (\<lambda>snd. case map_of (lastSeenBySender s) snd of
                   None \<Rightarrow> True | Some t \<Rightarrow> heartbeatTimeout c < now - t)
       [''limiter'', ''emergency'']"

definition heartbeatTransition :: "sm_cfg \<Rightarrow> int \<Rightarrow> int \<Rightarrow> sm_state \<Rightarrow> bool \<times> sm_state" where
  "heartbeatTransition c now now' s =
     (if Mode (safetyState s) = ModeIsolated \<or> failsafeAction c \<noteq> ''isolate'' then (False, s)
      else case staleSender c now s of
        None \<Rightarrow> (False, s)
      | Some sender \<Rightarrow>
          enterIsolatedLocked c now' (''heartbeat_timeout:'' @ sender) SecurityMonitorComponentID s)"

definition checkHeartbeatTimeout :: "sm_cfg \<Rightarrow> (sm_state, unit) prog" where
  "checkHeartbeatTimeout c =
     (if heartbeatTimeout c \<le> 0 then Ret ()
      else Now (\<lambda>now. Now (\<lambda>now'.
        Atom (\<lambda>s. snd (heartbeatTransition c now now' s)) (\<lambda>old.
          let (changed, new) = heartbeatTransition c now now' old
          in if changed then logModeTransitionLocked c (safetyState new) else Ret ()))))"

definition sm_registerHandlers :: "sm_cfg \<Rightarrow> (string \<times> sm_state handler) list" where
  "sm_registerHandlers c =
     [(''proxy_request'', handleProxyRequest c), (''proxy_publish'', handleProxyPublish c),
      (''set_policy'', handleSetPolicy c), (''remove_policy'', handleRemovePolicy c),
      (''clear_policies'', handleClearPolicies c), (''list_policies'', handleListPolicies c),
      (''ISOLATION_START'', handleIsolationStart c), (''ISOLATION_END'', handleIsolationEnd c),
      (''isolation_status'', handleIsolationStatus), (''safety_heartbeat'', handleSafetyHeartbeat)]"

definition newInitialSafetyState :: "int \<Rightarrow> SafetyState" where
  "newInitialSafetyState now =
     \<lparr>Mode = ModeNormal, Reason = ''startup'', Source = SecurityMonitorComponentID,
      TransitionID = transition_id now, Version = 1, ActivatedAt = now, LastTransitionAt = now\<rparr>"

definition expandPolicies :: "host \<Rightarrow> Config \<Rightarrow> string" where
  "expandPolicies h cfg =
     (let pre = TopicPrefix cfg;
          orvd = orElse (TrimSpace (Getenv h ''ORVD_TOPIC'')) (TrimSpace (Getenv h ''ORVD_EXTERNAL_TOPIC''));
          dp = orElse (TrimSpace (Getenv h ''DRONEPORT_TOPIC'')) (TrimSpace (Getenv h ''DRONEPORT_EXTERNAL_TOPIC''));
          orch = orElse (TrimSpace (Getenv h ''DRONEPORT_ORCHESTRATOR_TOPIC'')) ''v1.drone_port.1.orchestrator'';
          r0 = Getenv h ''SECURITY_POLICIES'';
          r1 = ReplaceAll r0 ''${TOPIC_PREFIX}'' pre;
          r2 = ReplaceAll r1 ''${SYSTEM_NAME}'' pre;
          r3 = ReplaceAll r2 ''$${SYSTEM_NAME}'' pre;
          r4 = ReplaceAll r3 ''$SYSTEM_NAME'' pre;
          r5 = ReplaceAll r4 ''${ORVD_TOPIC}'' orvd;
          r6 = ReplaceAll r5 ''${DRONEPORT_TOPIC}'' dp
      in ReplaceAll r6 ''${DRONEPORT_ORCHESTRATOR_TOPIC}'' orch)"

text \<open>\<open>time.Duration(x * float64(time.Second))\<close>, in nanoseconds.\<close>

definition duration_of :: "float64 \<Rightarrow> int" where
  "duration_of x = trunc64 (fmul x (Fin 1000000000))"

definition New_sm :: "host \<Rightarrow> (string \<Rightarrow> gval list option) \<Rightarrow> Config \<Rightarrow> int \<Rightarrow> sm_cfg \<times> sm_state" where
  "New_sm h json cfg now =
     (let initial = parsePolicies json (expandPolicies h cfg) in
      (\<lparr>smConfig = cfg,
        smBase = \<lparr>bcID = SecurityMonitorComponentID, bcType = ''security_monitor'',
                  bcTopic = orElse (ComponentTopic cfg) (BrokerTopicFor cfg ''security_monitor'')\<rparr>,
        policyAdmin = TrimSpace (Getenv h ''POLICY_ADMIN_SENDER''),
        smJournalTopic = BrokerTopicFor cfg ''journal'',
        proxyTimeoutSec = env_float h ''SECURITY_MONITOR_PROXY_REQUEST_TIMEOUT_S''
                            (\<lambda>v. fge v (round64 (1/10))) (Fin 10),
        heartbeatTimeout = duration_of (env_float h ''SECURITY_MONITOR_HEARTBEAT_TIMEOUT_S'' positive (Fin 0)),
        failsafeAction = orElse (ToLower (TrimSpace (Getenv h ''SECURITY_MONITOR_FAILSAFE_ACTION''))) ''isolate''\<rparr>,
       \<lparr>running = False,
        policies = clonePolicyMap initial, normalPolicies = clonePolicyMap initial,
        safetyState = newInitialSafetyState now, lastSeenBySender = []\<rparr>))"

text \<open>Everything that runs in the monitor's process: a handler call per message, watchdog ticks.\<close>

definition sm_threads :: "sm_cfg \<Rightarrow> (sm_state, unit) prog set" where
  "sm_threads c =
     range (handleMessage (smBase c) (registered (smBase c) (sm_registerHandlers c)))
       \<union> {checkHeartbeatTimeout c}"

section \<open>Invariant, guarantee, output\<close>

definition sm_inv :: "sm_cfg \<Rightarrow> sm_state \<Rightarrow> bool" where
  "sm_inv c s \<longleftrightarrow>
     (Mode (safetyState s) = ModeNormal \<or> Mode (safetyState s) = ModeIsolated) \<and>
     (Mode (safetyState s) = ModeIsolated \<longrightarrow> policies s = emergencyPolicies c) \<and>
     (Mode (safetyState s) = ModeNormal \<longrightarrow> set (policies s) = set (normalPolicies s)) \<and>
     distinct (policies s) \<and> distinct (normalPolicies s)"

text \<open>The safety state moves only together with its mode, and then counts one version up.\<close>

definition sm_guar :: "sm_state \<Rightarrow> sm_state \<Rightarrow> bool" where
  "sm_guar s s' \<longleftrightarrow>
     (if Mode (safetyState s') = Mode (safetyState s) then safetyState s' = safetyState s
      else Version (safetyState s') = Version (safetyState s) + 1)"

text \<open>Whatever the monitor sends, it sends under its own name.\<close>

definition sm_out :: "sm_cfg \<Rightarrow> string \<Rightarrow> gmap \<Rightarrow> bool" where
  "sm_out c t m \<longleftrightarrow> get_str m ''sender'' = bcID (smBase c)"

lemma key_eq [simp]: "key s t a = key s' t' a' \<longleftrightarrow> s = s' \<and> t = t' \<and> a = a'"
  by (simp add: key_def)

lemma key_sel [simp]: "pkSender (key s t a) = s" "pkTopic (key s t a) = t" "pkAction (key s t a) = a"
  by (simp_all add: key_def)

lemma modes_distinct [simp]: "ModeNormal \<noteq> ModeIsolated" "ModeIsolated \<noteq> ModeNormal"
  by (simp_all add: ModeNormal_def ModeIsolated_def)

lemma distinct_emergencyPolicies [simp]: "distinct (emergencyPolicies c)"
  by (simp add: emergencyPolicies_def Let_def)

lemma set_fold_insert: "set (fold List.insert xs ys) = set xs \<union> set ys"
  by (induction xs arbitrary: ys) auto

lemma distinct_fold_insert: "distinct ys \<Longrightarrow> distinct (fold List.insert xs ys)"
  by (induction xs arbitrary: ys) auto

lemma clonePolicyMap_set [simp]: "set (clonePolicyMap ps) = set ps"
  by (simp add: clonePolicyMap_def set_fold_insert)

lemma clonePolicyMap_distinct [simp]: "distinct (clonePolicyMap ps)"
  by (simp add: clonePolicyMap_def distinct_fold_insert)

lemma sm_guar_refl [simp]: "sm_guar s s"
  by (simp add: sm_guar_def)

lemma setPolicy_inv: "sm_inv c s \<Longrightarrow> sm_inv c (setPolicy k s) \<and> sm_guar s (setPolicy k s)"
  by (auto simp: sm_inv_def sm_guar_def setPolicy_def Let_def)

lemma removePolicy_inv: "sm_inv c s \<Longrightarrow> sm_inv c (removePolicy k s) \<and> sm_guar s (removePolicy k s)"
  by (auto simp: sm_inv_def sm_guar_def removePolicy_def Let_def distinct_removeAll)

lemma clearPolicies_inv: "sm_inv c s \<Longrightarrow> sm_inv c (clearPolicies s) \<and> sm_guar s (clearPolicies s)"
  by (auto simp: sm_inv_def sm_guar_def clearPolicies_def Let_def)

lemma enterIsolatedLocked_inv:
  "sm_inv c s \<Longrightarrow> sm_inv c (snd (enterIsolatedLocked c now r src s)) \<and>
     sm_guar s (snd (enterIsolatedLocked c now r src s))"
  by (auto simp: sm_inv_def sm_guar_def enterIsolatedLocked_def)

lemma enterNormalLocked_inv:
  "sm_inv c s \<Longrightarrow> sm_inv c (snd (enterNormalLocked now r src s)) \<and>
     sm_guar s (snd (enterNormalLocked now r src s))"
  by (auto simp: sm_inv_def sm_guar_def enterNormalLocked_def)

lemma heartbeatTransition_inv:
  "sm_inv c s \<Longrightarrow> sm_inv c (snd (heartbeatTransition c n n' s)) \<and>
     sm_guar s (snd (heartbeatTransition c n n' s))"
  by (auto simp: heartbeatTransition_def enterIsolatedLocked_inv split: option.splits)

lemma lastSeen_inv:
  "sm_inv c s \<Longrightarrow> sm_inv c (s\<lparr>lastSeenBySender := x\<rparr>) \<and> sm_guar s (s\<lparr>lastSeenBySender := x\<rparr>)"
  by (simp add: sm_inv_def sm_guar_def)

lemmas sm_steps = setPolicy_inv removePolicy_inv clearPolicies_inv enterIsolatedLocked_inv
  enterNormalLocked_inv heartbeatTransition_inv lastSeen_inv

abbreviation sm_sat :: "sm_cfg \<Rightarrow> (sm_state, 'a) prog \<Rightarrow> bool" where
  "sm_sat c p \<equiv> sat (sm_inv c) sm_guar (sm_out c) anyResult p"

lemma sm_out_response [simp]: "sm_out c t (CreateResponse n i p (bcID (smBase c)) ok e)"
  by (simp add: sm_out_def CreateResponse_def get_str_def)

lemma sm_out_forward [simp]: "sm_out c t (forward_msg c a d)"
  by (simp add: sm_out_def forward_msg_def get_str_def)

lemma sm_sat_log [simp]: "sm_sat c (logModeTransitionLocked c st)"
  by (simp add: logModeTransitionLocked_def sm_out_def get_str_def)

lemma sm_sat_recordSenderSeen [simp]: "sm_sat c (recordSenderSeen sender)"
  by (simp add: recordSenderSeen_def Let_def sm_steps)

lemma sm_sat_handlers:
  "sm_sat c (handleProxyRequest c m)" "sm_sat c (handleProxyPublish c m)"
  "sm_sat c (handleSetPolicy c m)" "sm_sat c (handleRemovePolicy c m)"
  "sm_sat c (handleClearPolicies c m)" "sm_sat c (handleListPolicies c m)"
  "sm_sat c (handleIsolationStart c m)" "sm_sat c (handleIsolationEnd c m)"
  "sm_sat c (handleIsolationStatus m)" "sm_sat c (handleSafetyHeartbeat m)"
  by (auto simp: handleProxyRequest_def handleProxyPublish_def handleSetPolicy_def
      handleRemovePolicy_def handleClearPolicies_def handleListPolicies_def handleIsolationStart_def
      handleIsolationEnd_def handleIsolationStatus_def handleSafetyHeartbeat_def Let_def sm_steps
      split: option.splits sum.splits prod.splits intro!: sat_andThen)

lemma sm_sat_watchdog: "sm_sat c (checkHeartbeatTimeout c)"
  by (simp add: checkHeartbeatTimeout_def sm_steps split: prod.splits)

lemma sm_sat_dispatch: "sm_sat c (handleMessage (smBase c) (registered (smBase c) (sm_registerHandlers c)) m)"
  by (rule sat_registered) (auto simp: sm_registerHandlers_def sm_sat_handlers)

text \<open>The monitor obeys its contract from every initial state that satisfies the invariant.\<close>

lemma sm_threads_sat: "p \<in> sm_threads c \<Longrightarrow> sm_sat c p"
  by (auto simp: sm_threads_def sm_sat_dispatch sm_sat_watchdog)

lemma New_sm_inv: "sm_inv (fst (New_sm h json cfg now)) (snd (New_sm h json cfg now))"
  by (simp add: New_sm_def Let_def sm_inv_def newInitialSafetyState_def)

interpretation monitor: goroutines "sm_threads (fst (New_sm h json cfg now))"
    "snd (New_sm h json cfg now)" "sm_inv (fst (New_sm h json cfg now))" sm_guar
    "sm_out (fst (New_sm h json cfg now))" for h json cfg now
  by unfold_locales (auto simp: New_sm_inv sm_threads_sat)

section \<open>Properties\<close>

definition demo_cfg :: sm_cfg where
  "demo_cfg = fst (New_sm demo_host (\<lambda>_. None) (FromEnv demo_host) 1)"

definition demo_sm :: sm_state where
  "demo_sm = snd (New_sm demo_host (\<lambda>_. None) (FromEnv demo_host) 1)"

text \<open>C3. In every state the monitor can reach from its start-up, under any interleaving of
  handler calls for arbitrary messages and watchdog ticks, the mode is NORMAL or ISOLATED; while
  ISOLATED the table consulted by the proxy is exactly the fixed emergency table, and while
  NORMAL it holds exactly the configured policies.\<close>

theorem monitor_policy_invariant:
  assumes "(c, s0) = New_sm h json cfg now" and "reachable (sm_threads c) s0 s ps tr"
  shows "Mode (safetyState s) = ModeNormal \<and> set (policies s) = set (normalPolicies s) \<or>
         Mode (safetyState s) = ModeIsolated \<and> policies s = emergencyPolicies c"
proof -
  from assms(1) have eqs: "c = fst (New_sm h json cfg now)" "s0 = snd (New_sm h json cfg now)"
    by (metis fst_conv) (metis assms(1) snd_conv)
  with assms(2) have "sm_inv c s" using monitor.invariant [of h json cfg now s ps tr] by simp
  then show ?thesis by (auto simp: sm_inv_def)
qed

definition demo_isolate :: gmap where
  "demo_isolate = [(''action'', GStr ''ISOLATION_START''), (''sender'', GStr ''emergency'')]"

definition demo_isolated :: sm_state where
  "demo_isolated = final demo_env (handleIsolationStart demo_cfg demo_isolate) demo_sm"

lemma demo_isolated_mode: "Mode (safetyState demo_isolated) = ModeIsolated"
  by (simp add: demo_isolated_def demo_isolate_def handleIsolationStart_def final_def get_str_def
      Let_def enterIsolatedLocked_def demo_env_def demo_sm_def New_sm_def newInitialSafetyState_def
      logModeTransitionLocked_def)

definition demo_dispatch :: "gmap \<Rightarrow> (sm_state, unit) prog" where
  "demo_dispatch = handleMessage (smBase demo_cfg) (registered (smBase demo_cfg) (sm_registerHandlers demo_cfg))"

lemma demo_dispatch_thread [simp]: "demo_dispatch m \<in> sm_threads demo_cfg"
  by (simp add: demo_dispatch_def sm_threads_def)

lemma demo_dispatch_isolate:
  "demo_dispatch demo_isolate = bind (handleIsolationStart demo_cfg demo_isolate) (\<lambda>_. Ret ())"
proof -
  have "map_of (registered (smBase demo_cfg) (sm_registerHandlers demo_cfg)) ''ISOLATION_START'' =
      Some (handleIsolationStart demo_cfg)"
    by (rule map_of_registered) (simp_all add: sm_registerHandlers_def)
  then show ?thesis
    by (simp add: demo_dispatch_def handleMessage_def demo_isolate_def get_str_def)
qed

lemma demo_New: "(demo_cfg, demo_sm) = New_sm demo_host (\<lambda>_. None) (FromEnv demo_host) 1"
  by (simp add: demo_cfg_def demo_sm_def)

theorem monitor_policy_invariant_witness:
  "Mode (safetyState demo_isolated) = ModeIsolated \<and> policies demo_isolated = emergencyPolicies demo_cfg"
proof -
  have "final demo_env (demo_dispatch demo_isolate) demo_sm = demo_isolated"
    by (simp add: demo_isolated_def final_def demo_dispatch_isolate run_bind split: prod.splits)
  with monitor_policy_invariant [OF demo_New final_reachable [OF demo_dispatch_thread]]
  show ?thesis using demo_isolated_mode by (metis modes_distinct(1))
qed

text \<open>Whatever messages arrive and however handlers and watchdog interleave, every message the
  monitor puts on the bus carries its own identity as sender: a client cannot make it forward a
  message under another name.\<close>

theorem monitor_sends_own_name:
  assumes "(c, s0) = New_sm h json cfg now" and "reachable (sm_threads c) s0 s ps tr"
    and "(t, m) \<in> set (sent tr)"
  shows "get_str m ''sender'' = ''security_monitor''"
proof -
  from assms(1) have eqs: "c = fst (New_sm h json cfg now)" "s0 = snd (New_sm h json cfg now)"
    by (metis fst_conv) (metis assms(1) snd_conv)
  with assms(2,3) have "sm_out c t m" using monitor.only_sent [of h json cfg now s ps tr t m] by simp
  then show ?thesis
    by (simp add: sm_out_def eqs New_sm_def Let_def SecurityMonitorComponentID_def)
qed

theorem monitor_sends_own_name_witness:
  "\<exists>tr t m. reachable (sm_threads demo_cfg) demo_sm demo_sm [Ret ()] tr \<and> (t, m) \<in> set (sent tr) \<and>
     get_str m ''sender'' = ''security_monitor''"
proof -
  let ?m = "[(''action'', GStr ''ping''), (''reply_to'', GStr ''r'')]"
  have "map_of (registered (smBase demo_cfg) (sm_registerHandlers demo_cfg)) ''ping'' =
      Some (handlePing (smBase demo_cfg))"
    by (simp add: registered_def sm_registerHandlers_def registerBuiltinHandlers_def Let_def)
  then obtain r where run: "run demo_env (demo_dispatch ?m) demo_sm [] =
      ((), demo_sm, [Clock 5, Published ''r'' r None])"
    by (simp add: demo_dispatch_def handleMessage_def get_str_def handlePing_def demo_env_def)
  have reach: "reachable (sm_threads demo_cfg) demo_sm demo_sm [Ret ()] [Clock 5, Published ''r'' r None]"
    using run_reachable [OF reachable.start _ run] by simp
  have "get_str r ''sender'' = ''security_monitor''"
    using monitor_sends_own_name [OF demo_New reach] by simp
  with reach show ?thesis by (intro exI [of _ "[Clock 5, Published ''r'' r None]"]) auto
qed

text \<open>In any schedule, one step of any goroutine either leaves the safety state alone or
  switches the mode and then advances the version counter by exactly one.\<close>

theorem monitor_mode_version:
  assumes "(c, s0) = New_sm h json cfg now" and "reachable (sm_threads c) s0 s ps tr"
    and "i < length ps" and "pstep s (ps ! i) l s' p'"
  shows "safetyState s' = safetyState s \<or>
         Mode (safetyState s') \<noteq> Mode (safetyState s) \<and>
         Version (safetyState s') = Version (safetyState s) + 1"
proof -
  from assms(1) have eqs: "c = fst (New_sm h json cfg now)" "s0 = snd (New_sm h json cfg now)"
    by (metis fst_conv) (metis assms(1) snd_conv)
  with assms(2-) have "s' = s \<or> sm_guar s s'" using monitor.next_step [of h json cfg now] by blast
  then show ?thesis by (auto simp: sm_guar_def split: if_splits)
qed

theorem monitor_mode_version_witness:
  "\<exists>s ps tr l s' p'. reachable (sm_threads demo_cfg) demo_sm s ps tr \<and> pstep s (ps ! 0) l s' p' \<and>
     Mode (safetyState s') \<noteq> Mode (safetyState s) \<and> Version (safetyState s') = Version (safetyState s) + 1"
proof -
  let ?p = "demo_dispatch demo_isolate"
  let ?u = "\<lambda>n s. snd (enterIsolatedLocked demo_cfg n ''manual_isolation'' ''emergency'' s)"
  define k where "k n = (case ?p of Now f \<Rightarrow> (case f n of Atom _ g \<Rightarrow> g))" for n
  have p: "?p = Now (\<lambda>n. Atom (?u n) (k n))"
    unfolding k_def demo_dispatch_isolate
    by (simp add: handleIsolationStart_def demo_isolate_def payload_reason_def get_str_def
        get_map_def Let_def)
  have "reachable (sm_threads demo_cfg) demo_sm demo_sm [?p] []"
    by (intro reachable.spawn reachable.start demo_dispatch_thread)
  from reachable.sched [OF this, of 0 "[Clock 5]" demo_sm "Atom (?u 5) (k 5)"]
  have r: "reachable (sm_threads demo_cfg) demo_sm demo_sm [Atom (?u 5) (k 5)] [Clock 5]"
    using pstep.now [of demo_sm "\<lambda>n. Atom (?u n) (k n)" 5] by (simp add: p)
  have st: "pstep demo_sm ([Atom (?u 5) (k 5)] ! 0) [] (?u 5 demo_sm) (k 5 demo_sm)"
    using pstep.atom [of demo_sm "?u 5" "k 5"] by simp
  have "Mode (safetyState (?u 5 demo_sm)) \<noteq> Mode (safetyState demo_sm)"
    by (simp add: enterIsolatedLocked_def demo_sm_def New_sm_def newInitialSafetyState_def Let_def)
  with monitor_mode_version [OF demo_New r _ st] r st show ?thesis by fastforce
qed

end
