(* ===== verification/Monitor_Policies.thy ===== *)
theory Monitor_Policies
  imports Security_Monitor
begin

text \<open>
  The text format of \<^verbatim>\<open>SECURITY_POLICIES\<close> (\<^verbatim>\<open>parsePolicies\<close> of \<^verbatim>\<open>policy_store.go\<close>): the entries it
  admits, the round trip of the semicolon format, and the heartbeat watchdog of
  \<^verbatim>\<open>security_monitor.go\<close>.
\<close>

section \<open>Lemmas\<close>

definition well_formed :: "PolicyKey \<Rightarrow> bool" where
  "well_formed k \<longleftrightarrow> (\<forall>x \<in> set [pkSender k, pkTopic k, pkAction k]. x \<noteq> [] \<and> TrimSpace x = x)"

lemma add_policy_wf:
  "(\<forall>k \<in> set out. well_formed k) \<Longrightarrow>
     \<forall>k \<in> set (add_policy (TrimSpace s) (TrimSpace t) (TrimSpace a) out). well_formed k"
  by (auto simp: add_policy_def well_formed_def)

lemma parse_item_wf: "(\<forall>k \<in> set out. well_formed k) \<Longrightarrow> \<forall>k \<in> set (parse_item v out). well_formed k"
  by (cases v) (use add_policy_wf in auto)

lemma parse_chunk_wf: "(\<forall>k \<in> set out. well_formed k) \<Longrightarrow> \<forall>k \<in> set (parse_chunk v out). well_formed k"
  using add_policy_wf by (auto simp: parse_chunk_def Let_def)

lemma fold_keeps: "(\<And>x s. P s \<Longrightarrow> P (f x s)) \<Longrightarrow> P s \<Longrightarrow> P (fold f xs s)"
  by (induction xs arbitrary: s) auto

lemma fold_parse_wf:
  "\<forall>k \<in> set (fold parse_item items []). well_formed k"
  "\<forall>k \<in> set (fold parse_chunk chunks []). well_formed k"
  by (rule fold_keeps [where P = "\<lambda>out. \<forall>k \<in> set out. well_formed k"], erule parse_item_wf, simp)
     (rule fold_keeps [where P = "\<lambda>out. \<forall>k \<in> set out. well_formed k"], erule parse_chunk_wf, simp)

text \<open>The semicolon format, printed.\<close>

definition show_policy :: "PolicyKey \<Rightarrow> string" where
  "show_policy k = Join (CHR '','') [pkSender k, pkTopic k, pkAction k]"

definition show_policies :: "PolicyKey list \<Rightarrow> string" where
  "show_policies ks = Join (CHR '';'') (map show_policy ks)"

definition printable :: "PolicyKey \<Rightarrow> bool" where
  "printable k \<longleftrightarrow> well_formed k \<and>
     (\<forall>x \<in> set [pkSender k, pkTopic k, pkAction k]. CHR '','' \<notin> set x \<and> CHR '';'' \<notin> set x)"

lemma Split_show_policy: "printable k \<Longrightarrow> Split (show_policy k) (CHR '','') = [pkSender k, pkTopic k, pkAction k]"
  by (simp add: show_policy_def printable_def)

lemma key_of_fields: "key (pkSender k) (pkTopic k) (pkAction k) = k"
  by (simp add: key_def)

lemma parse_chunk_show: "printable k \<Longrightarrow> parse_chunk (show_policy k) out = List.insert k out"
  unfolding parse_chunk_def Split_show_policy
  by (simp add: add_policy_def printable_def well_formed_def key_of_fields Split_show_policy)

lemma show_policy_no_semi: "printable k \<Longrightarrow> CHR '';'' \<notin> set (show_policy k)"
  by (simp add: show_policy_def printable_def)

lemma Split_show_policies:
  "ks \<noteq> [] \<Longrightarrow> list_all printable ks \<Longrightarrow> Split (show_policies ks) (CHR '';'') = map show_policy ks"
  unfolding show_policies_def by (rule Split_Join) (auto simp: list_all_iff show_policy_no_semi)

lemma fold_parse_show:
  "list_all printable ks \<Longrightarrow> fold parse_chunk (map show_policy ks) out = fold List.insert ks out"
  by (induction ks arbitrary: out) (simp_all add: parse_chunk_show)

lemma TrimSpace_fixed: "TrimSpace x = x \<Longrightarrow> x \<noteq> [] \<Longrightarrow> \<not> is_space (hd x) \<and> \<not> is_space (last x)"
  using TrimSpace_ends [of x] by simp

lemma show_policies_trimmed:
  assumes "ks \<noteq> []" "list_all printable ks"
  shows "show_policies ks \<noteq> [] \<and> TrimSpace (show_policies ks) = show_policies ks"
proof -
  let ?xs = "map show_policy ks"
  have hd: "hd ?xs = show_policy (hd ks)" and last: "last ?xs = show_policy (last ks)"
    using assms(1) by (simp_all add: hd_map last_map)
  have ends: "show_policy k \<noteq> []" "hd (show_policy k) = hd (pkSender k)"
    "last (show_policy k) = last (pkAction k)" if "printable k" for k
    using that by (auto simp: show_policy_def printable_def well_formed_def)
  have p: "printable (hd ks)" "printable (last ks)" using assms by (auto simp: list_all_iff)
  have "show_policies ks \<noteq> []" "hd (show_policies ks) = hd (pkSender (hd ks))"
    "last (show_policies ks) = last (pkAction (last ks))"
    using hd_Join [of ?xs "CHR '';''"] last_Join [of ?xs "CHR '';''"] assms(1) ends p
    by (simp_all add: show_policies_def hd last)
  with p show ?thesis
    using TrimSpace_fixed [of "pkSender (hd ks)"] TrimSpace_fixed [of "pkAction (last ks)"]
    by (simp add: TrimSpace_id printable_def well_formed_def)
qed

section \<open>Properties\<close>

text \<open>Every policy the parser admits, from the JSON form or from the semicolon form, has a
  sender, a topic and an action that are not empty and carry no surrounding white space: no entry
  of the initial table can match a message without a sender, topic or action.\<close>

theorem parsePolicies_well_formed: "list_all well_formed (parsePolicies json raw)"
  using fold_parse_wf by (auto simp: parsePolicies_def Let_def list_all_iff split: option.splits)

text \<open>C34. Round trip of the semicolon format: printing any list of policies whose fields are trimmed,
  not empty and free of commas and semicolons, and parsing the text again, yields the same set of
  policies, each once; the text is not a JSON array.\<close>

theorem parsePolicies_round_trip:
  assumes "list_all printable ks" and "json (show_policies ks) = None"
  shows "set (parsePolicies json (show_policies ks)) = set ks \<and>
         distinct (parsePolicies json (show_policies ks))"
proof (cases "ks = []")
  case True
  then show ?thesis by (simp add: show_policies_def parsePolicies_def)
next
  case False
  with assms have "parsePolicies json (show_policies ks) = fold List.insert ks []"
    using show_policies_trimmed [OF False assms(1)]
    by (simp add: parsePolicies_def Let_def Split_show_policies fold_parse_show)
  then show ?thesis by (simp add: set_fold_insert distinct_fold_insert)
qed

theorem parsePolicies_round_trip_witness:
  "set (parsePolicies (\<lambda>_. None) ''a,t.x,GO;b,t.y,STOP'') =
     {key ''a'' ''t.x'' ''GO'', key ''b'' ''t.y'' ''STOP''}"
proof -
  let ?ks = "[key ''a'' ''t.x'' ''GO'', key ''b'' ''t.y'' ''STOP'']"
  have "list_all printable ?ks" by (simp add: printable_def well_formed_def TrimSpace_def is_space_def)
  then have "set (parsePolicies (\<lambda>_. None) (show_policies ?ks)) = set ?ks"
    using parsePolicies_round_trip [of ?ks "\<lambda>_. None"] by simp
  then show ?thesis by (simp add: show_policies_def show_policy_def)
qed

text \<open>C32. The watchdog. One tick leaves the monitor ISOLATED exactly when it was ISOLATED before or
  supervision is on (a positive timeout, fail-safe action \<open>isolate\<close>) and the limiter or the
  emergency component was never seen or has been silent for longer than the timeout; it isolates
  with the emergency table in force and one journal entry, and otherwise changes nothing.\<close>

theorem watchdog_isolates:
  "let late = (\<lambda>x. case map_of (lastSeenBySender s) x of None \<Rightarrow> True
                     | Some t \<Rightarrow> heartbeatTimeout c < on_now E [] - t);
       fires = (Mode (safetyState s) \<noteq> ModeIsolated \<and> 0 < heartbeatTimeout c \<and>
                failsafeAction c = ''isolate'' \<and> (late ''limiter'' \<or> late ''emergency''));
       s' = final E (checkHeartbeatTimeout c) s
   in (if fires
       then Mode (safetyState s') = ModeIsolated \<and> policies s' = emergencyPolicies c \<and>
            normalPolicies s' = normalPolicies s \<and>
            Version (safetyState s') = Version (safetyState s) + 1 \<and>
            Source (safetyState s') = ''security_monitor'' \<and>
            map fst (outputs E (checkHeartbeatTimeout c) s) = [smJournalTopic c]
       else s' = s \<and> outputs E (checkHeartbeatTimeout c) s = [])"
  by (auto simp: checkHeartbeatTimeout_def heartbeatTransition_def staleSender_def run_views Let_def
      enterIsolatedLocked_def logModeTransitionLocked_def SecurityMonitorComponentID_def
      split: option.splits)

end
