(* ===== verification/Navigation.thy ===== *)
theory Navigation
  imports Component_Base
begin

text \<open>
  Package \<^verbatim>\<open>navigation\<close> (\<^verbatim>\<open>navigation/src/navigation.go\<close>): the last known navigation state, replaced
  by \<^verbatim>\<open>nav_state\<close>, merged into by \<^verbatim>\<open>update_config\<close> and read by \<^verbatim>\<open>get_state\<close>.
\<close>

section \<open>Data and operations\<close>

definition defaultNavState :: gmap where
  "defaultNavState =
     [(''lat'', GFloat (Fin (223 / 4))), (''lon'', GFloat (round64 (3762 / 100))), (''alt_m'', GFloat (Fin 50)),
      (''ground_speed_mps'', GFloat (Fin 0)), (''heading_deg'', GFloat (Fin 0)), (''fix'', GInt 3),
      (''satellites'', GInt 12), (''gps_valid'', GBool True), (''hdop'', GFloat (round64 (8 / 10)))]"

record nav_cfg =
  navBase :: BaseComponent

record nav_state = base_state +
  lastState :: gmap

definition New_nav :: "Config \<Rightarrow> nav_cfg \<times> nav_state" where
  "New_nav cfg =
     (\<lparr>navBase = newBase cfg ''navigation''\<rparr>,
      \<lparr>running = False, lastState = put_all defaultNavState []\<rparr>)"

definition handleNavState :: "nav_state handler" where
  "handleNavState m =
     (if \<not> IsTrustedSender m ''security_monitor'' then noReply
      else case get_map m ''payload'' of
        None \<Rightarrow> reply [(''ok'', GBool False), (''error'', GStr ''invalid_nav_payload'')]
      | Some payload \<Rightarrow>
          modify (\<lambda>s. s\<lparr>lastState := put_all payload []\<rparr>) (reply [(''ok'', GBool True)]))"

definition handleUpdateConfig_nav :: "nav_state handler" where
  "handleUpdateConfig_nav m =
     (if \<not> IsTrustedSender m ''security_monitor'' then noReply
      else case get_map m ''payload'' of
        None \<Rightarrow> reply [(''ok'', GBool False), (''error'', GStr ''invalid_config_payload'')]
      | Some payload \<Rightarrow>
          Atom (\<lambda>s. s\<lparr>lastState := put_all payload (lastState s)\<rparr>) (\<lambda>s.
            reply [(''ok'', GBool True), (''config'', GMap (put_all (put_all payload (lastState s)) []))]))"

definition handleGetState_nav :: "nav_state handler" where
  "handleGetState_nav m =
     (if \<not> IsTrustedSender m ''security_monitor'' then noReply
      else readState (\<lambda>s. reply (put_all (lastState s) [])))"

definition nav_registerHandlers :: "(string \<times> nav_state handler) list" where
  "nav_registerHandlers =
     [(''nav_state'', handleNavState), (''update_config'', handleUpdateConfig_nav),
      (''get_state'', handleGetState_nav)]"

definition nav_dispatch :: "nav_cfg \<Rightarrow> gmap \<Rightarrow> (nav_state, unit) prog" where
  "nav_dispatch c = handleMessage (navBase c) (registered (navBase c) nav_registerHandlers)"

section \<open>Contract\<close>

definition nav_inv :: "nav_state \<Rightarrow> bool" where
  "nav_inv s \<longleftrightarrow> distinct (map fst (lastState s))"

lemma distinct_put_all: "distinct (map fst d) \<Longrightarrow> distinct (map fst (put_all m d))"
  by (induction m d rule: put_all.induct) auto

lemma nav_sat: "sat nav_inv (\<lambda>_ _. True) (\<lambda>_ m. get_str m ''action'' = ''response'') anyResult (nav_dispatch c m)"
  unfolding nav_dispatch_def
  by (rule sat_registered)
     (auto simp: nav_registerHandlers_def handleNavState_def handleUpdateConfig_nav_def
       handleGetState_nav_def nav_inv_def distinct_put_all split: option.splits)

interpretation nav: goroutines "range (nav_dispatch (fst (New_nav cfg)))" "snd (New_nav cfg)" nav_inv
    "\<lambda>_ _. True" "\<lambda>_ m. get_str m ''action'' = ''response''" for cfg
  by unfold_locales (auto simp: nav_sat, simp add: New_nav_def nav_inv_def distinct_put_all)

interpretation nav_cmds: guarded_component "navBase c" nav_registerHandlers
    "{''nav_state'', ''update_config'', ''get_state''}" "{''security_monitor''}" for c
  by unfold_locales (auto simp: nav_registerHandlers_def handleNavState_def handleUpdateConfig_nav_def
      handleGetState_nav_def)

section \<open>Properties\<close>

definition from_monitor :: "gmap \<Rightarrow> gmap" where
  "from_monitor payload = [(''sender'', GStr ''security_monitor''), (''payload'', GMap payload)]"

text \<open>Navigation keeps what it is told: after \<^verbatim>\<open>nav_state\<close> with payload \<open>p\<close>, \<^verbatim>\<open>get_state\<close> returns a
  map with exactly the entries of \<open>p\<close>; after a further \<^verbatim>\<open>update_config\<close> with payload \<open>q\<close> it returns
  \<open>p\<close> overridden by \<open>q\<close>, which is also what \<^verbatim>\<open>update_config\<close> answered.\<close>

theorem nav_state_round_trip:
  assumes "distinct (map fst p)" and "distinct (map fst q)"
  shows "let s1 = final E (handleNavState (from_monitor p)) s;
             s2 = final E (handleUpdateConfig_nav (from_monitor q)) s1 in
     (\<exists>r. result E (handleGetState_nav (from_monitor x)) s1 = Inr (Some r) \<and> map_of r = map_of p) \<and>
     (\<exists>r. result E (handleGetState_nav (from_monitor x)) s2 = Inr (Some r) \<and> map_of r = map_of p ++ map_of q) \<and>
     (\<exists>r r'. result E (handleUpdateConfig_nav (from_monitor q)) s1 = Inr (Some r) \<and>
        get_map r ''config'' = Some r' \<and> map_of r' = map_of p ++ map_of q)"
  using assms
  by (auto simp: run_views handleNavState_def handleUpdateConfig_nav_def handleGetState_nav_def
      IsTrustedSender_iff from_monitor_def get_str_def get_map_def distinct_put_all Let_def)

theorem nav_state_round_trip_witness:
  "\<exists>r. result demo_env (handleGetState_nav (from_monitor []))
     (final demo_env (handleNavState (from_monitor [(''lat'', GFloat (Fin 55))])) (snd (New_nav (FromEnv demo_host)))) =
       Inr (Some r) \<and> map_of r = map_of [(''lat'', GFloat (Fin 55))]"
  using nav_state_round_trip [of "[(''lat'', GFloat (Fin 55))]" "[]" demo_env "snd (New_nav (FromEnv demo_host))" "[]"]
  by (simp add: Let_def)

end
