(* ===== verification/Delivery.thy ===== *)
theory Delivery
  imports Component_Base
begin

text \<open>
  Package \<^verbatim>\<open>delivery\<close> (\<^verbatim>\<open>delivery/src/delivery.go\<close>): the platform-facing drone component with its
  delivery counter. The state is the Go map the component keeps; the counter is a Go \<^verbatim>\<open>int\<close>
  (64 bits) inside it.
\<close>

section \<open>Data and operations\<close>

definition defaultTopic :: string where "defaultTopic = ''components.delivery_drone''"

record drone_cfg =
  drBase :: BaseComponent
  drName :: string

record drone_state = base_state +
  drState :: gmap

definition New_drone :: "string \<Rightarrow> string \<Rightarrow> string \<Rightarrow> drone_cfg \<times> drone_state" where
  "New_drone cid nm topic =
     (\<lparr>drBase = \<lparr>bcID = cid, bcType = ''delivery_drone'', bcTopic = orElse topic defaultTopic\<rparr>, drName = nm\<rparr>,
      \<lparr>running = False, drState = [(''status'', GStr ''idle''), (''deliveries'', GInt 0)]\<rparr>)"

definition handleEcho :: "drone_cfg \<Rightarrow> drone_state handler" where
  "handleEcho c m =
     (let pl = (case map_of m ''payload'' of
                  None \<Rightarrow> [] | Some GNil \<Rightarrow> [] | Some (GMap p) \<Rightarrow> p
                | Some v \<Rightarrow> [(''value'', v)])
      in reply [(''echo'', GMap pl), (''from'', GStr (bcID (drBase c))),
                (''component_id'', GStr (bcID (drBase c)))])"

text \<open>\<open>d.state["deliveries"].(int)\<close>, zero when it is something else.\<close>

definition deliveries :: "gmap \<Rightarrow> 64 word" where
  "deliveries st = (case map_of st ''deliveries'' of Some (GInt w) \<Rightarrow> w | _ \<Rightarrow> 0)"

definition count_delivery :: "string \<Rightarrow> gmap \<Rightarrow> gmap" where
  "count_delivery dest st =
     put ''last_destination'' (GStr dest) (put ''status'' (GStr ''delivering'')
       (put ''deliveries'' (GInt (deliveries st + 1)) st))"

definition handleDeliverPackage :: "drone_cfg \<Rightarrow> drone_state handler" where
  "handleDeliverPackage c m =
     (let dest = (case get_map m ''payload'' of None \<Rightarrow> [] | Some p \<Rightarrow> get_str p ''destination'') in
      Atom (\<lambda>s. s\<lparr>drState := count_delivery dest (drState s)\<rparr>) (\<lambda>s.
        reply [(''accepted'', GBool True), (''destination'', GStr dest),
               (''deliveries'', GInt (deliveries (drState s) + 1)),
               (''from'', GStr (bcID (drBase c))), (''component_id'', GStr (bcID (drBase c)))]))"

definition handleGetDeliveryStatus :: "drone_cfg \<Rightarrow> drone_state handler" where
  "handleGetDeliveryStatus c _ = readState (\<lambda>s.
     reply (put ''component_id'' (GStr (bcID (drBase c))) (put ''from'' (GStr (bcID (drBase c)))
       (put_all (drState s) []))))"

definition drone_registerHandlers :: "drone_cfg \<Rightarrow> (string \<times> drone_state handler) list" where
  "drone_registerHandlers c =
     [(''echo'', handleEcho c), (''deliver_package'', handleDeliverPackage c),
      (''get_delivery_status'', handleGetDeliveryStatus c)]"

definition drone_dispatch :: "drone_cfg \<Rightarrow> gmap \<Rightarrow> (drone_state, unit) prog" where
  "drone_dispatch c = handleMessage (drBase c) (registered (drBase c) (drone_registerHandlers c))"

section \<open>Properties\<close>

lemma drone_step:
  "deliveries (drState (final E (drone_dispatch c m) s)) =
     deliveries (drState s) + (if get_str m ''action'' = ''deliver_package'' then 1 else 0)"
proof -
  have d: "distinct (map fst (drone_registerHandlers c))" by (simp add: drone_registerHandlers_def)
  show ?thesis
    unfolding drone_dispatch_def final_registered [OF d]
    by (auto simp: drone_registerHandlers_def handleEcho_def handleDeliverPackage_def
        handleGetDeliveryStatus_def final_def Let_def count_delivery_def deliveries_def)
qed

text \<open>The counter counts: after any sequence of messages the drone reports as many deliveries
  as there were \<^verbatim>\<open>deliver_package\<close> messages, modulo the 64-bit width of the counter; no other
  message touches it.\<close>

theorem drone_counts_deliveries:
  "deliveries (drState (fold (\<lambda>m. final E (drone_dispatch (fst (New_drone cid nm topic)) m)) ms
      (snd (New_drone cid nm topic)))) =
     of_nat (length (filter (\<lambda>m. get_str m ''action'' = ''deliver_package'') ms))"
proof -
  have "deliveries (drState (fold (\<lambda>m. final E (drone_dispatch c m)) ms s)) =
      deliveries (drState s) + of_nat (length (filter (\<lambda>m. get_str m ''action'' = ''deliver_package'') ms))" for c s
    by (induction ms arbitrary: s) (simp_all add: drone_step)
  moreover have "deliveries (drState (snd (New_drone cid nm topic))) = 0"
    by (simp add: New_drone_def deliveries_def)
  ultimately show ?thesis by simp
qed

end
