(* ===== verification/Limiter.thy ===== *)
theory Limiter
  imports Component_Base
begin

text \<open>
  Package \<^verbatim>\<open>limiter\<close> (\<^verbatim>\<open>limiter/src\<close>): geofence supervision (\<^verbatim>\<open>limiter.go\<close>), mission bounds and
  ORVD settings (\<^verbatim>\<open>orvd.go\<close>) and the client of the traffic service (\<^verbatim>\<open>opbd_client.go\<close>).

  \<open>lim_cfg\<close> holds what \<^verbatim>\<open>New\<close> sets once; \<open>lim_state\<close> what \<^verbatim>\<open>l.mu\<close> guards, and the poll time stamps and
  the registration flag that the code reads without the lock (each such access is a step of its
  own here). \<^verbatim>\<open>math.Sin\<close> and the like are a \<open>libm\<close> argument.
\<close>

section \<open>Data\<close>

definition StateNormal :: string where "StateNormal = ''NORMAL''"
definition StateWarning :: string where "StateWarning = ''WARNING''"
definition StateEmergency :: string where "StateEmergency = ''EMERGENCY''"

definition ORVDStatusDisabled :: string where "ORVDStatusDisabled = ''DISABLED''"
definition ORVDStatusPending :: string where "ORVDStatusPending = ''PENDING''"
definition ORVDStatusAuthorized :: string where "ORVDStatusAuthorized = ''AUTHORIZED''"
definition ORVDStatusDenied :: string where "ORVDStatusDenied = ''DENIED''"
definition ORVDStatusOutOfBounds :: string where "ORVDStatusOutOfBounds = ''OUT_OF_BOUNDS''"

lemmas orvd_status_defs = ORVDStatusDisabled_def ORVDStatusPending_def ORVDStatusAuthorized_def
  ORVDStatusDenied_def ORVDStatusOutOfBounds_def

record orvdConfig =
  orvdTopic :: string
  orvdDroneID :: string
  orvdDroneModel :: string
  orvdOperator :: string
  orvdCertificateID :: string
  orvdMockSuccess :: bool
  orvdTelemetryIntervalSec :: float64
  maxMissionAltM :: float64
  orvdProxy :: ProxyClient

record lim_cfg =
  limBase :: BaseComponent
  limNavigation :: string
  limTelemetry :: string
  limEmergency :: string
  limControlIntervalSec :: float64
  navPollIntervalSec :: float64
  telemetryPollIntervalSec :: float64
  limProxy :: ProxyClient
  limAudit :: AuditLogger
  orvd :: orvdConfig

record lim_state = base_state +
  maxDistanceFromPathM :: float64
  maxAltDeviationM :: float64
  limMission :: "gmap option"
  limLastNav :: "gmap option"
  lastTelemetry :: "gmap option"
  limState :: string
  lastNavPollTs :: float64
  lastTelemetryPollTs :: float64
  orvdStatus :: string
  orvdMissionID :: string
  orvdPhase :: string
  orvdDroneRegistered :: bool
  orvdTakeoffAuthorized :: bool
  lastORVDTelemetryTs :: float64

section \<open>orvd.go\<close>

definition orvdDroneIDPattern :: "string \<Rightarrow> bool" where
  "orvdDroneIDPattern s \<longleftrightarrow>
     HasPrefix s ''drone_'' \<and> list_all is_digit (drop 6 s) \<and> length (drop 6 s) \<in> {3, 4}"

definition parseBoolEnv :: "string \<Rightarrow> bool" where
  "parseBoolEnv raw \<longleftrightarrow> ToLower (TrimSpace raw) \<in> {''1'', ''true'', ''yes'', ''on''}"

definition loadORVDConfig :: "host \<Rightarrow> string \<Rightarrow> string \<Rightarrow> float64 \<Rightarrow> ProxyClient \<Rightarrow> orvdConfig" where
  "loadORVDConfig h cid instanceID requestTimeout proxy =
     (let d = orElse (TrimSpace (Getenv h ''ORVD_DRONE_ID'')) (TrimSpace instanceID) in
      \<lparr>orvdTopic = orElse (TrimSpace (Getenv h ''ORVD_TOPIC'')) (TrimSpace (Getenv h ''ORVD_EXTERNAL_TOPIC'')),
       orvdDroneID = (if orvdDroneIDPattern d then d else ''drone_001''),
       orvdDroneModel = TrimSpace (Getenv h ''ORVD_DRONE_MODEL''),
       orvdOperator = TrimSpace (Getenv h ''ORVD_OPERATOR''),
       orvdCertificateID = TrimSpace (Getenv h ''ORVD_CERTIFICATE_ID''),
       orvdMockSuccess = parseBoolEnv (Getenv h ''LIMITER_ORVD_MOCK_SUCCESS''),
       orvdTelemetryIntervalSec = env_float h ''LIMITER_ORVD_TELEMETRY_INTERVAL_S'' positive (Fin 1),
       maxMissionAltM = env_float h ''LIMITER_MAX_MISSION_ALT_M'' positive (Fin 5000),
       orvdProxy = \<lparr>pxSender = cid, pxMonitor = pxMonitor proxy,
                    pxTimeout = env_float h ''LIMITER_ORVD_REQUEST_TIMEOUT_S'' positive requestTimeout\<rparr>\<rparr>)"

fun stepFloat_val :: "gval \<Rightarrow> float64 option" where
  "stepFloat_val (GFloat x) = Some x"
| "stepFloat_val (GFloat32 x) = Some x"
| "stepFloat_val (GInt w) = Some (i64 w)"
| "stepFloat_val (GInt64 w) = Some (i64 w)"
| "stepFloat_val _ = None"

definition stepFloat :: "gmap \<Rightarrow> string \<Rightarrow> float64 option" where
  "stepFloat step k = (case map_of step k of None \<Rightarrow> None | Some v \<Rightarrow> stepFloat_val v)"

text \<open>The loop of \<^verbatim>\<open>validateMissionBounds\<close> from index \<open>i\<close> on: the error, or \<^const>\<open>None\<close> for a valid mission.\<close>

fun validate_steps :: "float64 \<Rightarrow> nat \<Rightarrow> gval list \<Rightarrow> string option" where
  "validate_steps maxAlt i [] = None"
| "validate_steps maxAlt i (GMap step # ss) =
     (case (stepFloat step ''lat'', stepFloat step ''lon'', stepFloat step ''alt_m'') of
        (Some lat, Some lon, Some alt) \<Rightarrow>
          if fgt (fabs lat) (Fin 90) \<or> fgt (fabs lon) (Fin 180) then
            Some (''coords_out_of_range_step_'' @ Itoa (int i))
          else if flt alt (Fin 0) \<or> fgt alt maxAlt then Some (''alt_out_of_range_step_'' @ Itoa (int i))
          else validate_steps maxAlt (Suc i) ss
      | _ \<Rightarrow> Some (''invalid_coords_step_'' @ Itoa (int i)))"
| "validate_steps maxAlt i (_ # ss) = Some (''invalid_step_'' @ Itoa (int i))"

definition validateMissionBounds :: "gmap \<Rightarrow> float64 \<Rightarrow> string option" where
  "validateMissionBounds mission maxAlt =
     (let steps = get_list mission ''steps'' in
      if steps = [] then Some ''empty_steps'' else validate_steps maxAlt 0 steps)"

text \<open>\<open>if v, ok := m[k].(float64); ok && v > 0 { x = v }\<close>.\<close>

definition positive_or :: "gmap \<Rightarrow> string \<Rightarrow> float64 \<Rightarrow> float64" where
  "positive_or m k x = (case get_float64 m k of Some v \<Rightarrow> if positive v then v else x | None \<Rightarrow> x)"

definition set_limits :: "gmap \<Rightarrow> lim_state \<Rightarrow> lim_state" where
  "set_limits m s =
     s\<lparr>maxDistanceFromPathM := positive_or m ''max_distance_from_path_m'' (maxDistanceFromPathM s),
       maxAltDeviationM := positive_or m ''max_alt_deviation_m'' (maxAltDeviationM s)\<rparr>"

definition applyORVDConstraints :: "gmap \<Rightarrow> (lim_state, unit) prog" where
  "applyORVDConstraints resp =
     (case get_map resp ''constraints'' of None \<Rightarrow> Ret () | Some cs \<Rightarrow> modify (set_limits cs) (Ret ()))"

section \<open>opbd\_client.go\<close>

definition opbdStatus :: "gmap option \<Rightarrow> string" where
  "opbdStatus resp = (case resp of None \<Rightarrow> [] | Some r \<Rightarrow> TrimSpace (ToLower (get_str r ''status'')))"

fun route_steps :: "gval list \<Rightarrow> gmap list" where
  "route_steps [] = []"
| "route_steps (GMap step # ss) =
     (case (stepFloat step ''lat'', stepFloat step ''lon'') of
        (Some lat, Some lon) \<Rightarrow> [(''lat'', GFloat lat), (''lon'', GFloat lon)] # route_steps ss
      | _ \<Rightarrow> route_steps ss)"
| "route_steps (_ # ss) = route_steps ss"

definition missionStepsToRoute :: "gmap \<Rightarrow> gmap list" where
  "missionStepsToRoute mission = route_steps (get_list mission ''steps'')"

definition callORVD :: "lim_cfg \<Rightarrow> string \<Rightarrow> gmap \<Rightarrow> (lim_state, hres) prog" where
  "callORVD c action payload =
     (if orvdTopic (orvd c) = [] then Ret (Inl ''orvd_disabled'')
      else ProxyRequest (orvdProxy (orvd c)) (orvdTopic (orvd c)) action payload)"

abbreviation limLog :: "lim_cfg \<Rightarrow> string \<Rightarrow> gmap \<Rightarrow> (lim_state, unit) prog" where
  "limLog c \<equiv> logToJournal (limAudit c)"

definition mid_entry :: "string \<Rightarrow> gmap" where
  "mid_entry mid = [(''mission_id'', GStr mid)]"

text \<open>\<open>l.mu.Lock(); l.setORVDPhase(ph); l.mu.Unlock()\<close>.\<close>

definition setPhase :: "string \<Rightarrow> (lim_state, 'a) prog \<Rightarrow> (lim_state, 'a) prog" where
  "setPhase ph p = modify (\<lambda>s. s\<lparr>orvdPhase := ph\<rparr>) p"

definition orvdDeny :: "lim_cfg \<Rightarrow> string \<Rightarrow> string \<Rightarrow> gmap \<Rightarrow> (lim_state, string \<times> string) prog" where
  "orvdDeny c mid step extra =
     andThen (limLog c ''ORVD_MISSION_DENIED'' (mid_entry mid @ [(''step'', GStr step)] @ extra))
       (setPhase ''DENIED'' (Ret (ORVDStatusDenied, ''orvd_denied'')))"

definition authorizeMission :: "lim_cfg \<Rightarrow> string \<Rightarrow> (lim_state, string \<times> string) prog" where
  "authorizeMission c mid =
     bind (callORVD c ''authorize_mission'' (mid_entry mid)) (\<lambda>r. case r of
       Inl e \<Rightarrow> orvdDeny c mid ''authorize_mission'' [(''error'', GStr e)]
     | Inr resp \<Rightarrow>
         if opbdStatus resp \<noteq> ''authorized'' then
           orvdDeny c mid ''authorize_mission'' [(''response'', map_val resp)]
         else setPhase ''AUTHORIZED''
           (andThen (limLog c ''ORVD_MISSION_AUTHORIZED'' (mid_entry mid)) (Ret (ORVDStatusAuthorized, []))))"

definition registerMission :: "lim_cfg \<Rightarrow> gmap \<Rightarrow> string \<Rightarrow> (lim_state, string \<times> string) prog" where
  "registerMission c mission mid = Now (\<lambda>now.
     bind (callORVD c ''register_mission''
            ([(''drone_id'', GStr (orvdDroneID (orvd c))), (''mission_id'', GStr mid),
              (''route'', GMaps (missionStepsToRoute mission)), (''time'', GStr (RFC3339 now))] @
             (case get_float64 mission ''velocity'' of
                Some v \<Rightarrow> if positive v then [(''velocity'', GFloat v)] else [] | None \<Rightarrow> []))) (\<lambda>r. case r of
       Inl e \<Rightarrow> orvdDeny c mid ''register_mission'' [(''error'', GStr e)]
     | Inr resp \<Rightarrow>
         let st = opbdStatus resp in
         if st = ''rejected'' \<or> st = ''error'' then
           orvdDeny c mid ''register_mission''
             [(''reason'', GStr (orElse (get_str (nilmap resp) ''reason'') (get_str (nilmap resp) ''message''))),
              (''response'', map_val resp)]
         else if st \<noteq> ''mission_registered'' then
           orvdDeny c mid ''register_mission'' [(''response'', map_val resp)]
         else setPhase ''MISSION_REGISTERED''
           (andThen (limLog c ''ORVD_MISSION_REGISTERED'' (mid_entry mid)) (authorizeMission c mid))))"

definition reg_payload :: "orvdConfig \<Rightarrow> gmap" where
  "reg_payload oc =
     [(''drone_id'', GStr (orvdDroneID oc))] @
     (if orvdDroneModel oc \<noteq> [] then [(''model'', GStr (orvdDroneModel oc))] else []) @
     (if orvdOperator oc \<noteq> [] then [(''operator'', GStr (orvdOperator oc))] else []) @
     (if orvdCertificateID oc \<noteq> [] then [(''certificate_id'', GStr (orvdCertificateID oc))] else [])"

definition registerDrone :: "lim_cfg \<Rightarrow> gmap \<Rightarrow> string \<Rightarrow> (lim_state, string \<times> string) prog" where
  "registerDrone c mission mid =
     bind (callORVD c ''register_drone'' (reg_payload (orvd c))) (\<lambda>r. case r of
       Inl e \<Rightarrow> orvdDeny c mid ''register_drone'' [(''error'', GStr e)]
     | Inr resp \<Rightarrow>
         if opbdStatus resp \<noteq> ''registered'' then
           orvdDeny c mid ''register_drone'' [(''response'', map_val resp)]
         else modify (\<lambda>s. s\<lparr>orvdDroneRegistered := True, orvdPhase := ''DRONE_REGISTERED''\<rparr>)
           (andThen (limLog c ''ORVD_DRONE_REGISTERED'' [(''drone_id'', GStr (orvdDroneID (orvd c)))])
             (registerMission c mission mid)))"

definition runORVDMissionLoad :: "lim_cfg \<Rightarrow> gmap \<Rightarrow> (lim_state, string \<times> string) prog" where
  "runORVDMissionLoad c mission =
     (let mid = get_str mission ''mission_id'' in
      if orvdTopic (orvd c) = [] then
        modify (\<lambda>s. s\<lparr>orvdPhase := ''AUTHORIZED'', orvdTakeoffAuthorized := False\<rparr>)
          (Ret (ORVDStatusAuthorized, []))
      else if orvdMockSuccess (orvd c) then
        modify (\<lambda>s. s\<lparr>orvdPhase := ''AUTHORIZED'', orvdTakeoffAuthorized := False, orvdDroneRegistered := True\<rparr>)
          (andThen (limLog c ''ORVD_MISSION_AUTHORIZED'' (mid_entry mid @
               [(''stub'', GBool True), (''reason'', GStr ''LIMITER_ORVD_MOCK_SUCCESS'')]))
            (Ret (ORVDStatusAuthorized, [])))
      else modify (\<lambda>s. s\<lparr>orvdTakeoffAuthorized := False\<rparr>)
        (readState (\<lambda>s. if \<not> orvdDroneRegistered s then registerDrone c mission mid
                        else registerMission c mission mid)))"

text \<open>The numeric readers of \<^verbatim>\<open>limiter.go\<close>.\<close>

definition getFloat_lim :: "gmap \<Rightarrow> string \<Rightarrow> float64" where
  "getFloat_lim m k =
     (case map_of m k of
        Some (GFloat x) \<Rightarrow> x | Some (GInt w) \<Rightarrow> i64 w | Some (GInt64 w) \<Rightarrow> i64 w | _ \<Rightarrow> Fin 0)"

definition coords :: "float64 \<Rightarrow> float64 \<Rightarrow> gval" where
  "coords lat lon = GMap [(''lat'', GFloat lat), (''lon'', GFloat lon)]"

definition reportORVDIncident ::
    "lim_cfg \<Rightarrow> string \<Rightarrow> string \<Rightarrow> string \<Rightarrow> float64 \<Rightarrow> float64 \<Rightarrow> (lim_state, unit) prog" where
  "reportORVDIncident c mid incidentType severity lat lon =
     (if orvdTopic (orvd c) = [] \<or> orvdMockSuccess (orvd c) then Ret ()
      else bind (callORVD c ''report_incident''
             [(''drone_id'', GStr (orvdDroneID (orvd c))), (''mission_id'', GStr mid),
              (''incident_type'', GStr incidentType), (''severity'', GStr severity),
              (''coords'', coords lat lon)]) (\<lambda>_. Ret ()))"

definition emergency_payload :: "gmap \<Rightarrow> gmap" where
  "emergency_payload details =
     [(''event'', GStr ''EMERGENCY_LAND_REQUIRED''), (''details'', GMap details)]"

definition publishOREmergencyFromORVD :: "lim_cfg \<Rightarrow> string \<Rightarrow> (lim_state, unit) prog" where
  "publishOREmergencyFromORVD c reason =
     (let details = [(''source'', GStr ''orvd''), (''reason'', GStr reason)] in
      andThen (limLog c ''ORVD_EMERGENCY_LAND_REQUIRED'' details)
       (bind (ProxyPublishAsync (limProxy c) (limEmergency c) ''limiter_event'' (emergency_payload details))
         (\<lambda>_. Ret ())))"

definition runORVDSendTelemetry :: "lim_cfg \<Rightarrow> gmap \<Rightarrow> (lim_state, unit) prog" where
  "runORVDSendTelemetry c nav =
     (if orvdTopic (orvd c) = [] \<or> orvdMockSuccess (orvd c) then Ret ()
      else readState (\<lambda>s.
        if \<not> orvdTakeoffAuthorized s \<or> limMission s = None then Ret ()
        else let mid = orvdMissionID s; lat = getFloat_lim nav ''lat''; lon = getFloat_lim nav ''lon'';
                 alt = getFloat_lim nav ''alt_m'' in
          bind (callORVD c ''send_telemetry''
                 [(''drone_id'', GStr (orvdDroneID (orvd c))), (''coords'', coords lat lon),
                  (''altitude'', GFloat alt)]) (\<lambda>r. case r of
            Inl e \<Rightarrow> Ret ()
          | Inr resp \<Rightarrow>
              if opbdStatus resp = ''emergency'' \<and> EqualFold (get_str (nilmap resp) ''command'') ''LAND'' then
                let reason = get_str (nilmap resp) ''reason'' in
                andThen (limLog c ''ORVD_ZONE_VIOLATION'' (mid_entry mid @ [(''reason'', GStr reason)]))
                 (andThen (reportORVDIncident c mid ''zone_violation'' ''critical'' lat lon)
                   (publishOREmergencyFromORVD c reason))
              else Ret ())))"

text \<open>The common end of both successful branches of \<^verbatim>\<open>runORVDRequestTakeoff\<close>.\<close>

definition takeoffGranted :: "lim_cfg \<Rightarrow> string \<Rightarrow> gmap \<Rightarrow> (lim_state, bool \<times> string) prog" where
  "takeoffGranted c mid extra =
     Atom (\<lambda>s. s\<lparr>orvdTakeoffAuthorized := True, orvdPhase := ''TAKEOFF_AUTHORIZED''\<rparr>) (\<lambda>s.
       andThen (limLog c ''ORVD_TAKEOFF_AUTHORIZED'' (mid_entry mid @ extra))
        (andThen (case limLastNav s of None \<Rightarrow> Ret () | Some nav \<Rightarrow> runORVDSendTelemetry c nav)
          (Ret (True, []))))"

definition takeoffAnswer :: "lim_cfg \<Rightarrow> string \<Rightarrow> hres \<Rightarrow> (lim_state, bool \<times> string) prog" where
  "takeoffAnswer c mid r =
     (case r of
        Inl e \<Rightarrow>
          andThen (limLog c ''ORVD_TAKEOFF_DENIED'' (mid_entry mid @ [(''error'', GStr e)]))
            (Ret (False, ''orvd_takeoff_denied''))
      | Inr resp \<Rightarrow>
          let st = opbdStatus resp in
          if st = ''takeoff_authorized'' then takeoffGranted c mid []
          else if st = ''takeoff_denied'' \<or> st = ''error'' then
            andThen (limLog c ''ORVD_TAKEOFF_DENIED'' (mid_entry mid @
                [(''reason'', GStr (get_str (nilmap resp) ''reason'')), (''response'', map_val resp)]))
              (Ret (False, ''orvd_takeoff_denied''))
          else Ret (False, ''orvd_takeoff_denied''))"

text \<open>The second result of the Go function, \<open>pending\<close>, is always false and left out.\<close>

definition runORVDRequestTakeoff :: "lim_cfg \<Rightarrow> string \<Rightarrow> (lim_state, bool \<times> string) prog" where
  "runORVDRequestTakeoff c mid =
     (if orvdTopic (orvd c) = [] then Ret (True, [])
      else if orvdMockSuccess (orvd c) then takeoffGranted c mid [(''stub'', GBool True)]
      else readState (\<lambda>s.
        if orvdTakeoffAuthorized s \<and> orvdMissionID s = mid then Ret (True, [])
        else Now (\<lambda>now. bind (callORVD c ''request_takeoff''
               [(''drone_id'', GStr (orvdDroneID (orvd c))), (''mission_id'', GStr mid),
                (''time'', GStr (RFC3339 now))]) (takeoffAnswer c mid))))"

definition runORVDCompleteMission :: "lim_cfg \<Rightarrow> string \<Rightarrow> string \<Rightarrow> (lim_state, unit) prog" where
  "runORVDCompleteMission c mid res =
     (let completed = (\<lambda>s. s\<lparr>orvdPhase := ''COMPLETED'', orvdTakeoffAuthorized := False\<rparr>) in
      if orvdTopic (orvd c) = [] \<or> orvdMockSuccess (orvd c) then modify completed (Ret ())
      else bind (callORVD c ''complete_mission''
             (mid_entry mid @ [(''drone_id'', GStr (orvdDroneID (orvd c))), (''result'', GStr res)])) (\<lambda>r. case r of
          Inl e \<Rightarrow> limLog c ''ORVD_COMPLETE_FAILED'' (mid_entry mid @ [(''error'', GStr e)])
        | Inr resp \<Rightarrow>
            if opbdStatus resp = ''mission_completed'' then
              modify completed (limLog c ''ORVD_MISSION_COMPLETED'' (mid_entry mid))
            else Ret ()))"

section \<open>limiter.go\<close>

definition New_lim :: "host \<Rightarrow> Config \<Rightarrow> lim_cfg \<times> lim_state" where
  "New_lim h cfg =
     (let timeout = env_float h ''LIMITER_REQUEST_TIMEOUT_S'' positive (Fin 5);
          px = \<lparr>pxSender = ComponentID cfg, pxMonitor = secTopic h cfg, pxTimeout = timeout\<rparr>
      in (\<lparr>limBase = newBase cfg ''limiter'',
           limNavigation = BrokerTopicFor cfg ''navigation'', limTelemetry = BrokerTopicFor cfg ''telemetry'',
           limEmergency = BrokerTopicFor cfg ''emergency'',
           limControlIntervalSec = env_float h ''LIMITER_CONTROL_INTERVAL_S'' positive (Fin (1 / 2)),
           navPollIntervalSec = env_float h ''LIMITER_NAV_POLL_INTERVAL_S'' positive (round64 (2 / 10)),
           telemetryPollIntervalSec = env_float h ''LIMITER_TELEMETRY_POLL_INTERVAL_S'' positive (Fin (1 / 2)),
           limProxy = px,
           limAudit = \<lparr>alProxy = px, alJournal = BrokerTopicFor cfg ''journal'', alSource = ''limiter''\<rparr>,
           orvd = loadORVDConfig h (ComponentID cfg) (InstanceID cfg) timeout px\<rparr>,
          \<lparr>running = False,
           maxDistanceFromPathM = env_float h ''LIMITER_MAX_DISTANCE_FROM_PATH_M'' positive (Fin 50),
           maxAltDeviationM = env_float h ''LIMITER_MAX_ALT_DEVIATION_M'' positive (Fin 20),
           limMission = None, limLastNav = None, lastTelemetry = None, limState = StateNormal,
           lastNavPollTs = Fin 0, lastTelemetryPollTs = Fin 0, orvdStatus = ORVDStatusDisabled,
           orvdMissionID = [], orvdPhase = ''DISABLED'', orvdDroneRegistered = False,
           orvdTakeoffAuthorized = False, lastORVDTelemetryTs = Fin 0\<rparr>))"

definition proxyRequest_lim :: "lim_cfg \<Rightarrow> string \<Rightarrow> string \<Rightarrow> (lim_state, gmap option) prog" where
  "proxyRequest_lim c topic action =
     bind (ProxyRequest (limProxy c) topic action []) (\<lambda>r. case r of Inl _ \<Rightarrow> Ret None | Inr resp \<Rightarrow> Ret resp)"

text \<open>\<open>now := ...; if !ShouldRunInterval(now, &last, d) { return }\<close>: an unguarded read and write.\<close>

definition ifDue :: "(lim_state \<Rightarrow> float64) \<Rightarrow> (float64 \<Rightarrow> lim_state \<Rightarrow> lim_state) \<Rightarrow> float64
    \<Rightarrow> (lim_state, unit) prog \<Rightarrow> (lim_state, unit) prog" where
  "ifDue getTs setTs interval p =
     Now (\<lambda>now. readState (\<lambda>s.
       case ShouldRunInterval (seconds now) (getTs s) interval of
         (False, _) \<Rightarrow> Ret ()
       | (True, ts) \<Rightarrow> modify (setTs ts) p))"

definition pollNavigationIfDue :: "lim_cfg \<Rightarrow> (lim_state, unit) prog" where
  "pollNavigationIfDue c =
     ifDue lastNavPollTs (\<lambda>t s. s\<lparr>lastNavPollTs := t\<rparr>) (navPollIntervalSec c)
       (bind (proxyRequest_lim c (limNavigation c) ''get_state'') (\<lambda>nav.
          case nav of None \<Rightarrow> Ret () | Some n \<Rightarrow> modify (\<lambda>s. s\<lparr>limLastNav := Some n\<rparr>) (Ret ())))"

definition pollTelemetryIfDue :: "lim_cfg \<Rightarrow> (lim_state, unit) prog" where
  "pollTelemetryIfDue c =
     ifDue lastTelemetryPollTs (\<lambda>t s. s\<lparr>lastTelemetryPollTs := t\<rparr>) (telemetryPollIntervalSec c)
       (bind (proxyRequest_lim c (limTelemetry c) ''get_state'') (\<lambda>telem.
          case telem of None \<Rightarrow> Ret () | Some n \<Rightarrow> modify (\<lambda>s. s\<lparr>lastTelemetry := Some n\<rparr>) (Ret ())))"

definition pollORVDTelemetryIfDue :: "lim_cfg \<Rightarrow> (lim_state, unit) prog" where
  "pollORVDTelemetryIfDue c =
     (if orvdTopic (orvd c) = [] then Ret ()
      else ifDue lastORVDTelemetryTs (\<lambda>t s. s\<lparr>lastORVDTelemetryTs := t\<rparr>) (orvdTelemetryIntervalSec (orvd c))
        (readState (\<lambda>s. case limLastNav s of None \<Rightarrow> Ret () | Some nav \<Rightarrow> runORVDSendTelemetry c nav)))"

definition missionLoadResult :: "string \<Rightarrow> string \<times> string \<Rightarrow> (lim_state, hres) prog" where
  "missionLoadResult mid = (\<lambda>(status, errMsg).
     if status \<noteq> ORVDStatusAuthorized then
       reply [(''ok'', GBool False), (''error'', GStr (orElse errMsg ''orvd_denied'')), (''orvd_status'', GStr status)]
     else reply [(''ok'', GBool True), (''orvd_status'', GStr status), (''mission_id'', GStr mid)])"

definition handleMissionLoad :: "lim_cfg \<Rightarrow> lim_state handler" where
  "handleMissionLoad c m =
     (if \<not> IsTrustedSender m ''security_monitor'' then noReply
      else case get_map m ''payload'' of
        None \<Rightarrow> reply [(''ok'', GBool False), (''error'', GStr ''invalid_mission'')]
      | Some payload \<Rightarrow> (case get_map payload ''mission'' of
          None \<Rightarrow> reply [(''ok'', GBool False), (''error'', GStr ''invalid_mission'')]
        | Some mission \<Rightarrow>
            let mid = get_str mission ''mission_id'' in
            case validateMissionBounds mission (maxMissionAltM (orvd c)) of
              Some err \<Rightarrow>
                modify (\<lambda>s. s\<lparr>orvdStatus := ORVDStatusOutOfBounds, orvdMissionID := mid\<rparr>)
                 (andThen (limLog c ''LIMITER_MISSION_OUT_OF_BOUNDS'' (mid_entry mid @ [(''error'', GStr err)]))
                   (reply [(''ok'', GBool False), (''error'', GStr ''mission_out_of_bounds'')]))
            | None \<Rightarrow>
                modify (\<lambda>s. s\<lparr>orvdStatus := ORVDStatusPending, orvdMissionID := mid, orvdPhase := ''PENDING'',
                              orvdTakeoffAuthorized := False\<rparr>)
                 (bind (runORVDMissionLoad c mission) (\<lambda>r.
                   modify (\<lambda>s. (if fst r = ORVDStatusAuthorized then s\<lparr>limMission := Some mission\<rparr> else s)
                                 \<lparr>orvdStatus := fst r, orvdMissionID := mid\<rparr>)
                     (missionLoadResult mid r)))))"

definition isLimiterConfigSender :: "gmap \<Rightarrow> bool" where
  "isLimiterConfigSender m \<longleftrightarrow> IsTrustedSender m ''security_monitor'' \<or> IsTrustedSender m ''orvd''"

definition applyConfigPayload :: "gmap \<Rightarrow> lim_state \<Rightarrow> lim_state" where
  "applyConfigPayload payload s =
     (case get_map payload ''constraints'' of
        None \<Rightarrow> set_limits payload s | Some cs \<Rightarrow> set_limits cs (set_limits payload s))"

definition limits :: "lim_state \<Rightarrow> gmap" where
  "limits s = [(''max_distance_from_path_m'', GFloat (maxDistanceFromPathM s)),
               (''max_alt_deviation_m'', GFloat (maxAltDeviationM s))]"

definition handleUpdateConfig_lim :: "lim_cfg \<Rightarrow> lim_state handler" where
  "handleUpdateConfig_lim c m =
     (if \<not> isLimiterConfigSender m then noReply
      else case get_map m ''payload'' of
        None \<Rightarrow> reply [(''ok'', GBool False), (''error'', GStr ''invalid_payload'')]
      | Some payload \<Rightarrow> Atom (applyConfigPayload payload) (\<lambda>s.
          let l = limits (applyConfigPayload payload s) in
          andThen (if IsTrustedSender m ''orvd'' then limLog c ''ORVD_PUSH_UPDATE_CONFIG'' l else Ret ())
            (reply ((''ok'', GBool True) # l))))"

text \<open>The part of \<^verbatim>\<open>handleORVDTakeoff\<close> after the mission id is known.\<close>

definition takeoffFor :: "lim_cfg \<Rightarrow> string \<Rightarrow> (lim_state, hres) prog" where
  "takeoffFor c mid =
     (if mid = [] then reply [(''ok'', GBool False), (''error'', GStr ''no_mission'')]
      else readState (\<lambda>s.
        if orvdStatus s \<noteq> ORVDStatusAuthorized then
          reply [(''ok'', GBool False), (''error'', GStr ''orvd_not_authorized''),
                 (''orvd_status'', GStr (orvdStatus s))]
        else andThen (pollNavigationIfDue c)
          (bind (runORVDRequestTakeoff c mid) (\<lambda>(ok, errMsg).
            if \<not> ok then
              reply [(''ok'', GBool False), (''error'', GStr (orElse errMsg ''orvd_takeoff_denied''))]
            else reply [(''ok'', GBool True), (''orvd_takeoff_authorized'', GBool True),
                        (''mission_id'', GStr mid)]))))"

definition handleORVDTakeoff :: "lim_cfg \<Rightarrow> lim_state handler" where
  "handleORVDTakeoff c m =
     (if \<not> IsTrustedSender m ''security_monitor'' then noReply
      else let mid0 = get_str (nilmap (get_map m ''payload'')) ''mission_id'' in
        bind (if mid0 \<noteq> [] then Ret mid0 else readState (\<lambda>s. Ret (orvdMissionID s))) (takeoffFor c))"

definition handleORVDComplete :: "lim_cfg \<Rightarrow> lim_state handler" where
  "handleORVDComplete c m =
     (if \<not> IsTrustedSender m ''security_monitor'' then noReply
      else case get_map m ''payload'' of
        None \<Rightarrow> reply [(''ok'', GBool False), (''error'', GStr ''invalid_payload'')]
      | Some payload \<Rightarrow>
          let mid0 = get_str payload ''mission_id''; res = orElse (get_str payload ''result'') ''success'' in
          bind (if mid0 \<noteq> [] then Ret mid0 else readState (\<lambda>s. Ret (orvdMissionID s))) (\<lambda>mid.
            if mid = [] then reply [(''ok'', GBool False), (''error'', GStr ''no_mission'')]
            else andThen (runORVDCompleteMission c mid res)
              (reply [(''ok'', GBool True), (''mission_id'', GStr mid)])))"

definition handleRevokeTakeoff :: "lim_cfg \<Rightarrow> lim_state handler" where
  "handleRevokeTakeoff c m =
     (if \<not> IsTrustedSender m ''orvd'' then noReply
      else let d = get_str (nilmap (get_map m ''payload'')) ''drone_id'' in
        andThen (limLog c ''ORVD_REVOKE_TAKEOFF'' [(''drone_id'', GStr d)])
         (modify (\<lambda>s. s\<lparr>orvdTakeoffAuthorized := False\<rparr>)
           (andThen (publishOREmergencyFromORVD c ''takeoff_revoked'')
             (reply [(''ok'', GBool True), (''status'', GStr ''landing_required'')]))))"

definition handleGetState_lim :: "lim_state handler" where
  "handleGetState_lim _ = readState (\<lambda>s.
     reply ([(''state'', GStr (limState s))] @ limits s @
       [(''orvd_status'', GStr (orvdStatus s)), (''orvd_mission_id'', GStr (orvdMissionID s)),
        (''orvd_phase'', GStr (orvdPhase s)), (''orvd_takeoff_authorized'', GBool (orvdTakeoffAuthorized s)),
        (''mission_loaded'', GBool (limMission s \<noteq> None))]))"

definition half_turn :: "float64 \<Rightarrow> float64" where
  "half_turn x = fdiv (fmul x fpi) (Fin 180)"

definition haversineDistance_lim :: "libm \<Rightarrow> float64 \<Rightarrow> float64 \<Rightarrow> float64 \<Rightarrow> float64 \<Rightarrow> float64" where
  "haversineDistance_lim L lat1 lon1 lat2 lon2 =
     (let dLat = half_turn (fsub lat2 lat1); dLon = half_turn (fsub lon2 lon1);
          lat1Rad = half_turn lat1; lat2Rad = half_turn lat2;
          sLat = m_sin L (fdiv dLat (Fin 2)); sLon = m_sin L (fdiv dLon (Fin 2));
          a = fadd (fmul sLat sLat) (fmul (fmul (fmul (m_cos L lat1Rad) (m_cos L lat2Rad)) sLon) sLon);
          c = fmul (Fin 2) (m_atan2 L (m_sqrt L a) (m_sqrt L (fsub (Fin 1) a)))
      in fmul (Fin 6371000) c)"

definition publishEmergency :: "lim_cfg \<Rightarrow> float64 \<Rightarrow> float64 \<Rightarrow> (lim_state, unit) prog" where
  "publishEmergency c distanceM altDev = readState (\<lambda>s.
     let details = [(''distance_from_path_m'', GFloat distanceM),
                    (''max_distance_from_path_m'', GFloat (maxDistanceFromPathM s)),
                    (''alt_deviation_m'', GFloat altDev), (''max_alt_deviation_m'', GFloat (maxAltDeviationM s))] in
     andThen (limLog c ''LIMITER_EMERGENCY_LAND_REQUIRED'' details)
      (andThen (case limLastNav s of
                  Some nav \<Rightarrow> if orvdMissionID s \<noteq> [] then
                      reportORVDIncident c (orvdMissionID s) ''geofence_violation'' ''critical''
                        (getFloat_lim nav ''lat'') (getFloat_lim nav ''lon'')
                    else Ret ()
                | None \<Rightarrow> Ret ())
        (bind (ProxyPublishAsync (limProxy c) (limEmergency c) ''limiter_event'' (emergency_payload details))
          (\<lambda>_. Ret ()))))"

definition classify :: "float64 \<Rightarrow> float64 \<Rightarrow> float64 \<Rightarrow> float64 \<Rightarrow> string" where
  "classify distanceM altDev maxDistance maxAlt =
     (if fgt distanceM maxDistance \<or> fgt altDev maxAlt then StateEmergency
      else if fgt distanceM (fmul (Fin (1 / 2)) maxDistance) \<or> fgt altDev (fmul (Fin (1 / 2)) maxAlt) then StateWarning
      else StateNormal)"

text \<open>The last step of the mission, if it is a map, and the two deviations from it.\<close>

definition deviations :: "libm \<Rightarrow> gmap \<Rightarrow> gmap \<Rightarrow> (float64 \<times> float64) option" where
  "deviations L mission nav =
     (let steps = get_list mission ''steps'' in
      if steps = [] then None
      else case last steps of
        GMap target \<Rightarrow>
          Some (haversineDistance_lim L (getFloat_lim nav ''lat'') (getFloat_lim nav ''lon'')
                  (getFloat_lim target ''lat'') (getFloat_lim target ''lon''),
                fabs (fsub (getFloat_lim nav ''alt_m'') (getFloat_lim target ''alt_m'')))
      | _ \<Rightarrow> None)"

definition recalculate :: "libm \<Rightarrow> lim_cfg \<Rightarrow> (lim_state, unit) prog" where
  "recalculate L c = readState (\<lambda>s.
     case (limMission s, limLastNav s) of
       (Some mission, Some nav) \<Rightarrow> (case deviations L mission nav of
           None \<Rightarrow> Ret ()
         | Some (distanceM, altDev) \<Rightarrow>
             let newState = classify distanceM altDev (maxDistanceFromPathM s) (maxAltDeviationM s) in
             if newState \<noteq> limState s then
               modify (\<lambda>s. s\<lparr>limState := newState\<rparr>)
                (if newState = StateEmergency then publishEmergency c distanceM altDev
                 else if newState = StateWarning then
                   limLog c ''LIMITER_DEVIATION_WARNING''
                     [(''distance_m'', GFloat distanceM), (''alt_deviation_m'', GFloat altDev)]
                 else Ret ())
             else Ret ())
     | _ \<Rightarrow> Ret ())"

definition lim_controlStep :: "libm \<Rightarrow> lim_cfg \<Rightarrow> (lim_state, unit) prog" where
  "lim_controlStep L c =
     andThen (pollNavigationIfDue c) (andThen (pollTelemetryIfDue c)
       (andThen (pollORVDTelemetryIfDue c) (recalculate L c)))"

definition lim_registerHandlers :: "lim_cfg \<Rightarrow> (string \<times> lim_state handler) list" where
  "lim_registerHandlers c =
     [(''mission_load'', handleMissionLoad c), (''update_config'', handleUpdateConfig_lim c),
      (''get_state'', handleGetState_lim), (''orvd_takeoff'', handleORVDTakeoff c),
      (''orvd_complete'', handleORVDComplete c), (''revoke_takeoff'', handleRevokeTakeoff c)]"

definition lim_dispatch :: "lim_cfg \<Rightarrow> gmap \<Rightarrow> (lim_state, unit) prog" where
  "lim_dispatch c = handleMessage (limBase c) (registered (limBase c) (lim_registerHandlers c))"

text \<open>Everything that runs in the limiter's process: handler calls and rounds of the control loop.\<close>

definition lim_threads :: "libm \<Rightarrow> lim_cfg \<Rightarrow> (lim_state, unit) prog set" where
  "lim_threads L c = range (lim_dispatch c) \<union> {lim_controlStep L c}"

end
