(* ===== verification/Limiter_Safety.thy ===== *)
theory Limiter_Safety
  imports Limiter
begin

text \<open>
  Correctness of the limiter: its contract under every schedule of handlers and control rounds,
  the mission bounds, the classification of deviations, and the clearances of the traffic
  service.
\<close>

section \<open>Mission bounds\<close>

definition in_interval :: "float64 \<Rightarrow> float64 \<Rightarrow> float64 \<Rightarrow> bool" where
  "in_interval lo v hi \<longleftrightarrow> v = NaN \<or> fle lo v \<and> fle v hi"

text \<open>A waypoint inside the envelope. NaN passes; a message that came over the broker has none.\<close>

definition step_ok :: "float64 \<Rightarrow> gval \<Rightarrow> bool" where
  "step_ok maxAlt v \<longleftrightarrow> (\<exists>st lat lon alt. v = GMap st \<and> stepFloat st ''lat'' = Some lat \<and>
     stepFloat st ''lon'' = Some lon \<and> stepFloat st ''alt_m'' = Some alt \<and>
     in_interval (Fin (-90)) lat (Fin 90) \<and> in_interval (Fin (-180)) lon (Fin 180) \<and>
     in_interval (Fin 0) alt maxAlt)"

lemma fabs_interval: "fgt (fabs v) (Fin b) \<longleftrightarrow> \<not> in_interval (Fin (- b)) v (Fin b)"
  by (cases v) (auto simp: in_interval_def fgt_def fle_def feq_def)

lemma alt_interval: "maxAlt \<noteq> NaN \<Longrightarrow> flt v (Fin 0) \<or> fgt v maxAlt \<longleftrightarrow> \<not> in_interval (Fin 0) v maxAlt"
  by (cases v; cases maxAlt) (auto simp: in_interval_def fgt_def fle_def feq_def)

lemma step_ok_GMap:
  "step_ok maxAlt (GMap st) =
     (case (stepFloat st ''lat'', stepFloat st ''lon'', stepFloat st ''alt_m'') of
        (Some lat, Some lon, Some alt) \<Rightarrow> in_interval (Fin (-90)) lat (Fin 90) \<and>
          in_interval (Fin (-180)) lon (Fin 180) \<and> in_interval (Fin 0) alt maxAlt
      | _ \<Rightarrow> False)"
  by (auto simp: step_ok_def split: option.splits)

lemma validate_steps_iff:
  "maxAlt \<noteq> NaN \<Longrightarrow> validate_steps maxAlt i steps = None \<longleftrightarrow> list_all (step_ok maxAlt) steps"
proof (induction maxAlt i steps rule: validate_steps.induct)
  case (2 maxAlt i step ss)
  then show ?case
    by (auto simp: step_ok_GMap fabs_interval alt_interval [OF 2(2)] split: option.splits)
qed (auto simp: step_ok_def)

lemma validate_iff:
  "maxAlt \<noteq> NaN \<Longrightarrow> validateMissionBounds m maxAlt = None \<longleftrightarrow>
     get_list m ''steps'' \<noteq> [] \<and> list_all (step_ok maxAlt) (get_list m ''steps'')"
  by (simp add: validateMissionBounds_def Let_def validate_steps_iff)

section \<open>Contract\<close>

definition lim_inv :: "lim_cfg \<Rightarrow> lim_state \<Rightarrow> bool" where
  "lim_inv c s \<longleftrightarrow>
     (\<forall>m. limMission s = Some m \<longrightarrow> validateMissionBounds m (maxMissionAltM (orvd c)) = None) \<and>
     positive (maxDistanceFromPathM s) \<and> positive (maxAltDeviationM s) \<and>
     limState s \<in> {StateNormal, StateWarning, StateEmergency}"

text \<open>A mission is loaded only together with the status AUTHORIZED; no handler touches the flag of the component base.\<close>

definition lim_guar :: "lim_state \<Rightarrow> lim_state \<Rightarrow> bool" where
  "lim_guar s s' \<longleftrightarrow> running s' = running s \<and> (limMission s' = limMission s \<or> orvdStatus s' = ORVDStatusAuthorized)"

definition lim_wired :: "lim_cfg \<Rightarrow> bool" where
  "lim_wired c \<longleftrightarrow> pxSender (limProxy c) = bcID (limBase c) \<and> alProxy (limAudit c) = limProxy c \<and>
     pxSender (orvdProxy (orvd c)) = bcID (limBase c) \<and> pxMonitor (orvdProxy (orvd c)) = pxMonitor (limProxy c)"

abbreviation lim_sat :: "lim_cfg \<Rightarrow> (lim_state, 'a) prog \<Rightarrow> bool" where
  "lim_sat c p \<equiv> sat (lim_inv c) lim_guar (via_monitor (bcID (limBase c)) (pxMonitor (limProxy c))) anyResult p"

lemma lim_guar_refl [simp]: "lim_guar s s"
  by (simp add: lim_guar_def)

lemma lim_out_proxy:
  "lim_wired c \<Longrightarrow> via_monitor (bcID (limBase c)) (pxMonitor (limProxy c)) (pxMonitor (limProxy c)) (proxy_msg (limProxy c) k t a d)"
  "lim_wired c \<Longrightarrow> via_monitor (bcID (limBase c)) (pxMonitor (limProxy c)) (pxMonitor (alProxy (limAudit c))) (proxy_msg (alProxy (limAudit c)) k t a d)"
  "lim_wired c \<Longrightarrow> via_monitor (bcID (limBase c)) (pxMonitor (limProxy c)) (pxMonitor (orvdProxy (orvd c))) (proxy_msg (orvdProxy (orvd c)) k t a d)"
  by (simp_all add: lim_wired_def)

text \<open>The fields the invariant and the guarantee do not read.\<close>

lemma lim_frame [simp]:
  "lim_inv c (s\<lparr>orvdPhase := x\<rparr>) = lim_inv c s" "lim_inv c (s\<lparr>orvdStatus := x\<rparr>) = lim_inv c s"
  "lim_inv c (s\<lparr>orvdMissionID := x\<rparr>) = lim_inv c s" "lim_inv c (s\<lparr>orvdTakeoffAuthorized := b\<rparr>) = lim_inv c s"
  "lim_inv c (s\<lparr>orvdDroneRegistered := b\<rparr>) = lim_inv c s" "lim_inv c (s\<lparr>limLastNav := n\<rparr>) = lim_inv c s"
  "lim_inv c (s\<lparr>lastTelemetry := n\<rparr>) = lim_inv c s" "lim_inv c (s\<lparr>lastNavPollTs := t\<rparr>) = lim_inv c s"
  "lim_inv c (s\<lparr>lastTelemetryPollTs := t\<rparr>) = lim_inv c s" "lim_inv c (s\<lparr>lastORVDTelemetryTs := t\<rparr>) = lim_inv c s"
  by (simp_all add: lim_inv_def)

lemma positive_or_pos: "positive x \<Longrightarrow> positive (positive_or m k x)"
  by (auto simp: positive_or_def split: option.splits)

lemma set_limits_inv: "lim_inv c s \<Longrightarrow> lim_inv c (set_limits m s)"
  by (simp add: lim_inv_def set_limits_def positive_or_pos)

lemma limMission_config [simp]:
  "limMission (set_limits m s) = limMission s" "limMission (applyConfigPayload p s) = limMission s"
  "running (set_limits m s) = running s" "running (applyConfigPayload p s) = running s"
  by (simp_all add: set_limits_def applyConfigPayload_def split: option.splits)

lemma applyConfigPayload_inv:
  "lim_inv c s \<Longrightarrow> lim_inv c (applyConfigPayload p s) \<and> lim_guar s (applyConfigPayload p s)"
  by (auto simp: applyConfigPayload_def lim_guar_def set_limits_inv split: option.splits)

lemma lim_sat_call: "lim_wired c \<Longrightarrow> lim_sat c (callORVD c a p)"
  by (auto simp: callORVD_def lim_out_proxy intro!: sat_ProxyRequest)

lemma lim_sat_deny: "lim_wired c \<Longrightarrow> lim_sat c (orvdDeny c mid st x)"
  by (auto simp: orvdDeny_def setPhase_def lim_out_proxy lim_guar_def intro!: sat_andThen)

lemma lim_sat_authorize: "lim_wired c \<Longrightarrow> lim_sat c (authorizeMission c mid)"
  by (auto simp: authorizeMission_def lim_sat_call lim_sat_deny setPhase_def lim_out_proxy lim_guar_def
      split: sum.splits intro!: sat_bind_any sat_andThen)

lemma lim_sat_registerMission: "lim_wired c \<Longrightarrow> lim_sat c (registerMission c m mid)"
  unfolding registerMission_def
  by (auto simp: lim_sat_call lim_sat_deny lim_sat_authorize setPhase_def lim_out_proxy lim_guar_def Let_def
      split: sum.splits intro!: sat_bind_any sat_andThen)

lemma lim_sat_registerDrone: "lim_wired c \<Longrightarrow> lim_sat c (registerDrone c m mid)"
  unfolding registerDrone_def
  by (auto simp: lim_sat_call lim_sat_deny lim_sat_registerMission lim_out_proxy lim_guar_def
      split: sum.splits intro!: sat_bind_any sat_andThen)

lemma lim_sat_missionLoad: "lim_wired c \<Longrightarrow> lim_sat c (runORVDMissionLoad c m)"
  unfolding runORVDMissionLoad_def
  by (auto simp: lim_sat_registerDrone lim_sat_registerMission lim_out_proxy lim_guar_def Let_def
      intro!: sat_andThen)

lemma lim_sat_incident: "lim_wired c \<Longrightarrow> lim_sat c (reportORVDIncident c mid ty sev lat lon)"
  by (auto simp: reportORVDIncident_def lim_sat_call intro!: sat_bind_any)

lemma lim_sat_orvdEmergency: "lim_wired c \<Longrightarrow> lim_sat c (publishOREmergencyFromORVD c r)"
  by (auto simp: publishOREmergencyFromORVD_def Let_def lim_out_proxy intro!: sat_bind_any sat_andThen)

lemma lim_sat_telemetry: "lim_wired c \<Longrightarrow> lim_sat c (runORVDSendTelemetry c nav)"
  unfolding runORVDSendTelemetry_def
  by (auto simp: lim_sat_call lim_sat_incident lim_sat_orvdEmergency lim_out_proxy Let_def
      split: sum.splits intro!: sat_bind_any sat_andThen)

lemma lim_sat_granted: "lim_wired c \<Longrightarrow> lim_sat c (takeoffGranted c mid x)"
  unfolding takeoffGranted_def
  by (auto simp: lim_sat_telemetry lim_out_proxy lim_guar_def split: option.splits intro!: sat_andThen)

lemma lim_sat_takeoff: "lim_wired c \<Longrightarrow> lim_sat c (runORVDRequestTakeoff c mid)"
  unfolding runORVDRequestTakeoff_def takeoffAnswer_def
  by (auto simp: lim_sat_call lim_sat_granted lim_out_proxy Let_def split: sum.splits
      intro!: sat_bind_any sat_andThen)

lemma lim_sat_complete: "lim_wired c \<Longrightarrow> lim_sat c (runORVDCompleteMission c mid r)"
  unfolding runORVDCompleteMission_def
  by (auto simp: lim_sat_call lim_out_proxy lim_guar_def Let_def split: sum.splits intro!: sat_bind_any)

lemma lim_sat_proxyRequest: "lim_wired c \<Longrightarrow> lim_sat c (proxyRequest_lim c t a)"
  by (auto simp: proxyRequest_lim_def lim_out_proxy split: sum.splits intro!: sat_bind_any sat_ProxyRequest)

lemma lim_sat_polls:
  assumes "lim_wired c"
  shows "lim_sat c (pollNavigationIfDue c)" "lim_sat c (pollTelemetryIfDue c)" "lim_sat c (pollORVDTelemetryIfDue c)"
  unfolding pollNavigationIfDue_def pollTelemetryIfDue_def pollORVDTelemetryIfDue_def ifDue_def
  by (auto simp: lim_sat_proxyRequest lim_sat_telemetry assms lim_guar_def
      split: prod.splits bool.splits option.splits intro!: sat_bind_any)

lemma lim_sat_publishEmergency: "lim_wired c \<Longrightarrow> lim_sat c (publishEmergency c d a)"
  unfolding publishEmergency_def
  by (auto simp: lim_sat_incident lim_out_proxy Let_def split: option.splits intro!: sat_bind_any sat_andThen)

lemma classify_cases: "classify d a x y \<in> {StateNormal, StateWarning, StateEmergency}"
  by (simp add: classify_def)

lemma lim_sat_recalculate: "lim_wired c \<Longrightarrow> lim_sat c (recalculate L c)"
  unfolding recalculate_def
  using classify_cases
  by (auto simp: lim_sat_publishEmergency lim_out_proxy lim_inv_def lim_guar_def Let_def split: option.splits)

lemma lim_sat_step: "lim_wired c \<Longrightarrow> lim_sat c (lim_controlStep L c)"
  by (simp add: lim_controlStep_def lim_sat_polls lim_sat_recalculate sat_andThen)

lemma lim_sat_handleMissionLoad: "lim_wired c \<Longrightarrow> lim_sat c (handleMissionLoad c m)"
  unfolding handleMissionLoad_def missionLoadResult_def
  by (auto simp: lim_sat_missionLoad lim_out_proxy lim_guar_def Let_def lim_inv_def
      split: option.splits intro!: sat_bind_any sat_andThen)

lemma lim_sat_handlers:
  assumes "lim_wired c" "(a, h) \<in> set (lim_registerHandlers c)"
  shows "lim_sat c (h m)"
proof -
  consider "h = handleMissionLoad c" | "h = handleUpdateConfig_lim c" | "h = handleGetState_lim"
    | "h = handleORVDTakeoff c" | "h = handleORVDComplete c" | "h = handleRevokeTakeoff c"
    using assms(2) by (auto simp: lim_registerHandlers_def)
  then show ?thesis
    by cases (auto simp: lim_sat_handleMissionLoad handleUpdateConfig_lim_def handleGetState_lim_def
        handleORVDTakeoff_def takeoffFor_def handleORVDComplete_def handleRevokeTakeoff_def assms(1) applyConfigPayload_inv
        lim_sat_polls lim_sat_takeoff lim_sat_complete lim_sat_orvdEmergency lim_out_proxy lim_guar_def Let_def
        split: option.splits intro!: sat_bind_any sat_andThen)
qed

lemma lim_sat_threads: "lim_wired c \<Longrightarrow> p \<in> lim_threads L c \<Longrightarrow> lim_sat c p"
  unfolding lim_threads_def lim_dispatch_def
  by (auto simp: lim_sat_step intro!: sat_registered lim_sat_handlers)

lemma New_lim_wired [simp]: "lim_wired (fst (New_lim h cfg))"
  by (simp add: New_lim_def Let_def lim_wired_def newBase_def loadORVDConfig_def)

lemma New_lim_inv: "lim_inv (fst (New_lim h cfg)) (snd (New_lim h cfg))"
  using env_float_ok [of positive] by (simp add: New_lim_def Let_def lim_inv_def positive_def [of "Fin _"])

interpretation limiter: proxied_component "lim_threads L (fst (New_lim h cfg))" "snd (New_lim h cfg)"
    "lim_inv (fst (New_lim h cfg))" lim_guar "bcID (limBase (fst (New_lim h cfg)))"
    "pxMonitor (limProxy (fst (New_lim h cfg)))" for L h cfg
  by unfold_locales (auto simp: New_lim_inv lim_sat_threads)

interpretation lim_cmds: guarded_component "limBase c" "lim_registerHandlers c"
    "{''mission_load'', ''orvd_takeoff'', ''orvd_complete''}" "{''security_monitor''}" for c
  by unfold_locales (auto simp: lim_registerHandlers_def handleMissionLoad_def handleORVDTakeoff_def
      handleORVDComplete_def)

interpretation lim_revoke: guarded_component "limBase c" "lim_registerHandlers c"
    "{''revoke_takeoff''}" "{''orvd''}" for c
  by unfold_locales (auto simp: lim_registerHandlers_def handleRevokeTakeoff_def IsTrustedSender_iff)

section \<open>Geofence\<close>

text \<open>The message that calls the emergency component.\<close>

definition alarm :: "lim_cfg \<Rightarrow> gmap \<Rightarrow> string \<times> gmap" where
  "alarm c details =
     (pxMonitor (limProxy c), proxy_msg (limProxy c) ''proxy_publish'' (limEmergency c) ''limiter_event''
        (emergency_payload details))"

definition breach_details :: "lim_state \<Rightarrow> float64 \<Rightarrow> float64 \<Rightarrow> gmap" where
  "breach_details s d a =
     [(''distance_from_path_m'', GFloat d), (''max_distance_from_path_m'', GFloat (maxDistanceFromPathM s)),
      (''alt_deviation_m'', GFloat a), (''max_alt_deviation_m'', GFloat (maxAltDeviationM s))]"

lemma run_log [simp]:
  "run E (limLog c ev d) s tr =
     (let m = proxy_msg (alProxy (limAudit c)) ''proxy_publish'' (alJournal (limAudit c)) ''LOG_EVENT''
            [(''event'', GStr ev), (''source'', GStr (alSource (limAudit c))), (''details'', GMap d)];
          t = pxMonitor (alProxy (limAudit c))
      in ((), s, tr @ [Published t m (on_pub E tr t m)]))"
  by (simp add: logToJournal_def LogEvent_def ProxyPublishAsync_def Let_def)

lemma run_incident:
  "\<exists>new. run E (reportORVDIncident c mid ty sev lat lon) s tr = ((), s, tr @ new)"
  by (cases "orvdTopic (orvd c) = [] \<or> orvdMockSuccess (orvd c)")
     (auto simp: reportORVDIncident_def callORVD_def ProxyRequest_def Let_def)

lemma run_publishEmergency:
  obtains new where "run E (publishEmergency c d a) s tr = ((), s, tr @ new)"
    and "alarm c (breach_details s d a) \<in> set (sent new)"
proof -
  define p where "p = (case limLastNav s of
      Some nav \<Rightarrow> if orvdMissionID s \<noteq> [] then
          reportORVDIncident c (orvdMissionID s) ''geofence_violation'' ''critical''
            (getFloat_lim nav ''lat'') (getFloat_lim nav ''lon'') else Ret ()
    | None \<Rightarrow> Ret ())"
  obtain lg where lg: "run E (limLog c ''LIMITER_EMERGENCY_LAND_REQUIRED'' (breach_details s d a)) s tr = ((), s, tr @ [lg])"
    by (simp add: Let_def)
  have "\<exists>new. run E p s (tr @ [lg]) = ((), s, (tr @ [lg]) @ new)"
  proof (cases "limLastNav s")
    case None
    then show ?thesis by (simp add: p_def)
  next
    case (Some nav)
    show ?thesis
      using run_incident [of E c "orvdMissionID s" "''geofence_violation''" "''critical''"
          "getFloat_lim nav ''lat''" "getFloat_lim nav ''lon''" s "tr @ [lg]"]
      by (simp add: p_def Some)
  qed
  then obtain new where new: "run E p s (tr @ [lg]) = ((), s, (tr @ [lg]) @ new)" by blast
  let ?e = "on_pub E (tr @ lg # new) (fst (alarm c (breach_details s d a))) (snd (alarm c (breach_details s d a)))"
  have "run E (publishEmergency c d a) s tr =
      ((), s, tr @ (lg # new @ [Published (fst (alarm c (breach_details s d a))) (snd (alarm c (breach_details s d a))) ?e]))"
    unfolding publishEmergency_def breach_details_def [symmetric] Let_def
    by (simp add: lg new [unfolded p_def] ProxyPublishAsync_def alarm_def Let_def del: run_log)
  then show ?thesis by (rule that) (simp add: sent_append [of "lg # new", simplified])
qed

lemma breach_details_state [simp]: "breach_details (s\<lparr>limState := n\<rparr>) d a = breach_details s d a"
  by (simp add: breach_details_def)

lemma alarm_not_log: "alarm c x \<noteq> (t, proxy_msg p k j ''LOG_EVENT'' d)"
  by (simp add: alarm_def proxy_msg_def)

lemma run_recalculate:
  assumes "limMission s = Some mission" and "limLastNav s = Some nav"
    and "deviations L mission nav = Some (d, a)"
  shows "limState (final E (recalculate L c) s) = classify d a (maxDistanceFromPathM s) (maxAltDeviationM s) \<and>
     (alarm c (breach_details s d a) \<in> set (outputs E (recalculate L c) s) \<longleftrightarrow>
        classify d a (maxDistanceFromPathM s) (maxAltDeviationM s) = StateEmergency \<and> limState s \<noteq> StateEmergency)"
proof (cases "classify d a (maxDistanceFromPathM s) (maxAltDeviationM s) = StateEmergency \<and> limState s \<noteq> StateEmergency")
  case True
  obtain new where "run E (publishEmergency c d a) (s\<lparr>limState := StateEmergency\<rparr>) [] =
      ((), s\<lparr>limState := StateEmergency\<rparr>, [] @ new)" "alarm c (breach_details s d a) \<in> set (sent new)"
    using run_publishEmergency [of E c d a "s\<lparr>limState := StateEmergency\<rparr>" "[]"] by auto
  then show ?thesis using True by (auto simp: recalculate_def assms run_views Let_def)
next
  case False
  then show ?thesis
    by (auto simp: recalculate_def assms run_views Let_def alarm_not_log)
qed

text \<open>C10. Geofence supervision. One evaluation with a loaded mission and a known position puts the limiter
  into the state of the measured deviations: EMERGENCY when the distance or the altitude
  deviation exceeds its limit, WARNING when one exceeds half of it, NORMAL otherwise. It calls the
  emergency component exactly when it enters EMERGENCY.\<close>

theorem geofence_supervision:
  assumes "limMission s = Some mission" and "limLastNav s = Some nav"
    and "deviations L mission nav = Some (d, a)"
  shows "let s' = final E (recalculate L c) s in
     (limState s' = StateEmergency \<longleftrightarrow> fgt d (maxDistanceFromPathM s) \<or> fgt a (maxAltDeviationM s)) \<and>
     (limState s' = StateWarning \<longleftrightarrow> limState s' \<noteq> StateEmergency \<and>
        (fgt d (fmul (Fin (1/2)) (maxDistanceFromPathM s)) \<or> fgt a (fmul (Fin (1/2)) (maxAltDeviationM s)))) \<and>
     (limState s' \<in> {StateNormal, StateWarning, StateEmergency}) \<and>
     (alarm c (breach_details s d a) \<in> set (outputs E (recalculate L c) s) \<longleftrightarrow>
        limState s' = StateEmergency \<and> limState s \<noteq> StateEmergency)"
proof -
  have "StateNormal \<noteq> StateWarning" "StateNormal \<noteq> StateEmergency" "StateWarning \<noteq> StateEmergency"
    by (simp_all add: StateNormal_def StateWarning_def StateEmergency_def)
  then show ?thesis using run_recalculate [OF assms, of E c] by (auto simp: Let_def classify_def)
qed

definition demo_climb :: gmap where
  "demo_climb = [(''mission_id'', GStr ''m1''), (''steps'', GList [
     GMap [(''lat'', GFloat (Fin 55)), (''lon'', GFloat (Fin 37)), (''alt_m'', GFloat (Fin 0))],
     GMap [(''lat'', GFloat (Fin 55)), (''lon'', GFloat (Fin 37)), (''alt_m'', GFloat (Fin 100))]])]"

definition demo_pad :: gmap where
  "demo_pad = [(''lat'', GFloat (Fin 55)), (''lon'', GFloat (Fin 37)), (''alt_m'', GFloat (Fin 0))]"

definition demo_lim :: "lim_cfg \<times> lim_state" where
  "demo_lim = New_lim demo_host (FromEnv demo_host)"

definition demo_flying :: lim_state where
  "demo_flying = (snd demo_lim)\<lparr>limMission := Some demo_climb, limLastNav := Some demo_pad\<rparr>"

lemma round64_m100: "round64 (- 100) = Fin (- 100)"
  by code_simp

lemma round64_10: "round64 10 = Fin 10"
  by code_simp

lemma demo_climb_deviation:
  "\<exists>d. deviations L demo_climb demo_pad = Some (d, Fin 100)"
  by (simp add: deviations_def demo_climb_def demo_pad_def get_list_def getFloat_lim_def fsub_def round64_m100)

lemma demo_flying_limits:
  "limMission demo_flying = Some demo_climb" "limLastNav demo_flying = Some demo_pad"
  "maxAltDeviationM demo_flying = Fin 20" "limState demo_flying = StateNormal"
  by (simp_all add: demo_flying_def demo_lim_def New_lim_def Let_def env_float_def demo_host_def)

theorem geofence_supervision_witness:
  "limState (final demo_env (recalculate demo_libm (fst demo_lim)) demo_flying) = StateEmergency"
proof -
  obtain d where "deviations demo_libm demo_climb demo_pad = Some (d, Fin 100)" using demo_climb_deviation by blast
  from geofence_supervision [OF demo_flying_limits(1,2) this, of demo_env "fst demo_lim"]
  show ?thesis by (simp add: Let_def demo_flying_limits)
qed

text \<open>The limiter measures the distance to the last waypoint, not to the path: a drone that stands
  exactly on the first waypoint of a climb is put into EMERGENCY because the last waypoint
  is higher than the limit, whatever the elementary functions return.\<close>

theorem geofence_measures_last_waypoint:
  "hd (get_list demo_climb ''steps'') = GMap demo_pad \<and>
   limState (final E (recalculate L (fst demo_lim)) demo_flying) = StateEmergency"
proof -
  obtain d where "deviations L demo_climb demo_pad = Some (d, Fin 100)" using demo_climb_deviation by blast
  from run_recalculate [OF demo_flying_limits(1,2) this, of E "fst demo_lim"]
  show ?thesis by (simp add: classify_def demo_flying_limits demo_climb_def demo_pad_def get_list_def)
qed

text \<open>A distance that is not a number is no deviation: when the position makes the haversine
  formula yield NaN and the altitude is within half of its limit, the limiter is NORMAL.\<close>

theorem geofence_ignores_NaN:
  assumes "limMission s = Some mission" and "limLastNav s = Some nav"
    and "deviations L mission nav = Some (NaN, a)"
    and "\<not> fgt a (maxAltDeviationM s)" and "\<not> fgt a (fmul (Fin (1/2)) (maxAltDeviationM s))"
  shows "limState (final E (recalculate L c) s) = StateNormal"
  using run_recalculate [OF assms(1-3), of E c] assms(4,5) by (simp add: classify_def fgt_def)

definition demo_far :: gmap where
  "demo_far = [(''lat'', GFloat PInf), (''lon'', GFloat (Fin 37)), (''alt_m'', GFloat (Fin 100))]"

definition demo_nan_libm :: libm where
  "demo_nan_libm = demo_libm\<lparr>m_sin := (\<lambda>_. NaN), m_atan2 := (\<lambda>_ _. NaN)\<rparr>"

lemma fmul_NaN [simp]: "fmul x NaN = NaN" "fmul NaN x = NaN"
  by (cases x; simp)+

lemma fadd_NaN [simp]: "fadd NaN x = NaN"
  by simp

theorem geofence_ignores_NaN_witness:
  "limState (final demo_env (recalculate demo_nan_libm (fst demo_lim)) (demo_flying\<lparr>limLastNav := Some demo_far\<rparr>)) =
     StateNormal"
proof (rule geofence_ignores_NaN)
  show "limMission (demo_flying\<lparr>limLastNav := Some demo_far\<rparr>) = Some demo_climb" by (simp add: demo_flying_limits)
  show "limLastNav (demo_flying\<lparr>limLastNav := Some demo_far\<rparr>) = Some demo_far" by simp
  show "deviations demo_nan_libm demo_climb demo_far = Some (NaN, Fin 0)"
    by (simp add: deviations_def demo_climb_def demo_far_def get_list_def getFloat_lim_def fsub_def
        haversineDistance_lim_def demo_nan_libm_def demo_libm_def Let_def)
qed (simp_all add: demo_flying_limits fgt_def round64_10)

section \<open>Missions\<close>

text \<open>C11. Only missions inside the envelope are loaded. In every reachable state a loaded mission has
  waypoints, each with a latitude within 90, a longitude within 180 and an altitude
  between 0 and the configured maximum; and the limits in force are positive.\<close>

theorem loaded_mission_in_bounds:
  assumes "(c, s0) = New_lim h cfg" and "reachable (lim_threads L c) s0 s ps tr"
    and "limMission s = Some m"
  shows "get_list m ''steps'' \<noteq> [] \<and> list_all (step_ok (maxMissionAltM (orvd c))) (get_list m ''steps'') \<and>
     positive (maxDistanceFromPathM s) \<and> positive (maxAltDeviationM s)"
proof -
  from assms(1) have eqs: "c = fst (New_lim h cfg)" "s0 = snd (New_lim h cfg)"
    by (metis fst_conv) (metis assms(1) snd_conv)
  with assms(2) have inv: "lim_inv c s" using limiter.invariant [of L h cfg s ps tr] by simp
  have "positive (maxMissionAltM (orvd c))"
    by (simp add: eqs New_lim_def Let_def loadORVDConfig_def, rule env_float_ok, simp add: positive_def)
  then have "maxMissionAltM (orvd c) \<noteq> NaN" by (auto simp: positive_def fgt_def)
  with inv assms(3) show ?thesis by (simp add: lim_inv_def validate_iff)
qed

definition demo_load :: gmap where
  "demo_load = [(''action'', GStr ''mission_load''), (''sender'', GStr ''security_monitor''),
     (''payload'', GMap [(''mission'', GMap demo_climb)])]"

lemma lim_load_handler:
  "map_of (registered (limBase c) (lim_registerHandlers c)) ''mission_load'' = Some (handleMissionLoad c)"
  by (rule map_of_registered) (simp_all add: lim_registerHandlers_def)

lemma demo_climb_valid: "validateMissionBounds demo_climb (Fin 5000) = None"
  by (simp add: validateMissionBounds_def demo_climb_def get_list_def stepFloat_def fgt_def)

lemma demo_orvd: "orvdTopic (orvd (fst demo_lim)) = []" "maxMissionAltM (orvd (fst demo_lim)) = Fin 5000"
  by (simp_all add: demo_lim_def New_lim_def Let_def loadORVDConfig_def demo_host_def env_float_def)

lemma demo_load_mission: "limMission (final E (lim_dispatch (fst demo_lim) demo_load) (snd demo_lim)) = Some demo_climb"
  by (simp add: lim_dispatch_def final_handleMessage lim_load_handler demo_load_def get_str_def)
     (simp add: handleMissionLoad_def IsTrustedSender_iff get_str_def get_map_def demo_orvd demo_climb_valid
        runORVDMissionLoad_def Let_def final_def missionLoadResult_def)

theorem loaded_mission_in_bounds_witness:
  "\<exists>s :: lim_state. limMission s = Some demo_climb \<and> list_all (step_ok (Fin 5000)) (get_list demo_climb ''steps'')"
proof -
  have n: "(fst demo_lim, snd demo_lim) = New_lim demo_host (FromEnv demo_host)" by (simp add: demo_lim_def)
  have "lim_dispatch (fst demo_lim) demo_load \<in> lim_threads demo_libm (fst demo_lim)" by (simp add: lim_threads_def)
  note r = final_reachable [OF this, of "snd demo_lim" demo_env]
  have l: "limMission (final demo_env (lim_dispatch (fst demo_lim) demo_load) (snd demo_lim)) = Some demo_climb"
    by (rule demo_load_mission)
  have "list_all (step_ok (maxMissionAltM (orvd (fst demo_lim)))) (get_list demo_climb ''steps'')"
    using loaded_mission_in_bounds [OF n r l] by simp
  then have "list_all (step_ok (Fin 5000)) (get_list demo_climb ''steps'')" by (simp only: demo_orvd)
  with l show ?thesis by blast
qed

section \<open>Clearances\<close>

text \<open>The traffic service answered a request with the given status.\<close>

definition answered :: "lim_cfg \<Rightarrow> string \<Rightarrow> string \<Rightarrow> event list \<Rightarrow> bool" where
  "answered c action status tr \<longleftrightarrow> (\<exists>d r resp.
     Requested (pxMonitor (orvdProxy (orvd c)))
       (proxy_msg (orvdProxy (orvd c)) ''proxy_request'' (orvdTopic (orvd c)) action d) r \<in> set tr \<and>
     proxy_answer r = Inr resp \<and> opbdStatus resp = status)"

lemma answered_mono: "answered c a st tr \<Longrightarrow> set tr \<subseteq> set tr' \<Longrightarrow> answered c a st tr'"
  by (fastforce simp: answered_def)

text \<open>A call and what follows it.\<close>

lemma run_call_cases:
  assumes "run E (bind (callORVD c a d) f) s tr = (x, s', tr')" "orvdTopic (orvd c) \<noteq> []"
  obtains e tr1 where "run E (f (Inl e)) s tr1 = (x, s', tr')"
  | resp tr1 where "run E (f (Inr resp)) s tr1 = (x, s', tr')" "answered c a (opbdStatus resp) tr'"
proof -
  obtain r where r: "run E (f (proxy_answer r)) s (tr @ [Requested (pxMonitor (orvdProxy (orvd c)))
        (proxy_msg (orvdProxy (orvd c)) ''proxy_request'' (orvdTopic (orvd c)) a d) r]) = (x, s', tr')"
    using assms by (auto simp: callORVD_def ProxyRequest_def Let_def)
  show ?thesis
  proof (cases "proxy_answer r")
    case (Inl e)
    with r show ?thesis by (intro that(1)) simp
  next
    case (Inr resp)
    with run_extends [OF r] have "answered c a (opbdStatus resp) tr'" by (fastforce simp: answered_def)
    with r Inr show ?thesis by (intro that(2)) simp
  qed
qed

lemma denied_not_authorized [simp]: "ORVDStatusDenied \<noteq> ORVDStatusAuthorized"
  by (simp add: orvd_status_defs)

lemma run_deny [simp]: "run E (orvdDeny c mid st x) s tr = ((ORVDStatusAuthorized, e), s', tr') \<longleftrightarrow> False"
  by (simp add: orvdDeny_def setPhase_def Let_def)

lemma run_authorize:
  assumes "run E (authorizeMission c mid) s tr = ((ORVDStatusAuthorized, e), s', tr')" "orvdTopic (orvd c) \<noteq> []"
  shows "answered c ''authorize_mission'' ''authorized'' tr'"
  using assms(1) unfolding authorizeMission_def
  by (rule run_call_cases [OF _ assms(2)]) (auto split: if_splits)

lemma run_registerMission:
  assumes "run E (registerMission c m mid) s tr = ((ORVDStatusAuthorized, e), s', tr')" "orvdTopic (orvd c) \<noteq> []"
  shows "answered c ''register_mission'' ''mission_registered'' tr' \<and> answered c ''authorize_mission'' ''authorized'' tr'"
  using assms(1) unfolding registerMission_def run.simps Let_def
  by (rule run_call_cases [OF _ assms(2)])
     (auto simp: setPhase_def Let_def split: if_splits dest!: run_authorize [OF _ assms(2)])

lemma run_registerDrone:
  assumes "run E (registerDrone c m mid) s tr = ((ORVDStatusAuthorized, e), s', tr')" "orvdTopic (orvd c) \<noteq> []"
  shows "answered c ''register_drone'' ''registered'' tr' \<and>
    answered c ''register_mission'' ''mission_registered'' tr' \<and> answered c ''authorize_mission'' ''authorized'' tr'"
  using assms(1) unfolding registerDrone_def
  by (rule run_call_cases [OF _ assms(2)])
     (auto simp: Let_def split: if_splits dest!: run_registerMission [OF _ assms(2)])

text \<open>C12. Authorization of a mission is sound: with a traffic service configured and the stub off, a mission
  is AUTHORIZED only after the service registered the drone (now or earlier), registered the
  mission and authorized it, in answers to requests of this very run.\<close>

theorem mission_authorization_sound:
  assumes "orvdTopic (orvd c) \<noteq> []" and "\<not> orvdMockSuccess (orvd c)"
    and "run E (runORVDMissionLoad c mission) s [] = ((ORVDStatusAuthorized, e), s', tr)"
  shows "(orvdDroneRegistered s \<or> answered c ''register_drone'' ''registered'' tr) \<and>
     answered c ''register_mission'' ''mission_registered'' tr \<and>
     answered c ''authorize_mission'' ''authorized'' tr"
  using assms(3)
  by (auto simp: runORVDMissionLoad_def assms(1,2) Let_def split: if_splits
      dest!: run_registerDrone [OF _ assms(1)] run_registerMission [OF _ assms(1)])

definition demo_orvd_env :: env where
  "demo_orvd_env = demo_env\<lparr>on_req := (\<lambda>tr _ _. Inr [(''payload'', GMap [(''target_response'', GMap [(''payload'',
     GMap [(''status'', GStr (if length tr < 2 then ''registered'' else if length tr < 4 then ''mission_registered''
       else ''authorized''))])])])])\<rparr>"

definition demo_orvd_cfg :: lim_cfg where
  "demo_orvd_cfg = (fst demo_lim)\<lparr>orvd := (orvd (fst demo_lim))\<lparr>orvdTopic := ''orvd''\<rparr>\<rparr>"

lemma demo_orvd_cfg_sel: "orvdTopic (orvd demo_orvd_cfg) = ''orvd''" "\<not> orvdMockSuccess (orvd demo_orvd_cfg)"
  "\<not> orvdDroneRegistered (snd demo_lim)"
  by (simp_all add: demo_orvd_cfg_def demo_lim_def New_lim_def Let_def loadORVDConfig_def demo_host_def
      parseBoolEnv_def ToLower_def)

theorem mission_authorization_sound_witness:
  "\<exists>e s' tr. run demo_orvd_env (runORVDMissionLoad demo_orvd_cfg demo_climb) (snd demo_lim) [] =
     ((ORVDStatusAuthorized, e), s', tr) \<and> answered demo_orvd_cfg ''authorize_mission'' ''authorized'' tr"
proof -
  have "\<exists>e s' tr. run demo_orvd_env (runORVDMissionLoad demo_orvd_cfg demo_climb) (snd demo_lim) [] =
     ((ORVDStatusAuthorized, e), s', tr)"
    by (simp add: runORVDMissionLoad_def demo_orvd_cfg_sel registerDrone_def registerMission_def authorizeMission_def
        callORVD_def ProxyRequest_def demo_orvd_env_def demo_env_def proxy_answer_def get_map_def get_str_def
        opbdStatus_def ToLower_def lower_char_def TrimSpace_def is_space_def setPhase_def Let_def)
  then show ?thesis
    using mission_authorization_sound [of demo_orvd_cfg demo_orvd_env demo_climb "snd demo_lim"]
    by (auto simp: demo_orvd_cfg_sel)
qed

lemma poll_keeps_clearance:
  assumes "run E (pollNavigationIfDue c) s tr = (x, s', tr')"
  shows "orvdTakeoffAuthorized s' = orvdTakeoffAuthorized s \<and> orvdMissionID s' = orvdMissionID s"
proof -
  have "sat (\<lambda>t. orvdTakeoffAuthorized t = orvdTakeoffAuthorized s \<and> orvdMissionID t = orvdMissionID s)
      (\<lambda>_ _. True) anyMessage anyResult (pollNavigationIfDue c)"
    unfolding pollNavigationIfDue_def ifDue_def proxyRequest_lim_def ProxyRequest_def
    by (auto split: prod.splits bool.splits option.splits sum.splits intro!: sat_bind_any)
  from sat_run [OF this _ assms] show ?thesis by simp
qed

lemma run_requestTakeoff:
  assumes "run E (runORVDRequestTakeoff c mid) s tr = ((True, e), s', tr')"
    and "orvdTopic (orvd c) \<noteq> []" and "\<not> orvdMockSuccess (orvd c)"
  shows "orvdTakeoffAuthorized s \<and> orvdMissionID s = mid \<or>
     answered c ''request_takeoff'' ''takeoff_authorized'' tr'"
proof (cases "orvdTakeoffAuthorized s \<and> orvdMissionID s = mid")
  case False
  then have "run E (bind (callORVD c ''request_takeoff''
       [(''drone_id'', GStr (orvdDroneID (orvd c))), (''mission_id'', GStr mid),
        (''time'', GStr (RFC3339 (on_now E tr)))]) (takeoffAnswer c mid)) s (tr @ [Clock (on_now E tr)]) =
      ((True, e), s', tr')"
    using assms by (auto simp: runORVDRequestTakeoff_def Let_def)
  then show ?thesis
    by (rule run_call_cases [OF _ assms(2)]) (auto simp: takeoffAnswer_def Let_def split: if_splits)
qed simp

lemma run_takeoffFor:
  assumes "run E (takeoffFor c mid) s tr = (Inr (Some r), s', tr')" and "is_true r ''ok''"
  shows "orvdStatus s = ORVDStatusAuthorized \<and> get_str r ''mission_id'' = mid \<and>
    (orvdTopic (orvd c) = [] \<or> orvdMockSuccess (orvd c) \<or>
     orvdTakeoffAuthorized s \<and> mid = orvdMissionID s \<or> answered c ''request_takeoff'' ''takeoff_authorized'' tr')"
proof -
  have st: "orvdStatus s = ORVDStatusAuthorized" "mid \<noteq> []"
    using assms by (auto simp: takeoffFor_def is_true_def split: if_splits)
  obtain u s1 tr1 where p: "run E (pollNavigationIfDue c) s tr = (u, s1, tr1)" by (cases "run E (pollNavigationIfDue c) s tr")
  obtain ok e s2 tr2 where q: "run E (runORVDRequestTakeoff c mid) s1 tr1 = ((ok, e), s2, tr2)"
    by (cases "run E (runORVDRequestTakeoff c mid) s1 tr1") auto
  have ok: "ok" "tr' = tr2" "get_str r ''mission_id'' = mid"
    using assms by (auto simp: takeoffFor_def st p q is_true_def run_bind get_str_def split: if_splits)
  show ?thesis
    using st(1) q ok poll_keeps_clearance [OF p] run_requestTakeoff [of E c mid s1 tr1 e s2 tr2] by auto
qed


definition demo_takeoff :: gmap where
  "demo_takeoff = [(''sender'', GStr ''security_monitor''), (''payload'', GMap [(''mission_id'', GStr ''m1'')])]"


text \<open>A takeoff revocation lands the drone only when it comes from the traffic service itself: from the
  sender \<^verbatim>\<open>orvd\<close> it withdraws the clearance and calls the emergency component, and one that was
  forwarded by the security monitor is dropped without any effect.\<close>

theorem revocation_only_direct:
  assumes "get_str m ''action'' = ''revoke_takeoff''"
  shows "(if get_str m ''sender'' = ''orvd''
     then \<not> orvdTakeoffAuthorized (final E (handleRevokeTakeoff c m) s) \<and>
          alarm c [(''source'', GStr ''orvd''), (''reason'', GStr ''takeoff_revoked'')] \<in>
            set (outputs E (handleRevokeTakeoff c m) s)
     else lim_dispatch c m = Ret ())"
proof (cases "get_str m ''sender'' = ''orvd''")
  case True
  then show ?thesis
    by (simp add: handleRevokeTakeoff_def IsTrustedSender_iff run_views Let_def publishOREmergencyFromORVD_def
        ProxyPublishAsync_def alarm_def)
next
  case False
  then show ?thesis using assms lim_revoke.dispatch_drops [of m c] by (simp add: lim_dispatch_def)
qed

theorem revocation_only_direct_witness:
  "lim_dispatch (fst demo_lim) [(''action'', GStr ''revoke_takeoff''), (''sender'', GStr ''security_monitor'')] = Ret ()"
  using revocation_only_direct [of "[(''action'', GStr ''revoke_takeoff''), (''sender'', GStr ''security_monitor'')]"
      demo_env "fst demo_lim"] by (simp add: get_str_def)

end
