(* ===== verification/Autopilot.thy ===== *)
theory Autopilot
  imports Component_Base
begin

text \<open>
  Package \<^verbatim>\<open>autopilot\<close> (\<^verbatim>\<open>autopilot/src/autopilot.go\<close>): the command state machine, the preflight
  clearances and the mission control loop.

  \<open>ap_cfg\<close> holds what \<^verbatim>\<open>New\<close> sets once, \<open>ap_state\<close> the rest. Reads of \<^verbatim>\<open>a.state\<close>, \<^verbatim>\<open>a.mission\<close> and
  \<^verbatim>\<open>a.lastNavState\<close> that the code makes without the lock are steps of their own. The time stamp of
  START is read just before its critical section.
\<close>

section \<open>Data\<close>

definition StateIDLE :: string where "StateIDLE = ''IDLE''"
definition StateMissionLoaded :: string where "StateMissionLoaded = ''MISSION_LOADED''"
definition StatePreFlight :: string where "StatePreFlight = ''PRE_FLIGHT''"
definition StateExecuting :: string where "StateExecuting = ''EXECUTING''"
definition StatePaused :: string where "StatePaused = ''PAUSED''"
definition StateCompleted :: string where "StateCompleted = ''COMPLETED''"
definition StateAborted :: string where "StateAborted = ''ABORTED''"
definition StateEmergencyStop :: string where "StateEmergencyStop = ''EMERGENCY_STOP''"

lemmas ap_states = StateIDLE_def StateMissionLoaded_def StatePreFlight_def StateExecuting_def
  StatePaused_def StateCompleted_def StateAborted_def StateEmergencyStop_def

record commandTransition =
  RequireMission :: bool
  AllowedFrom :: "string list option"
  NextState :: string
  ClearMission :: bool
  DisableKover :: bool
  ActivateKover :: bool

definition noTransition :: commandTransition where
  "noTransition = \<lparr>RequireMission = False, AllowedFrom = None, NextState = [], ClearMission = False,
     DisableKover = False, ActivateKover = False\<rparr>"

definition commandTransitions :: "(string \<times> commandTransition) list" where
  "commandTransitions =
     [(''START'', noTransition\<lparr>RequireMission := True, AllowedFrom := Some [StateMissionLoaded, StateIDLE],
                             NextState := StatePreFlight\<rparr>),
      (''PAUSE'', noTransition\<lparr>AllowedFrom := Some [StateExecuting], NextState := StatePaused\<rparr>),
      (''RESUME'', noTransition\<lparr>AllowedFrom := Some [StatePaused], NextState := StateExecuting\<rparr>),
      (''ABORT'', noTransition\<lparr>NextState := StateAborted, DisableKover := True\<rparr>),
      (''RESET'', noTransition\<lparr>NextState := StateIDLE, ClearMission := True, DisableKover := True\<rparr>),
      (''EMERGENCY_STOP'', noTransition\<lparr>NextState := StateEmergencyStop, DisableKover := True\<rparr>),
      (''KOVER'', noTransition\<lparr>ActivateKover := True\<rparr>)]"

record ap_cfg =
  apBase :: BaseComponent
  apNavigation :: string
  apMotors :: string
  apCargo :: string
  apLimiter :: string
  apEmergency :: string
  apControlIntervalSec :: float64
  apNavPollIntervalSec :: float64
  preflightTimeoutSec :: float64
  apProxy :: ProxyClient
  apAudit :: AuditLogger

record ap_state = base_state +
  preFlightStartedAt :: "int option"
  apMission :: "gmap option"
  apState :: string
  currentStepIndex :: int
  lastNavState :: "gmap option"
  cargoState :: string
  koverActive :: bool
  apLastNavPollTs :: float64
  lastError :: string

section \<open>Construction, navigation\<close>

definition New_ap :: "host \<Rightarrow> Config \<Rightarrow> ap_cfg \<times> ap_state" where
  "New_ap h cfg =
     (let px = \<lparr>pxSender = ComponentID cfg, pxMonitor = secTopic h cfg,
                pxTimeout = env_float h ''AUTOPILOT_REQUEST_TIMEOUT_S'' positive (Fin 5)\<rparr>
      in (\<lparr>apBase = newBase cfg ''autopilot'', apNavigation = BrokerTopicFor cfg ''navigation'',
           apMotors = BrokerTopicFor cfg ''motors'', apCargo = BrokerTopicFor cfg ''cargo'',
           apLimiter = orElse (TrimSpace (Getenv h ''LIMITER_TOPIC'')) (BrokerTopicFor cfg ''limiter''),
           apEmergency = orElse (TrimSpace (Getenv h ''EMERGENCY_TOPIC'')) (BrokerTopicFor cfg ''emergency''),
           apControlIntervalSec = env_float h ''AUTOPILOT_CONTROL_INTERVAL_S'' positive (round64 (2 / 10)),
           apNavPollIntervalSec = env_float h ''AUTOPILOT_NAV_POLL_INTERVAL_S'' positive (round64 (1 / 10)),
           preflightTimeoutSec = env_float h ''AUTOPILOT_PREFLIGHT_TIMEOUT_S'' positive (Fin 60),
           apProxy = px,
           apAudit = \<lparr>alProxy = px, alJournal = BrokerTopicFor cfg ''journal'', alSource = ''autopilot''\<rparr>\<rparr>,
          \<lparr>running = False, preFlightStartedAt = None, apMission = None, apState = StateIDLE,
           currentStepIndex = 0, lastNavState = None, cargoState = ''CLOSED'', koverActive = False,
           apLastNavPollTs = Fin 0, lastError = []\<rparr>))"

abbreviation apLog :: "ap_cfg \<Rightarrow> string \<Rightarrow> gmap \<Rightarrow> (ap_state, unit) prog" where
  "apLog c \<equiv> logToJournal (apAudit c)"

definition pollNavigationIfDue_ap :: "ap_cfg \<Rightarrow> (ap_state, unit) prog" where
  "pollNavigationIfDue_ap c =
     Now (\<lambda>now. readState (\<lambda>s.
       case ShouldRunInterval (seconds now) (apLastNavPollTs s) (apNavPollIntervalSec c) of
         (False, _) \<Rightarrow> Ret ()
       | (True, ts) \<Rightarrow> modify (\<lambda>s. s\<lparr>apLastNavPollTs := ts\<rparr>)
           (bind (ProxyRequest (apProxy c) (apNavigation c) ''get_state'' []) (\<lambda>r. case r of
              Inr (Some nav) \<Rightarrow> modify (\<lambda>s. s\<lparr>lastNavState := Some nav\<rparr>) (Ret ())
            | _ \<Rightarrow> Ret ()))))"

fun normalizeSteps :: "gval option \<Rightarrow> gval list" where
  "normalizeSteps (Some (GList steps)) = steps"
| "normalizeSteps (Some (GMaps ms)) = map GMap ms"
| "normalizeSteps _ = []"

definition mission_id :: "gmap option \<Rightarrow> string" where
  "mission_id mission = get_str (nilmap mission) ''mission_id''"

definition loadMission :: "gmap \<Rightarrow> ap_state \<Rightarrow> ap_state" where
  "loadMission mission s =
     s\<lparr>apMission := Some mission,
       currentStepIndex := (if normalizeSteps (map_of mission ''steps'') \<noteq> [] then 0 else - 1),
       apState := StateMissionLoaded\<rparr>"

definition handleMissionLoad_ap :: "ap_cfg \<Rightarrow> ap_state handler" where
  "handleMissionLoad_ap c m =
     (if \<not> IsTrustedSender m ''security_monitor'' then noReply
      else case get_map m ''payload'' of
        None \<Rightarrow> reply [(''ok'', GBool False), (''error'', GStr ''invalid_mission'')]
      | Some payload \<Rightarrow> (case get_map payload ''mission'' of
          None \<Rightarrow> reply [(''ok'', GBool False), (''error'', GStr ''invalid_mission'')]
        | Some mission \<Rightarrow>
            modify (loadMission mission)
             (readState (\<lambda>s. andThen (apLog c ''AUTOPILOT_MISSION_LOADED''
                  [(''mission_id'', GStr (get_str mission ''mission_id'')), (''state'', GStr (apState s))])
               (readState (\<lambda>s. reply [(''ok'', GBool True), (''state'', GStr (apState s))]))))))"

section \<open>Actuators\<close>

definition getFloat_ap :: "gmap \<Rightarrow> string \<Rightarrow> float64" where
  "getFloat_ap m k =
     (case map_of m k of
        Some (GFloat x) \<Rightarrow> x | Some (GInt w) \<Rightarrow> i64 w | Some (GInt64 w) \<Rightarrow> i64 w | _ \<Rightarrow> Fin 0)"

definition target_msg :: "float64 \<Rightarrow> float64 \<Rightarrow> float64 \<Rightarrow> float64 \<Rightarrow> float64 \<Rightarrow> float64 \<Rightarrow> float64 \<Rightarrow> bool \<Rightarrow> gmap" where
  "target_msg vx vy vz altM lat lon headingDeg drp =
     [(''vx'', GFloat vx), (''vy'', GFloat vy), (''vz'', GFloat vz), (''alt_m'', GFloat altM),
      (''lat'', GFloat lat), (''lon'', GFloat lon), (''heading_deg'', GFloat headingDeg), (''drop'', GBool drp)]"

definition sendMotorsTarget :: "ap_cfg \<Rightarrow> gmap \<Rightarrow> (ap_state, unit) prog" where
  "sendMotorsTarget c target =
     bind (ProxyPublishAsync (apProxy c) (apMotors c) ''SET_TARGET'' target) (\<lambda>_. Ret ())"

definition cargo_action :: "bool \<Rightarrow> string" where
  "cargo_action open_bay = (if open_bay then ''OPEN'' else ''CLOSE'')"

definition sendCargo :: "ap_cfg \<Rightarrow> bool \<Rightarrow> (ap_state, unit) prog" where
  "sendCargo c open_bay =
     modify (\<lambda>s. s\<lparr>cargoState := cargo_action open_bay\<rparr>)
       (bind (ProxyPublishAsync (apProxy c) (apCargo c) (cargo_action open_bay) []) (\<lambda>_. Ret ()))"

definition safeActuatorStop :: "ap_cfg \<Rightarrow> (ap_state, unit) prog" where
  "safeActuatorStop c =
     andThen (readState (\<lambda>s. if lastNavState s = None then Ret ()
        else readState (\<lambda>s1. readState (\<lambda>s2. readState (\<lambda>s3. readState (\<lambda>s4.
          sendMotorsTarget c (target_msg (Fin 0) (Fin 0) (Fin 0)
            (getFloat_ap (nilmap (lastNavState s3)) ''alt_m'') (getFloat_ap (nilmap (lastNavState s1)) ''lat'')
            (getFloat_ap (nilmap (lastNavState s2)) ''lon'') (getFloat_ap (nilmap (lastNavState s4)) ''heading_deg'')
            False)))))))
      (sendCargo c False)"

section \<open>Preflight\<close>

definition preflightPending :: string where "preflightPending = ''pending''"

definition withMission :: "(gmap \<Rightarrow> (ap_state, string) prog) \<Rightarrow> (ap_state, string) prog" where
  "withMission k = readState (\<lambda>s. case apMission s of None \<Rightarrow> Ret ''no_mission'' | Some mission \<Rightarrow> k mission)"

definition limiter_verdict :: "string \<Rightarrow> hres \<Rightarrow> string" where
  "limiter_verdict mid r =
     (case r of
        Inl _ \<Rightarrow> ''limiter_not_cleared''
      | Inr pl \<Rightarrow>
          let status = get_str (nilmap pl) ''orvd_status''; orvdMid = get_str (nilmap pl) ''orvd_mission_id'' in
          if status = ''PENDING'' then preflightPending
          else if status \<noteq> ''AUTHORIZED'' then ''limiter_not_cleared''
          else if orvdMid \<noteq> [] \<and> mid \<noteq> [] \<and> orvdMid \<noteq> mid then ''mission_id_mismatch'' else [])"

definition checkLimiterAuthorization :: "ap_cfg \<Rightarrow> (ap_state, string) prog" where
  "checkLimiterAuthorization c = withMission (\<lambda>mission.
     bind (ProxyRequest (apProxy c) (apLimiter c) ''get_state'' []) (\<lambda>r.
       Ret (limiter_verdict (get_str mission ''mission_id'') r)))"

definition says_true :: "hres \<Rightarrow> string \<Rightarrow> bool" where
  "says_true r k = (case r of Inr (Some pl) \<Rightarrow> is_true pl k | _ \<Rightarrow> False)"

definition requestORVDTakeoff :: "ap_cfg \<Rightarrow> (ap_state, string) prog" where
  "requestORVDTakeoff c = withMission (\<lambda>mission.
     bind (ProxyRequest (apProxy c) (apLimiter c) ''get_state'' []) (\<lambda>r.
       if says_true r ''orvd_takeoff_authorized'' then Ret []
       else bind (ProxyRequest (apProxy c) (apLimiter c) ''orvd_takeoff''
                    [(''mission_id'', GStr (get_str mission ''mission_id''))]) (\<lambda>r.
         Ret (if says_true r ''ok'' then [] else ''orvd_takeoff_denied''))))"

definition departed :: "hres \<Rightarrow> bool" where
  "departed r = (case r of Inr (Some st) \<Rightarrow> get_str st ''droneport_phase'' = ''DEPARTED'' | _ \<Rightarrow> False)"

definition requestDroneportTakeoff :: "ap_cfg \<Rightarrow> (ap_state, string) prog" where
  "requestDroneportTakeoff c = withMission (\<lambda>mission.
     bind (ProxyRequest (apProxy c) (apEmergency c) ''get_state'' []) (\<lambda>r.
       if departed r then Ret []
       else bind (ProxyRequest (apProxy c) (apEmergency c) ''droneport_takeoff''
                    [(''mission_id'', GStr (get_str mission ''mission_id''))]) (\<lambda>r.
         Ret (if says_true r ''pending'' then preflightPending
              else if says_true r ''ok'' then [] else ''droneport_denied''))))"

text \<open>\<^verbatim>\<open>Duration.Seconds\<close> of a duration in nanoseconds.\<close>

definition durSeconds :: "int \<Rightarrow> float64" where
  "durSeconds d =
     (let sec = sgn d * (\<bar>d\<bar> div 1000000000); nsec = sgn d * (\<bar>d\<bar> mod 1000000000)
      in fadd (float_of_int sec) (fdiv (float_of_int nsec) (Fin 1000000000)))"

definition preflightAbort :: "string \<Rightarrow> (ap_state, unit) prog" where
  "preflightAbort err =
     modify (\<lambda>s. if apState s = StatePreFlight then s\<lparr>apState := StateAborted, lastError := err\<rparr> else s) (Ret ())"

text \<open>One clearance: pending ends the round, an error aborts, success goes on.\<close>

definition clearance :: "(ap_state, string) prog \<Rightarrow> (ap_state, unit) prog \<Rightarrow> (ap_state, unit) prog" where
  "clearance check next =
     bind check (\<lambda>errKey. if errKey = preflightPending then Ret ()
       else if errKey \<noteq> [] then preflightAbort errKey else next)"

definition preflightPassed :: "ap_cfg \<Rightarrow> (ap_state, unit) prog" where
  "preflightPassed c =
     Atom (\<lambda>s. if apState s \<noteq> StatePreFlight then s else s\<lparr>apState := StateExecuting, lastError := []\<rparr>) (\<lambda>s.
       if apState s \<noteq> StatePreFlight then Ret ()
       else apLog c ''AUTOPILOT_PREFLIGHT_PASSED'' [(''mission_id'', GStr (mission_id (apMission s)))])"

definition preflightChecks :: "ap_cfg \<Rightarrow> (ap_state, unit) prog" where
  "preflightChecks c =
     clearance (checkLimiterAuthorization c) (clearance (requestORVDTakeoff c)
       (clearance (requestDroneportTakeoff c) (preflightPassed c)))"

definition stepPreFlight :: "ap_cfg \<Rightarrow> (ap_state, unit) prog" where
  "stepPreFlight c = readState (\<lambda>s.
     if apState s \<noteq> StatePreFlight then Ret ()
     else case (positive (preflightTimeoutSec c), preFlightStartedAt s) of
       (True, Some started) \<Rightarrow> Now (\<lambda>now.
         if fgt (durSeconds (now - started)) (preflightTimeoutSec c) then
           Atom (\<lambda>s. s\<lparr>apState := StateAborted, lastError := ''preflight_timeout''\<rparr>) (\<lambda>s.
             apLog c ''AUTOPILOT_PREFLIGHT_TIMEOUT'' [(''mission_id'', GStr (mission_id (apMission s)))])
         else preflightChecks c)
     | _ \<Rightarrow> preflightChecks c)"

section \<open>Commands\<close>

datatype cmdOutcome = NoMission | NotAllowed | Done string string

definition transitState :: "commandTransition \<Rightarrow> ap_state \<Rightarrow> ap_state" where
  "transitState t s =
     (let s1 = (if ClearMission t then s\<lparr>apMission := None, currentStepIndex := 0\<rparr> else s);
          s2 = (if DisableKover t then s1\<lparr>koverActive := False\<rparr> else s1);
          s3 = (if ActivateKover t then s2\<lparr>koverActive := True,
                  apState := (if apState s2 \<noteq> StateExecuting \<and> apState s2 \<noteq> StatePaused then StateExecuting
                              else apState s2)\<rparr> else s2)
      in if NextState t \<noteq> [] then s3\<lparr>apState := NextState t\<rparr> else s3)"

text \<open>The critical section of \<^verbatim>\<open>handleCmd\<close>; \<open>now\<close> is used by START only.\<close>

definition applyCommand :: "string \<Rightarrow> commandTransition \<Rightarrow> int \<Rightarrow> ap_state \<Rightarrow> cmdOutcome \<times> ap_state" where
  "applyCommand cmd t now s =
     (if RequireMission t \<and> apMission s = None then (NoMission, s)
      else let s1 = (if cmd = ''START'' then s\<lparr>lastError := [], preFlightStartedAt := Some now\<rparr> else s) in
        if (case AllowedFrom t of None \<Rightarrow> False | Some ok \<Rightarrow> apState s \<notin> set ok) then (NotAllowed, s1)
        else (Done (apState s) (apState (transitState t s1)), transitState t s1))"

definition afterCommand :: "ap_cfg \<Rightarrow> string \<Rightarrow> string \<Rightarrow> string \<Rightarrow> (ap_state, hres) prog" where
  "afterCommand c cmd old new =
     andThen (if cmd = ''KOVER'' then apLog c ''AUTOPILOT_KOVER_ACTIVE'' [] else Ret ())
      (andThen (if cmd = ''ABORT'' then andThen (safeActuatorStop c) (apLog c ''AUTOPILOT_ABORTED'' [(''old_state'', GStr old)])
                else if cmd = ''EMERGENCY_STOP'' then
                  andThen (safeActuatorStop c) (apLog c ''AUTOPILOT_EMERGENCY_STOP'' [(''old_state'', GStr old)])
                else Ret ())
       (andThen (if old \<noteq> new then apLog c ''AUTOPILOT_STATE_CHANGE''
                    [(''old_state'', GStr old), (''new_state'', GStr new), (''command'', GStr cmd)] else Ret ())
         (if cmd = ''START'' \<and> new = StatePreFlight then
            readState (\<lambda>s. andThen (apLog c ''AUTOPILOT_START_ACCEPTED''
                [(''mission_id'', GStr (mission_id (apMission s))), (''state'', GStr new)])
             (andThen (stepPreFlight c)
               (readState (\<lambda>s. reply [(''ok'', GBool True), (''state'', GStr (apState s))]))))
          else reply [(''ok'', GBool True), (''state'', GStr new)])))"

definition runCommand :: "ap_cfg \<Rightarrow> string \<Rightarrow> commandTransition \<Rightarrow> int \<Rightarrow> (ap_state, hres) prog" where
  "runCommand c cmd t now =
     Atom (\<lambda>s. snd (applyCommand cmd t now s)) (\<lambda>s. case fst (applyCommand cmd t now s) of
       NoMission \<Rightarrow> reply [(''ok'', GBool False), (''error'', GStr ''no_mission'')]
     | NotAllowed \<Rightarrow> readState (\<lambda>s. reply [(''ok'', GBool True), (''state'', GStr (apState s))])
     | Done old new \<Rightarrow> afterCommand c cmd old new)"

definition handleCmd :: "ap_cfg \<Rightarrow> ap_state handler" where
  "handleCmd c m =
     (if \<not> IsTrustedSender m ''security_monitor'' then noReply
      else case get_map m ''payload'' of
        None \<Rightarrow> reply [(''ok'', GBool False), (''error'', GStr ''invalid_payload'')]
      | Some payload \<Rightarrow>
          let cmd = TrimSpace (ToUpper (get_str payload ''command'')) in
          case map_of commandTransitions cmd of
            None \<Rightarrow> reply [(''ok'', GBool False), (''error'', GStr ''unknown_command'')]
          | Some t \<Rightarrow> if cmd = ''START'' then Now (\<lambda>now. runCommand c cmd t now) else runCommand c cmd t 0)"

definition handleGetState_ap :: "ap_state handler" where
  "handleGetState_ap _ = readState (\<lambda>s.
     reply [(''state'', GStr (apState s)), (''mission_id'', GStr (mission_id (apMission s))),
            (''current_step_index'', GInt (of_int (currentStepIndex s))),
            (''total_steps'', GInt (of_nat (length (get_list (nilmap (apMission s)) ''steps'')))),
            (''cargo_state'', GStr (cargoState s)), (''last_nav_state'', map_val (lastNavState s)),
            (''last_error'', GStr (lastError s))])"

section \<open>The control loop\<close>

definition notifyORVDComplete :: "ap_cfg \<Rightarrow> string \<Rightarrow> (ap_state, unit) prog" where
  "notifyORVDComplete c mid =
     (if mid = [] then Ret ()
      else bind (ProxyRequest (apProxy c) (apLimiter c) ''orvd_complete''
             [(''mission_id'', GStr mid), (''result'', GStr ''success'')]) (\<lambda>_. Ret ()))"

definition battery_entry :: "gmap option \<Rightarrow> gmap" where
  "battery_entry nav =
     (case map_of (nilmap nav) ''battery_pct'' of
        Some v \<Rightarrow> [(''battery_pct'', v)]
      | None \<Rightarrow> (case map_of (nilmap nav) ''battery'' of Some v \<Rightarrow> [(''battery'', v)] | None \<Rightarrow> []))"

definition notifyDroneportLand :: "ap_cfg \<Rightarrow> string \<Rightarrow> (ap_state, unit) prog" where
  "notifyDroneportLand c mid =
     (if mid = [] then Ret ()
      else readState (\<lambda>s. bind (ProxyRequest (apProxy c) (apEmergency c) ''droneport_land''
             ((''mission_id'', GStr mid) # battery_entry (lastNavState s))) (\<lambda>_. Ret ())))"

definition missionCompleted :: "ap_cfg \<Rightarrow> string \<Rightarrow> (ap_state, unit) prog" where
  "missionCompleted c mid =
     andThen (apLog c ''AUTOPILOT_MISSION_COMPLETED'' [(''mission_id'', GStr mid)])
       (andThen (notifyDroneportLand c mid) (notifyORVDComplete c mid))"

definition computeVelocity ::
    "libm \<Rightarrow> float64 \<Rightarrow> float64 \<Rightarrow> float64 \<Rightarrow> float64 \<Rightarrow> float64 \<times> float64 \<times> float64" where
  "computeVelocity L headingDeg groundSpeedMps currentAlt targetAlt =
     (let rad = fdiv (fmul headingDeg fpi) (Fin 180);
          altDiff = fsub targetAlt currentAlt;
          vz = (if flt (fabs altDiff) (round64 (2 / 10)) then Fin 0
                else let v = fmul altDiff (Fin 2); v' = (if fgt v (Fin 3) then Fin 3 else v)
                     in if flt v' (Fin (- 3)) then Fin (- 3) else v')
      in (fmul groundSpeedMps (m_sin L rad), fmul groundSpeedMps (m_cos L rad), vz))"

definition doKover :: "ap_cfg \<Rightarrow> gmap \<Rightarrow> (ap_state, unit) prog" where
  "doKover c nav =
     andThen (sendMotorsTarget c (target_msg (Fin 0) (Fin 0) (Fin (- 1)) (Fin 0) (getFloat_ap nav ''lat'')
                (getFloat_ap nav ''lon'') (getFloat_ap nav ''heading_deg'') False))
      (andThen (sendCargo c False)
        (modify (\<lambda>s. s\<lparr>cargoState := ''CLOSED''\<rparr>)
          (if fle (getFloat_ap nav ''alt_m'') (Fin (1 / 2)) then
             modify (\<lambda>s. s\<lparr>koverActive := False, apState := StatePaused\<rparr>)
               (apLog c ''AUTOPILOT_KOVER_LANDED'' [])
           else Ret ())))"

text \<open>Hold the position with the bay closed (PAUSED, and after the last waypoint).\<close>

definition holdPosition :: "ap_cfg \<Rightarrow> gmap \<Rightarrow> (ap_state, unit) prog" where
  "holdPosition c nav =
     andThen (sendMotorsTarget c (target_msg (Fin 0) (Fin 0) (Fin 0) (getFloat_ap nav ''alt_m'')
                (getFloat_ap nav ''lat'') (getFloat_ap nav ''lon'') (getFloat_ap nav ''heading_deg'') False))
       (sendCargo c False)"

definition flyTo :: "libm \<Rightarrow> ap_cfg \<Rightarrow> gmap \<Rightarrow> gmap \<Rightarrow> (ap_state, unit) prog" where
  "flyTo L c nav step =
     (let lat = getFloat_ap nav ''lat''; lon = getFloat_ap nav ''lon''; alt = getFloat_ap nav ''alt_m'';
          tAlt = getFloat_ap step ''alt_m'';
          dLat = fsub (getFloat_ap step ''lat'') lat; dLon = fsub (getFloat_ap step ''lon'') lon;
          speed0 = getFloat_ap step ''speed_mps'';
          speed = (if feq speed0 (Fin 0) then Fin 5 else speed0);
          heading = (if \<not> feq dLat (Fin 0) \<or> \<not> feq dLon (Fin 0)
                     then fmod (fadd (fdiv (fmul (m_atan2 L dLon dLat) (Fin 180)) fpi) (Fin 360)) (Fin 360)
                     else Fin 0);
          (vx, vy, vz) = computeVelocity L heading speed alt tAlt;
          drp = get_bool step ''drop''
      in andThen (sendMotorsTarget c (target_msg vx vy vz tAlt lat lon heading drp)) (sendCargo c drp))"

definition distance_to :: "libm \<Rightarrow> gmap \<Rightarrow> gmap \<Rightarrow> float64" where
  "distance_to L nav step =
     (let dLat = fsub (getFloat_ap step ''lat'') (getFloat_ap nav ''lat'');
          dLon = fsub (getFloat_ap step ''lon'') (getFloat_ap nav ''lon'')
      in fmul (m_sqrt L (fadd (fmul dLat dLat) (fmul dLon dLon))) (Fin 111000))"

definition atWaypoint ::
    "libm \<Rightarrow> ap_cfg \<Rightarrow> gmap \<Rightarrow> string \<Rightarrow> gval list \<Rightarrow> int \<Rightarrow> gmap \<Rightarrow> (ap_state, unit) prog" where
  "atWaypoint L c nav st steps idx step =
     (if st = StatePaused then holdPosition c nav
      else if fle (distance_to L nav step) (Fin 2) then
        (if int (length steps) - 1 \<le> idx then
           Atom (\<lambda>s. s\<lparr>apState := StateCompleted, currentStepIndex := int (length steps)\<rparr>) (\<lambda>s.
             andThen (missionCompleted c (mission_id (apMission s))) (holdPosition c nav))
         else modify (\<lambda>s. s\<lparr>currentStepIndex := idx + 1\<rparr>) (Ret ()))
      else flyTo L c nav step)"

definition controlMission ::
    "libm \<Rightarrow> ap_cfg \<Rightarrow> gmap \<Rightarrow> gmap \<Rightarrow> string \<Rightarrow> int \<Rightarrow> (ap_state, unit) prog" where
  "controlMission L c nav mission st stepIndex =
     (let steps = get_list mission ''steps''; idx = (if stepIndex < 0 then 0 else stepIndex) in
      if steps = [] then Ret ()
      else if int (length steps) \<le> idx then
        Atom (\<lambda>s. if apState s = StateExecuting then s\<lparr>apState := StateCompleted\<rparr> else s) (\<lambda>s.
          if apState s = StateExecuting then missionCompleted c (mission_id (apMission s)) else Ret ())
      else case steps ! nat idx of
        GMap step \<Rightarrow> atWaypoint L c nav st steps idx step
      | _ \<Rightarrow> Ret ())"

definition stepControl :: "libm \<Rightarrow> ap_cfg \<Rightarrow> (ap_state, unit) prog" where
  "stepControl L c = readState (\<lambda>s.
     if apState s = StatePreFlight then stepPreFlight c
     else case lastNavState s of
       None \<Rightarrow> Ret ()
     | Some nav \<Rightarrow>
         if koverActive s then doKover c nav
         else case apMission s of
           None \<Rightarrow> Ret ()
         | Some mission \<Rightarrow>
             if apState s \<noteq> StateExecuting \<and> apState s \<noteq> StatePaused then Ret ()
             else controlMission L c nav mission (apState s) (currentStepIndex s))"

definition ap_controlStep :: "libm \<Rightarrow> ap_cfg \<Rightarrow> (ap_state, unit) prog" where
  "ap_controlStep L c = andThen (pollNavigationIfDue_ap c) (stepControl L c)"

definition ap_registerHandlers :: "ap_cfg \<Rightarrow> (string \<times> ap_state handler) list" where
  "ap_registerHandlers c =
     [(''mission_load'', handleMissionLoad_ap c), (''cmd'', handleCmd c), (''get_state'', handleGetState_ap)]"

definition ap_dispatch :: "ap_cfg \<Rightarrow> gmap \<Rightarrow> (ap_state, unit) prog" where
  "ap_dispatch c = handleMessage (apBase c) (registered (apBase c) (ap_registerHandlers c))"

text \<open>Everything that runs in the autopilot's process: handler calls and rounds of the control loop.\<close>

definition ap_threads :: "libm \<Rightarrow> ap_cfg \<Rightarrow> (ap_state, unit) prog set" where
  "ap_threads L c = range (ap_dispatch c) \<union> {ap_controlStep L c}"

end
