(* ===== verification/Autopilot_Safety.thy ===== *)
theory Autopilot_Safety
  imports Autopilot
begin

text \<open>
  Correctness of the autopilot: its contract under every schedule of handlers and control rounds,
  the command table, the preflight clearances, the stop commands and the control law.
\<close>

section \<open>Contract\<close>

definition ap_all_states :: "string set" where
  "ap_all_states = {StateIDLE, StateMissionLoaded, StatePreFlight, StateExecuting, StatePaused,
     StateCompleted, StateAborted, StateEmergencyStop}"

definition ap_inv :: "ap_state \<Rightarrow> bool" where
  "ap_inv s \<longleftrightarrow> apState s \<in> ap_all_states \<and> - 1 \<le> currentStepIndex s \<and>
     cargoState s \<in> {''CLOSED'', ''CLOSE'', ''OPEN''} \<and>
     (apState s = StatePreFlight \<longrightarrow> apMission s \<noteq> None \<and> preFlightStartedAt s \<noteq> None)"

text \<open>
  How one step may change the state: preflight starts only from IDLE or MISSION\_LOADED with a
  mission; execution starts only from preflight or a pause, or by activating KOVER.
\<close>

definition ap_guar :: "ap_state \<Rightarrow> ap_state \<Rightarrow> bool" where
  "ap_guar s s' \<longleftrightarrow> running s' = running s \<and> (apState s' = apState s \<or>
     ((apState s' = StatePreFlight \<longrightarrow> apState s \<in> {StateIDLE, StateMissionLoaded} \<and> apMission s \<noteq> None) \<and>
      (apState s' = StateExecuting \<longrightarrow> apState s \<in> {StatePreFlight, StatePaused} \<or> koverActive s')))"

definition ap_wired :: "ap_cfg \<Rightarrow> bool" where
  "ap_wired c \<longleftrightarrow> pxSender (apProxy c) = bcID (apBase c) \<and> alProxy (apAudit c) = apProxy c"

abbreviation ap_sat :: "ap_cfg \<Rightarrow> (ap_state, 'a) prog \<Rightarrow> bool" where
  "ap_sat c p \<equiv> sat ap_inv ap_guar (via_monitor (bcID (apBase c)) (pxMonitor (apProxy c))) anyResult p"

lemma ap_guar_refl [simp]: "ap_guar s s"
  by (simp add: ap_guar_def)

lemma ap_out_proxy:
  "ap_wired c \<Longrightarrow> via_monitor (bcID (apBase c)) (pxMonitor (apProxy c)) (pxMonitor (apProxy c)) (proxy_msg (apProxy c) k t a d)"
  "ap_wired c \<Longrightarrow> via_monitor (bcID (apBase c)) (pxMonitor (apProxy c)) (pxMonitor (alProxy (apAudit c))) (proxy_msg (alProxy (apAudit c)) k t a d)"
  by (simp_all add: ap_wired_def)

lemma ap_frame [simp]:
  "ap_inv (s\<lparr>lastNavState := n\<rparr>) = ap_inv s" "ap_inv (s\<lparr>koverActive := b\<rparr>) = ap_inv s"
  "ap_inv (s\<lparr>apLastNavPollTs := t\<rparr>) = ap_inv s" "ap_inv (s\<lparr>lastError := e\<rparr>) = ap_inv s"
  "ap_guar s (s\<lparr>lastNavState := n\<rparr>)" "ap_guar s (s\<lparr>koverActive := b\<rparr>)" "ap_guar s (s\<lparr>apLastNavPollTs := t\<rparr>)"
  "ap_guar s (s\<lparr>lastError := e\<rparr>)" "ap_guar s (s\<lparr>cargoState := x\<rparr>)" "ap_guar s (s\<lparr>currentStepIndex := i\<rparr>)"
  by (simp_all add: ap_inv_def ap_guar_def)

lemma ap_state_simps [simp]:
  "StatePreFlight \<noteq> StateExecuting" "StateExecuting \<noteq> StatePreFlight" "StatePaused \<noteq> StateExecuting"
  "StatePaused \<noteq> StatePreFlight" "StateAborted \<noteq> StateExecuting" "StateAborted \<noteq> StatePreFlight"
  "StateCompleted \<noteq> StateExecuting" "StateCompleted \<noteq> StatePreFlight" "StateIDLE \<noteq> StateExecuting"
  "StateIDLE \<noteq> StatePreFlight" "StateMissionLoaded \<noteq> StateExecuting" "StateMissionLoaded \<noteq> StatePreFlight"
  "StateEmergencyStop \<noteq> StateExecuting" "StateEmergencyStop \<noteq> StatePreFlight" "StateExecuting \<noteq> StatePaused"
  "StateMissionLoaded \<noteq> StatePaused" "StateAborted \<noteq> []" "StateEmergencyStop \<noteq> []" "StateIDLE \<noteq> []"
  "StatePreFlight \<noteq> []" "StatePaused \<noteq> []" "StateExecuting \<noteq> []"
  by (simp_all add: ap_states)

lemma ap_setState:
  "ap_inv s \<Longrightarrow> st \<in> ap_all_states - {StatePreFlight} \<Longrightarrow> ap_inv (s\<lparr>apState := st\<rparr>)"
  "st \<notin> {StatePreFlight, StateExecuting} \<Longrightarrow> ap_guar s (s\<lparr>apState := st\<rparr>)"
  by (auto simp: ap_inv_def ap_guar_def)

lemma in_all_states [simp]:
  "StateIDLE \<in> ap_all_states" "StateMissionLoaded \<in> ap_all_states" "StateExecuting \<in> ap_all_states"
  "StatePaused \<in> ap_all_states" "StateCompleted \<in> ap_all_states" "StateAborted \<in> ap_all_states"
  "StateEmergencyStop \<in> ap_all_states" "StatePreFlight \<in> ap_all_states"
  by (simp_all add: ap_all_states_def)

lemma loadMission_inv: "ap_inv s \<Longrightarrow> ap_inv (loadMission m s) \<and> ap_guar s (loadMission m s)"
  by (auto simp: loadMission_def ap_inv_def ap_guar_def)

text \<open>The entries of the command table, one by one.\<close>

lemma commandTransitions_cases:
  assumes "map_of commandTransitions cmd = Some t"
  obtains "cmd = ''START''" "t = noTransition\<lparr>RequireMission := True,
        AllowedFrom := Some [StateMissionLoaded, StateIDLE], NextState := StatePreFlight\<rparr>"
  | "cmd = ''PAUSE''" "t = noTransition\<lparr>AllowedFrom := Some [StateExecuting], NextState := StatePaused\<rparr>"
  | "cmd = ''RESUME''" "t = noTransition\<lparr>AllowedFrom := Some [StatePaused], NextState := StateExecuting\<rparr>"
  | "cmd = ''ABORT''" "t = noTransition\<lparr>NextState := StateAborted, DisableKover := True\<rparr>"
  | "cmd = ''RESET''" "t = noTransition\<lparr>NextState := StateIDLE, ClearMission := True, DisableKover := True\<rparr>"
  | "cmd = ''EMERGENCY_STOP''" "t = noTransition\<lparr>NextState := StateEmergencyStop, DisableKover := True\<rparr>"
  | "cmd = ''KOVER''" "t = noTransition\<lparr>ActivateKover := True\<rparr>"
  using assms by (auto simp: commandTransitions_def split: if_splits)

lemma applyCommand_inv:
  assumes "map_of commandTransitions cmd = Some t" "ap_inv s"
  shows "ap_inv (snd (applyCommand cmd t now s)) \<and> ap_guar s (snd (applyCommand cmd t now s))"
  using assms(1)
  by (cases rule: commandTransitions_cases)
     (use assms(2) in \<open>auto simp: applyCommand_def transitState_def noTransition_def ap_inv_def ap_guar_def Let_def\<close>)

lemma ap_sat_motors: "ap_wired c \<Longrightarrow> ap_sat c (sendMotorsTarget c t)"
  by (simp add: sendMotorsTarget_def sat_bind_any ap_out_proxy)

lemma ap_sat_cargo: "ap_wired c \<Longrightarrow> ap_sat c (sendCargo c b)"
  by (auto simp: sendCargo_def cargo_action_def ap_out_proxy ap_inv_def intro!: sat_bind_any)

lemma ap_sat_stop: "ap_wired c \<Longrightarrow> ap_sat c (safeActuatorStop c)"
  unfolding safeActuatorStop_def
  by (rule sat_andThen) (simp_all add: ap_sat_motors ap_sat_cargo)

lemma ap_sat_request: "ap_wired c \<Longrightarrow> ap_sat c (ProxyRequest (apProxy c) t a d)"
  by (rule sat_ProxyRequest) (simp add: ap_out_proxy)

lemma ap_sat_poll: "ap_wired c \<Longrightarrow> ap_sat c (pollNavigationIfDue_ap c)"
  unfolding pollNavigationIfDue_ap_def
  by (auto simp: ap_sat_request split: prod.splits bool.splits sum.splits option.splits intro!: sat_bind_any)

lemma ap_sat_checks:
  assumes "ap_wired c"
  shows "ap_sat c (checkLimiterAuthorization c)" "ap_sat c (requestORVDTakeoff c)" "ap_sat c (requestDroneportTakeoff c)"
  unfolding checkLimiterAuthorization_def requestORVDTakeoff_def requestDroneportTakeoff_def withMission_def
  by (auto simp: ap_sat_request assms split: option.splits intro!: sat_bind_any)

lemma ap_sat_abort: "ap_sat c (preflightAbort e)"
  by (simp add: preflightAbort_def ap_inv_def ap_guar_def)

lemma ap_sat_clearance: "ap_sat c check \<Longrightarrow> ap_sat c nxt \<Longrightarrow> ap_sat c (clearance check nxt)"
  unfolding clearance_def by (rule sat_bind_any) (simp_all add: ap_sat_abort)

lemma ap_sat_passed: "ap_wired c \<Longrightarrow> ap_sat c (preflightPassed c)"
  unfolding preflightPassed_def by (simp add: ap_out_proxy ap_inv_def ap_guar_def)

lemma ap_sat_preflightChecks: "ap_wired c \<Longrightarrow> ap_sat c (preflightChecks c)"
  unfolding preflightChecks_def by (intro ap_sat_clearance ap_sat_checks ap_sat_passed)

lemma ap_sat_preflight: "ap_wired c \<Longrightarrow> ap_sat c (stepPreFlight c)"
  unfolding stepPreFlight_def
  by (auto simp: ap_sat_preflightChecks ap_out_proxy ap_inv_def ap_guar_def split: option.splits bool.splits)

lemma ap_sat_after: "ap_wired c \<Longrightarrow> ap_sat c (afterCommand c cmd old new)"
  unfolding afterCommand_def
  by (intro sat_andThen; simp add: ap_sat_stop ap_sat_preflight ap_out_proxy sat_andThen)

lemma ap_sat_runCommand:
  "ap_wired c \<Longrightarrow> map_of commandTransitions cmd = Some t \<Longrightarrow> ap_sat c (runCommand c cmd t now)"
  unfolding runCommand_def
  by (auto simp: applyCommand_inv ap_sat_after split: cmdOutcome.splits)

lemma ap_sat_completed: "ap_wired c \<Longrightarrow> ap_sat c (missionCompleted c mid)"
  unfolding missionCompleted_def notifyDroneportLand_def notifyORVDComplete_def
  by (auto simp: ap_sat_request ap_out_proxy intro!: sat_andThen sat_bind_any)

lemma ap_sat_hold: "ap_wired c \<Longrightarrow> ap_sat c (holdPosition c nav)"
  by (simp add: holdPosition_def sat_andThen ap_sat_motors ap_sat_cargo)

lemma ap_sat_fly: "ap_wired c \<Longrightarrow> ap_sat c (flyTo L c nav st)"
  by (simp add: flyTo_def Let_def case_prod_beta sat_andThen ap_sat_motors ap_sat_cargo)

lemma ap_sat_kover: "ap_wired c \<Longrightarrow> ap_sat c (doKover c nav)"
  unfolding doKover_def
  by (intro sat_andThen ap_sat_motors ap_sat_cargo) (auto simp: ap_out_proxy ap_inv_def ap_guar_def)

lemma ap_sat_waypoint: "ap_wired c \<Longrightarrow> 0 \<le> idx \<Longrightarrow> ap_sat c (atWaypoint L c nav st steps idx step)"
  unfolding atWaypoint_def
  by (auto simp: ap_sat_hold ap_sat_fly ap_sat_completed ap_inv_def ap_guar_def intro!: sat_andThen)

lemma ap_sat_control: "ap_wired c \<Longrightarrow> ap_sat c (controlMission L c nav m st i)"
  unfolding controlMission_def Let_def
  by (auto simp: ap_sat_completed ap_sat_waypoint ap_inv_def ap_guar_def split: gval.splits)

lemma ap_sat_step: "ap_wired c \<Longrightarrow> ap_sat c (ap_controlStep L c)"
  unfolding ap_controlStep_def stepControl_def
  by (auto simp: ap_sat_poll ap_sat_preflight ap_sat_kover ap_sat_control split: option.splits intro!: sat_andThen)

lemma ap_sat_handlers: "ap_wired c \<Longrightarrow> (a, h) \<in> set (ap_registerHandlers c) \<Longrightarrow> ap_sat c (h m)"
  by (auto simp: ap_registerHandlers_def handleMissionLoad_ap_def handleCmd_def handleGetState_ap_def
      ap_sat_runCommand loadMission_inv ap_out_proxy Let_def split: option.splits intro!: sat_andThen)

lemma ap_sat_threads: "ap_wired c \<Longrightarrow> p \<in> ap_threads L c \<Longrightarrow> ap_sat c p"
  unfolding ap_threads_def ap_dispatch_def
  by (auto simp: ap_sat_step intro!: sat_registered ap_sat_handlers)

lemma New_ap_wired [simp]: "ap_wired (fst (New_ap h cfg))"
  by (simp add: New_ap_def Let_def ap_wired_def newBase_def)

lemma New_ap_inv: "ap_inv (snd (New_ap h cfg))"
  by (simp add: New_ap_def Let_def ap_inv_def)

interpretation autopilot: proxied_component "ap_threads L (fst (New_ap h cfg))" "snd (New_ap h cfg)"
    ap_inv ap_guar "bcID (apBase (fst (New_ap h cfg)))" "pxMonitor (apProxy (fst (New_ap h cfg)))" for L h cfg
  by unfold_locales (auto simp: New_ap_inv ap_sat_threads)

interpretation ap_cmds: guarded_component "apBase c" "ap_registerHandlers c"
    "{''mission_load'', ''cmd''}" "{''security_monitor''}" for c
  by unfold_locales (auto simp: ap_registerHandlers_def handleMissionLoad_ap_def handleCmd_def)

section \<open>The state machine\<close>

definition demo_ap :: "ap_cfg \<times> ap_state" where
  "demo_ap = New_ap demo_host (FromEnv demo_host)"

lemma demo_ap_New: "(fst demo_ap, snd demo_ap) = New_ap demo_host (FromEnv demo_host)"
  by (simp add: demo_ap_def)

text \<open>C16. Under any schedule, one step of any goroutine of the autopilot starts a preflight only from IDLE
  or MISSION\_LOADED with a mission loaded, and starts execution only from PRE\_FLIGHT or PAUSED or by
  activating KOVER; every reachable state is one of the eight states of the machine, and
  PRE\_FLIGHT is held only with a mission and a start time.\<close>

theorem autopilot_transitions:
  assumes "(c, s0) = New_ap h cfg" and "reachable (ap_threads L c) s0 s ps tr"
    and "i < length ps" and "pstep s (ps ! i) l s' p'"
  shows "apState s \<in> ap_all_states \<and>
     (apState s = StatePreFlight \<longrightarrow> apMission s \<noteq> None \<and> preFlightStartedAt s \<noteq> None) \<and>
     (apState s' = StatePreFlight \<and> apState s \<noteq> StatePreFlight \<longrightarrow>
        apState s \<in> {StateIDLE, StateMissionLoaded} \<and> apMission s \<noteq> None) \<and>
     (apState s' = StateExecuting \<and> apState s \<noteq> StateExecuting \<longrightarrow>
        apState s \<in> {StatePreFlight, StatePaused} \<or> koverActive s')"
proof -
  from assms(1) have eqs: "c = fst (New_ap h cfg)" "s0 = snd (New_ap h cfg)"
    by (metis fst_conv) (metis assms(1) snd_conv)
  have "ap_inv s \<and> (s' = s \<or> ap_guar s s')"
    using autopilot.next_step [of L h cfg s ps tr i l s' p'] assms(2-4) by (simp add: eqs)
  then show ?thesis by (auto simp: ap_inv_def ap_guar_def)
qed

theorem autopilot_transitions_witness:
  "\<exists>ps l s' p'. reachable (ap_threads demo_libm (fst demo_ap)) (snd demo_ap) (snd demo_ap) ps [] \<and>
     pstep (snd demo_ap) (ps ! 0) l s' p' \<and> apState (snd demo_ap) \<in> ap_all_states"
proof -
  let ?p = "ap_dispatch (fst demo_ap) [(''action'', GStr ''get_state'')]"
  have "?p \<in> ap_threads demo_libm (fst demo_ap)" by (simp add: ap_threads_def)
  then have r: "reachable (ap_threads demo_libm (fst demo_ap)) (snd demo_ap) (snd demo_ap) [?p] []"
    by (intro reachable.spawn reachable.start)
  have "map_of (registered (apBase (fst demo_ap)) (ap_registerHandlers (fst demo_ap))) ''get_state'' = Some handleGetState_ap"
    by (rule map_of_registered) (simp_all add: ap_registerHandlers_def)
  then obtain k where k: "?p = Atom (\<lambda>s. s) k"
    by (simp add: ap_dispatch_def handleMessage_def get_str_def handleGetState_ap_def readState_def)
  have st: "pstep (snd demo_ap) ([?p] ! 0) [] (snd demo_ap) (k (snd demo_ap))"
    using pstep.atom [of "snd demo_ap" "\<lambda>s. s" k] by (simp add: k)
  from autopilot_transitions [OF demo_ap_New r _ st] r st show ?thesis by fastforce
qed

definition cmd_msg :: "string \<Rightarrow> gmap" where
  "cmd_msg cmd = [(''sender'', GStr ''security_monitor''), (''payload'', GMap [(''command'', GStr cmd)])]"

text \<open>What a command is specified to do with the state: from which states it acts, and to which it leads.\<close>

definition command_spec :: "string \<Rightarrow> ap_state \<Rightarrow> string" where
  "command_spec cmd s =
     (if cmd = ''START'' \<and> apMission s \<noteq> None \<and> apState s \<in> {StateMissionLoaded, StateIDLE} then StatePreFlight
      else if cmd = ''PAUSE'' \<and> apState s = StateExecuting then StatePaused
      else if cmd = ''RESUME'' \<and> apState s = StatePaused then StateExecuting
      else if cmd = ''ABORT'' then StateAborted
      else if cmd = ''RESET'' then StateIDLE
      else if cmd = ''EMERGENCY_STOP'' then StateEmergencyStop
      else if cmd = ''KOVER'' \<and> apState s \<notin> {StateExecuting, StatePaused} then StateExecuting
      else apState s)"

lemma applyCommand_spec:
  assumes "map_of commandTransitions cmd = Some t"
  shows "apState (snd (applyCommand cmd t now s)) = command_spec cmd s \<and>
    apMission (snd (applyCommand cmd t now s)) = (if cmd = ''RESET'' then None else apMission s) \<and>
    koverActive (snd (applyCommand cmd t now s)) =
      (if cmd \<in> {''ABORT'', ''RESET'', ''EMERGENCY_STOP''} then False else if cmd = ''KOVER'' then True else koverActive s)"
  using assms
  by (cases rule: commandTransitions_cases)
     (simp_all add: applyCommand_def transitState_def noTransition_def command_spec_def Let_def)

definition ap_motors_out :: "ap_cfg \<Rightarrow> gmap \<Rightarrow> string \<times> gmap" where
  "ap_motors_out c target = (pxMonitor (apProxy c), proxy_msg (apProxy c) ''proxy_publish'' (apMotors c) ''SET_TARGET'' target)"

definition ap_cargo_out :: "ap_cfg \<Rightarrow> string \<Rightarrow> string \<times> gmap" where
  "ap_cargo_out c action = (pxMonitor (apProxy c), proxy_msg (apProxy c) ''proxy_publish'' (apCargo c) action [])"

definition hold_target :: "gmap \<Rightarrow> gmap" where
  "hold_target nav = target_msg (Fin 0) (Fin 0) (Fin 0) (getFloat_ap nav ''alt_m'') (getFloat_ap nav ''lat'')
     (getFloat_ap nav ''lon'') (getFloat_ap nav ''heading_deg'') False"

lemma run_sendMotors [simp]:
  "run E (sendMotorsTarget c t) s tr =
     (let (topic, m) = ap_motors_out c t in ((), s, tr @ [Published topic m (on_pub E tr topic m)]))"
  by (simp add: sendMotorsTarget_def ProxyPublishAsync_def ap_motors_out_def Let_def)

lemma run_sendCargo [simp]:
  "run E (sendCargo c b) s tr =
     (let (topic, m) = ap_cargo_out c (cargo_action b) in
      ((), s\<lparr>cargoState := cargo_action b\<rparr>, tr @ [Published topic m (on_pub E tr topic m)]))"
  by (simp add: sendCargo_def ProxyPublishAsync_def ap_cargo_out_def Let_def)

lemma run_apLog [simp]:
  "run E (apLog c ev d) s tr =
     (let m = proxy_msg (alProxy (apAudit c)) ''proxy_publish'' (alJournal (apAudit c)) ''LOG_EVENT''
            [(''event'', GStr ev), (''source'', GStr (alSource (apAudit c))), (''details'', GMap d)];
          t = pxMonitor (alProxy (apAudit c))
      in ((), s, tr @ [Published t m (on_pub E tr t m)]))"
  by (simp add: logToJournal_def LogEvent_def ProxyPublishAsync_def Let_def)

definition ap_core :: "ap_state \<Rightarrow> string \<times> gmap option \<times> bool" where
  "ap_core s = (apState s, apMission s, koverActive s)"

lemma keeps_stop: "keeps ap_core (safeActuatorStop c)"
  unfolding safeActuatorStop_def
  by (rule sat_andThen) (simp_all add: sendMotorsTarget_def sendCargo_def ap_core_def sat_bind_any)

lemma afterCommand_keeps: "cmd \<noteq> ''START'' \<Longrightarrow> keeps ap_core (afterCommand c cmd x y)"
  unfolding afterCommand_def by (intro sat_andThen; simp add: keeps_stop sat_andThen)

lemma runCommand_core:
  assumes "cmd \<noteq> ''START''"
  shows "ap_core (final E (runCommand c cmd t now) s) = ap_core (snd (applyCommand cmd t now s))"
proof -
  have "ap_core (fst (snd (run E (afterCommand c cmd x y) s' []))) = ap_core s'" for x y s'
    by (rule keeps_run [OF afterCommand_keeps [OF assms]])
  then show ?thesis
    by (cases "fst (applyCommand cmd t now s)") (simp_all add: runCommand_def final_def)
qed



section \<open>Stop commands\<close>

definition stop_out :: "ap_cfg \<Rightarrow> ap_state \<Rightarrow> (string \<times> gmap) list" where
  "stop_out c s =
     (case lastNavState s of None \<Rightarrow> [] | Some nav \<Rightarrow> [ap_motors_out c (hold_target nav)]) @ [ap_cargo_out c ''CLOSE'']"

lemma stop_run:
  "\<exists>evs. run E (safeActuatorStop c) s tr = ((), s\<lparr>cargoState := ''CLOSE''\<rparr>, tr @ evs) \<and> sent evs = stop_out c s"
  by (cases "lastNavState s")
     (simp_all add: safeActuatorStop_def stop_out_def case_prod_beta Let_def cargo_action_def hold_target_def nilmap_def)

definition stop_log :: "ap_cfg \<Rightarrow> string \<Rightarrow> string \<Rightarrow> string \<Rightarrow> (ap_state, hres) prog" where
  "stop_log c cmd old new =
     andThen (apLog c (if cmd = ''ABORT'' then ''AUTOPILOT_ABORTED'' else ''AUTOPILOT_EMERGENCY_STOP'') [(''old_state'', GStr old)])
      (andThen (if old \<noteq> new then apLog c ''AUTOPILOT_STATE_CHANGE''
                  [(''old_state'', GStr old), (''new_state'', GStr new), (''command'', GStr cmd)] else Ret ())
        (reply [(''ok'', GBool True), (''state'', GStr new)]))"

lemma keeps_stop_log: "keeps (\<lambda>s. s) (stop_log c cmd x y)"
  unfolding stop_log_def by (intro sat_andThen; simp)

lemma handleCmd_stop:
  assumes "cmd \<in> {''ABORT'', ''EMERGENCY_STOP''}"
  shows "handleCmd c (cmd_msg cmd) =
    Atom (\<lambda>s. s\<lparr>koverActive := False, apState := if cmd = ''ABORT'' then StateAborted else StateEmergencyStop\<rparr>)
      (\<lambda>s. andThen (safeActuatorStop c)
         (stop_log c cmd (apState s) (if cmd = ''ABORT'' then StateAborted else StateEmergencyStop)))"
proof -
  have "TrimSpace (ToUpper ''ABORT'') = ''ABORT''" "TrimSpace (ToUpper ''EMERGENCY_STOP'') = ''EMERGENCY_STOP''"
    by code_simp+
  moreover from assms have "cmd = ''ABORT'' \<or> cmd = ''EMERGENCY_STOP''" by simp
  ultimately show ?thesis
    by (elim disjE)
       (simp_all add: handleCmd_def cmd_msg_def IsTrustedSender_iff get_str_def get_map_def commandTransitions_def
        runCommand_def applyCommand_def transitState_def noTransition_def afterCommand_def stop_log_def andThen_assoc Let_def)
qed

text \<open>ABORT and EMERGENCY\_STOP act on the actuators first: whatever the autopilot was doing, it ends in
  the stop state with KOVER off, and the first messages it sends are a target with zero velocity
  (when a position is known) and the order to close the cargo bay.\<close>

theorem autopilot_stop:
  assumes "cmd \<in> {''ABORT'', ''EMERGENCY_STOP''}"
  shows "let s' = final E (handleCmd c (cmd_msg cmd)) s in
     apState s' = (if cmd = ''ABORT'' then StateAborted else StateEmergencyStop) \<and>
     \<not> koverActive s' \<and> cargoState s' = ''CLOSE'' \<and>
     (\<exists>rest. outputs E (handleCmd c (cmd_msg cmd)) s =
        (case lastNavState s of None \<Rightarrow> [] | Some nav \<Rightarrow> [ap_motors_out c (hold_target nav)]) @
        ap_cargo_out c ''CLOSE'' # rest)"
proof -
  let ?st = "if cmd = ''ABORT'' then StateAborted else StateEmergencyStop"
  let ?s = "s\<lparr>koverActive := False, apState := ?st\<rparr>" and ?q = "stop_log c cmd (apState s) ?st"
  obtain evs where evs: "run E (safeActuatorStop c) ?s [] = ((), ?s\<lparr>cargoState := ''CLOSE''\<rparr>, evs)"
      "sent evs = stop_out c ?s"
    using stop_run [of E c ?s "[]"] by auto
  have st: "fst (snd (run E ?q (?s\<lparr>cargoState := ''CLOSE''\<rparr>) evs)) = ?s\<lparr>cargoState := ''CLOSE''\<rparr>"
    by (rule keeps_run [OF keeps_stop_log])
  obtain new where new: "snd (snd (run E ?q (?s\<lparr>cargoState := ''CLOSE''\<rparr>) evs)) = evs @ new"
    by (rule exE [OF run_appends])
  have fin: "final E (handleCmd c (cmd_msg cmd)) s = ?s\<lparr>cargoState := ''CLOSE''\<rparr>"
      "outputs E (handleCmd c (cmd_msg cmd)) s = stop_out c s @ sent new"
    using evs st new by (simp_all only: handleCmd_stop [OF assms] final_def outputs_def run.simps run_andThen)
      (simp_all add: stop_out_def)
  show ?thesis unfolding Let_def fin by (simp add: stop_out_def)
qed

theorem autopilot_stop_witness:
  "apState (final demo_env (handleCmd (fst demo_ap) (cmd_msg ''EMERGENCY_STOP'')) (snd demo_ap)) = StateEmergencyStop"
  using autopilot_stop [of "''EMERGENCY_STOP''" demo_env "fst demo_ap" "snd demo_ap"] by (simp add: Let_def)

section \<open>Preflight\<close>

definition heard :: "ap_cfg \<Rightarrow> string \<Rightarrow> string \<Rightarrow> gmap \<Rightarrow> (hres \<Rightarrow> bool) \<Rightarrow> event list \<Rightarrow> bool" where
  "heard c topic action data P tr \<longleftrightarrow>
     (\<exists>r. Requested (pxMonitor (apProxy c)) (proxy_msg (apProxy c) ''proxy_request'' topic action data) r \<in> set tr \<and>
          P (proxy_answer r))"

lemma heard_mono: "heard c t a d P tr \<Longrightarrow> set tr \<subseteq> set tr' \<Longrightarrow> heard c t a d P tr'"
  by (auto simp: heard_def)

lemma heardI:
  "P (proxy_answer r) \<Longrightarrow> heard c t a d P
     (tr @ [Requested (pxMonitor (apProxy c)) (proxy_msg (apProxy c) ''proxy_request'' t a d) r])"
  by (auto simp: heard_def)

lemma run_asked:
  "run E (bind (ProxyRequest (apProxy c) t a d) f) s tr =
     (let m = proxy_msg (apProxy c) ''proxy_request'' t a d; r = on_req E tr (pxMonitor (apProxy c)) m in
      run E (f (proxy_answer r)) s (tr @ [Requested (pxMonitor (apProxy c)) m r]))"
  by (simp add: ProxyRequest_def Let_def)

text \<open>What each clearance guarantees when it lets the preflight go on.\<close>

definition mission_cleared :: "ap_cfg \<Rightarrow> string \<Rightarrow> event list \<Rightarrow> bool" where
  "mission_cleared c mid =
     heard c (apLimiter c) ''get_state'' [] (\<lambda>x. \<exists>pl. x = Inr pl \<and> get_str (nilmap pl) ''orvd_status'' = ''AUTHORIZED'' \<and>
       get_str (nilmap pl) ''orvd_mission_id'' \<in> (if mid = [] then UNIV else {[], mid}))"

definition takeoff_cleared :: "ap_cfg \<Rightarrow> string \<Rightarrow> event list \<Rightarrow> bool" where
  "takeoff_cleared c mid tr \<longleftrightarrow>
     heard c (apLimiter c) ''get_state'' [] (\<lambda>x. says_true x ''orvd_takeoff_authorized'') tr \<or>
     heard c (apLimiter c) ''orvd_takeoff'' [(''mission_id'', GStr mid)] (\<lambda>x. says_true x ''ok'') tr"

definition port_cleared :: "ap_cfg \<Rightarrow> string \<Rightarrow> event list \<Rightarrow> bool" where
  "port_cleared c mid tr \<longleftrightarrow>
     heard c (apEmergency c) ''get_state'' [] departed tr \<or>
     heard c (apEmergency c) ''droneport_takeoff'' [(''mission_id'', GStr mid)]
       (\<lambda>x. says_true x ''ok'' \<and> \<not> says_true x ''pending'') tr"

lemmas cleared_defs = mission_cleared_def takeoff_cleared_def port_cleared_def

lemma cleared_mono:
  "set tr \<subseteq> set tr' \<Longrightarrow> mission_cleared c mid tr \<Longrightarrow> mission_cleared c mid tr'"
  "set tr \<subseteq> set tr' \<Longrightarrow> takeoff_cleared c mid tr \<Longrightarrow> takeoff_cleared c mid tr'"
  "set tr \<subseteq> set tr' \<Longrightarrow> port_cleared c mid tr \<Longrightarrow> port_cleared c mid tr'"
  unfolding cleared_defs by (blast intro: heard_mono)+

lemma verdict_ok:
  "limiter_verdict mid x = [] \<Longrightarrow> \<exists>pl. x = Inr pl \<and> get_str (nilmap pl) ''orvd_status'' = ''AUTHORIZED'' \<and>
     get_str (nilmap pl) ''orvd_mission_id'' \<in> (if mid = [] then UNIV else {[], mid})"
  by (auto simp: limiter_verdict_def preflightPending_def Let_def split: sum.splits if_splits)

lemma run_checkLimiter:
  assumes "run E (checkLimiterAuthorization c) s tr = ([], s', tr')"
  shows "s' = s \<and> mission_cleared c (mission_id (apMission s)) tr'"
proof (cases "apMission s")
  case (Some mission)
  then have "mission_id (apMission s) = get_str mission ''mission_id''" by (simp add: mission_id_def nilmap_def)
  with Some assms obtain r where "s' = s" "limiter_verdict (mission_id (apMission s)) (proxy_answer r) = []"
      "tr' = tr @ [Requested (pxMonitor (apProxy c)) (proxy_msg (apProxy c) ''proxy_request'' (apLimiter c) ''get_state'' []) r]"
    by (auto simp: checkLimiterAuthorization_def withMission_def run_asked Let_def)
  then show ?thesis
    by (simp only: mission_cleared_def) (intro conjI refl heardI verdict_ok)
qed (use assms in \<open>simp add: checkLimiterAuthorization_def withMission_def\<close>)

lemma run_requestORVD:
  assumes "run E (requestORVDTakeoff c) s tr = ([], s', tr')"
  shows "s' = s \<and> takeoff_cleared c (mission_id (apMission s)) tr'"
  using assms
  by (auto simp: requestORVDTakeoff_def withMission_def run_asked Let_def takeoff_cleared_def heard_def
      mission_id_def nilmap_def split: option.splits if_splits)

lemma run_requestDroneport:
  assumes "run E (requestDroneportTakeoff c) s tr = ([], s', tr')"
  shows "s' = s \<and> port_cleared c (mission_id (apMission s)) tr'"
  using assms
  by (auto simp: requestDroneportTakeoff_def withMission_def run_asked Let_def port_cleared_def heard_def
      mission_id_def nilmap_def preflightPending_def split: option.splits if_splits)

lemma keeps_checks:
  "keeps (\<lambda>s. s) (checkLimiterAuthorization c)" "keeps (\<lambda>s. s) (requestORVDTakeoff c)"
  "keeps (\<lambda>s. s) (requestDroneportTakeoff c)"
  unfolding checkLimiterAuthorization_def requestORVDTakeoff_def requestDroneportTakeoff_def withMission_def
  by (auto intro!: sat_bind_any sat_ProxyRequest split: option.splits)

text \<open>A clearance that leads to EXECUTING has passed.\<close>

lemma clearance_passed:
  assumes "run E (clearance check nxt) s tr = (u, s', tr')" "keeps (\<lambda>s. s) check"
    and "apState s = StatePreFlight" "apState s' = StateExecuting"
  obtains tr1 where "run E check s tr = ([], s, tr1)" "run E nxt s tr1 = (u, s', tr')"
proof -
  obtain r tr1 where r: "run E check s tr = (r, s, tr1)"
    using keeps_run [OF assms(2), of E s tr] by (metis prod.collapse)
  have "r = []"
    using assms(1,3,4) by (auto simp: clearance_def run_bind r preflightAbort_def split: if_splits)
  with assms(1) r that show ?thesis by (simp add: clearance_def run_bind preflightPending_def)
qed

text \<open>C6. The preflight is sound: when a preflight round takes the autopilot from PRE\_FLIGHT to EXECUTING,
  the limiter has answered in this round that the mission is AUTHORIZED (for this mission, when both
  ids are known), the takeoff was cleared by the traffic service through the limiter, and the
  droneport has let the drone go through the emergency component.\<close>

theorem preflight_clearances:
  assumes "run E (stepPreFlight c) s [] = (u, s', tr)"
    and "apState s = StatePreFlight" and "apState s' = StateExecuting"
  shows "mission_cleared c (mission_id (apMission s)) tr \<and> takeoff_cleared c (mission_id (apMission s)) tr \<and>
    port_cleared c (mission_id (apMission s)) tr \<and> apMission s \<noteq> None"
proof -
  obtain tr0 where run: "run E (preflightChecks c) s tr0 = (u, s', tr)"
    using assms by (auto simp: stepPreFlight_def Let_def split: option.splits bool.splits if_splits)
  obtain tr1 where 1: "run E (checkLimiterAuthorization c) s tr0 = ([], s, tr1)"
      "run E (clearance (requestORVDTakeoff c) (clearance (requestDroneportTakeoff c) (preflightPassed c))) s tr1 = (u, s', tr)"
    using clearance_passed [OF run [unfolded preflightChecks_def] keeps_checks(1) assms(2,3)] .
  obtain tr2 where 2: "run E (requestORVDTakeoff c) s tr1 = ([], s, tr2)"
      "run E (clearance (requestDroneportTakeoff c) (preflightPassed c)) s tr2 = (u, s', tr)"
    using clearance_passed [OF 1(2) keeps_checks(2) assms(2,3)] .
  obtain tr3 where 3: "run E (requestDroneportTakeoff c) s tr2 = ([], s, tr3)" "run E (preflightPassed c) s tr3 = (u, s', tr)"
    using clearance_passed [OF 2(2) keeps_checks(3) assms(2,3)] .
  have sub: "set tr1 \<subseteq> set tr" "set tr2 \<subseteq> set tr" "set tr3 \<subseteq> set tr"
    by (rule run_extends [OF 1(2)], rule run_extends [OF 2(2)], rule run_extends [OF 3(2)])
  have "apMission s \<noteq> None"
    using 1(1) by (auto simp: checkLimiterAuthorization_def withMission_def split: option.splits)
  then show ?thesis
    using run_checkLimiter [OF 1(1)] run_requestORVD [OF 2(1)] run_requestDroneport [OF 3(1)] cleared_mono sub by blast
qed

definition cleared_env :: env where
  "cleared_env = demo_env\<lparr>on_req := (\<lambda>_ _ _. Inr [(''payload'', GMap [(''target_response'', GMap [(''payload'',
     GMap [(''orvd_status'', GStr ''AUTHORIZED''), (''orvd_takeoff_authorized'', GBool True),
           (''droneport_phase'', GStr ''DEPARTED'')])])])])\<rparr>"

definition demo_preflight :: ap_state where
  "demo_preflight = (snd demo_ap)\<lparr>apMission := Some [(''mission_id'', GStr ''m1'')], apState := StatePreFlight,
     preFlightStartedAt := None\<rparr>"

lemma cleared_answer:
  "proxy_answer (on_req cleared_env tr t m) = Inr (Some [(''orvd_status'', GStr ''AUTHORIZED''),
     (''orvd_takeoff_authorized'', GBool True), (''droneport_phase'', GStr ''DEPARTED'')])"
  by (simp add: cleared_env_def proxy_answer_def get_map_def get_str_def)

theorem preflight_clearances_witness:
  "\<exists>s' tr. run cleared_env (stepPreFlight (fst demo_ap)) demo_preflight [] = ((), s', tr) \<and>
     apState s' = StateExecuting \<and> mission_cleared (fst demo_ap) ''m1'' tr \<and> port_cleared (fst demo_ap) ''m1'' tr"
proof -
  have mid: "apMission demo_preflight = Some [(''mission_id'', GStr ''m1'')]" "preFlightStartedAt demo_preflight = None"
      "mission_id (apMission demo_preflight) = ''m1''" "apState demo_preflight = StatePreFlight"
    by (simp_all add: demo_preflight_def mission_id_def nilmap_def get_str_def)
  have checks: "\<exists>tr'. run cleared_env (checkLimiterAuthorization (fst demo_ap)) demo_preflight tr = ([], demo_preflight, tr')"
      "\<exists>tr'. run cleared_env (requestORVDTakeoff (fst demo_ap)) demo_preflight tr = ([], demo_preflight, tr')"
      "\<exists>tr'. run cleared_env (requestDroneportTakeoff (fst demo_ap)) demo_preflight tr = ([], demo_preflight, tr')" for tr
    by (simp_all add: checkLimiterAuthorization_def requestORVDTakeoff_def requestDroneportTakeoff_def withMission_def
        mid run_asked Let_def cleared_answer limiter_verdict_def says_true_def is_true_def departed_def nilmap_def get_str_def)
  have nxt: "run E check s tr = ([], s, tr') \<Longrightarrow> run E (clearance check nxt) s tr = run E nxt s tr'"
    for E check nxt tr tr' and s :: ap_state
    by (simp add: clearance_def run_bind preflightPending_def)
  obtain tr1 tr2 tr3 where
      "run cleared_env (checkLimiterAuthorization (fst demo_ap)) demo_preflight [] = ([], demo_preflight, tr1)"
      "run cleared_env (requestORVDTakeoff (fst demo_ap)) demo_preflight tr1 = ([], demo_preflight, tr2)"
      "run cleared_env (requestDroneportTakeoff (fst demo_ap)) demo_preflight tr2 = ([], demo_preflight, tr3)"
    using checks by blast
  then have "run cleared_env (preflightChecks (fst demo_ap)) demo_preflight [] =
      run cleared_env (preflightPassed (fst demo_ap)) demo_preflight tr3"
    unfolding preflightChecks_def by (simp only: nxt)
  then have "run cleared_env (stepPreFlight (fst demo_ap)) demo_preflight [] =
      run cleared_env (preflightPassed (fst demo_ap)) demo_preflight tr3"
    by (simp add: stepPreFlight_def mid split: bool.splits)
  moreover obtain s' tr where r: "run cleared_env (stepPreFlight (fst demo_ap)) demo_preflight [] = ((), s', tr)"
    by (metis (full_types) old.unit.exhaust prod_cases3)
  ultimately have "apState s' = StateExecuting" by (auto simp: preflightPassed_def mid Let_def)
  with preflight_clearances [OF r mid(4)] r show ?thesis unfolding mid(3) by blast
qed

section \<open>The control loop\<close>

definition open_msg :: "ap_cfg \<Rightarrow> gmap" where
  "open_msg c = proxy_msg (apProxy c) ''proxy_publish'' (apCargo c) ''OPEN'' []"

text \<open>The autopilot is at work on a waypoint that asks for the drop.\<close>

definition dropping :: "ap_state \<Rightarrow> bool" where
  "dropping s \<longleftrightarrow> apState s = StateExecuting \<and> \<not> koverActive s \<and>
     (\<exists>mission step. apMission s = Some mission \<and> nat (currentStepIndex s) < length (get_list mission ''steps'') \<and>
        get_list mission ''steps'' ! nat (currentStepIndex s) = GMap step \<and> get_bool step ''drop'')"

abbreviation no_open :: "ap_cfg \<Rightarrow> (ap_state, 'a) prog \<Rightarrow> bool" where
  "no_open c p \<equiv> sends (\<lambda>_ m. m \<noteq> open_msg c) p"

lemma not_open [simp]:
  "proxy_msg px ''proxy_request'' t a d \<noteq> open_msg c" "a \<noteq> ''OPEN'' \<Longrightarrow> proxy_msg px k t a d \<noteq> open_msg c"
  "CreateResponse now cid pl who ok e \<noteq> open_msg c"
  by (simp_all add: open_msg_def proxy_msg_def CreateResponse_def)

lemma no_open_request: "no_open c (ProxyRequest (apProxy c) t a d)"
  by (rule sat_ProxyRequest) simp

lemma no_open_motors: "no_open c (sendMotorsTarget c t)"
  by (simp add: sendMotorsTarget_def sat_bind_any)

lemma no_open_close: "no_open c (sendCargo c False)"
  by (simp add: sendCargo_def cargo_action_def sat_bind_any)

lemma no_open_stop: "no_open c (safeActuatorStop c)"
  unfolding safeActuatorStop_def by (rule sat_andThen) (simp_all add: no_open_motors no_open_close)

lemma no_open_poll: "no_open c (pollNavigationIfDue_ap c)"
  unfolding pollNavigationIfDue_ap_def
  by (auto simp: no_open_request split: prod.splits bool.splits sum.splits option.splits intro!: sat_bind_any)

lemma no_open_preflight: "no_open c (stepPreFlight c)"
  unfolding stepPreFlight_def preflightChecks_def clearance_def checkLimiterAuthorization_def requestORVDTakeoff_def
    requestDroneportTakeoff_def withMission_def preflightAbort_def preflightPassed_def
  by (auto simp: no_open_request split: option.splits bool.splits intro!: sat_bind_any)

lemma no_open_after: "no_open c (afterCommand c cmd x y)"
  unfolding afterCommand_def
  by (intro sat_andThen; simp add: no_open_stop no_open_preflight sat_andThen)

lemma no_open_handlers: "(a, h) \<in> set (ap_registerHandlers c) \<Longrightarrow> no_open c (h m)"
  by (auto simp: ap_registerHandlers_def handleMissionLoad_ap_def handleCmd_def handleGetState_ap_def runCommand_def
      no_open_after Let_def split: option.splits cmdOutcome.splits intro!: sat_andThen)

lemma no_open_hold: "no_open c (holdPosition c nav)"
  by (simp add: holdPosition_def sat_andThen no_open_motors no_open_close)

lemma no_open_kover: "no_open c (doKover c nav)"
  unfolding doKover_def by (intro sat_andThen no_open_motors no_open_close) simp

lemma no_open_completed: "no_open c (missionCompleted c mid)"
  unfolding missionCompleted_def notifyDroneportLand_def notifyORVDComplete_def
  by (auto simp: no_open_request intro!: sat_andThen sat_bind_any)

lemma no_open_fly: "\<not> get_bool step ''drop'' \<Longrightarrow> no_open c (flyTo L c nav step)"
  by (simp add: flyTo_def Let_def case_prod_beta sat_andThen no_open_motors no_open_close)

lemma no_open_waypoint:
  "st = StatePaused \<or> \<not> get_bool step ''drop'' \<Longrightarrow> no_open c (atWaypoint L c nav st steps idx step)"
  unfolding atWaypoint_def
  by (auto simp: no_open_hold no_open_fly no_open_completed intro!: sat_andThen)

lemma no_open_control:
  assumes "\<not> dropping s" "apMission s = Some mission" "\<not> koverActive s"
    and "apState s = st" "st = StateExecuting \<or> st = StatePaused"
  shows "no_open c (controlMission L c nav mission st (currentStepIndex s))"
proof -
  let ?steps = "get_list mission ''steps''" and ?i = "if currentStepIndex s < 0 then 0 else currentStepIndex s"
  have "no_open c (atWaypoint L c nav st ?steps ?i step)"
    if "?i < int (length ?steps)" "?steps ! nat ?i = GMap step" for step
    using that assms by (intro no_open_waypoint) (auto simp: dropping_def split: if_splits)
  then show ?thesis
    unfolding controlMission_def Let_def by (auto simp: no_open_completed split: gval.splits)
qed

lemma poll_keeps: "keeps (\<lambda>s. (ap_core s, currentStepIndex s)) (pollNavigationIfDue_ap c)"
  unfolding pollNavigationIfDue_ap_def
  by (auto simp: ap_core_def split: prod.splits bool.splits sum.splits option.splits intro!: sat_bind_any sat_ProxyRequest)

lemma dropping_cong:
  "(ap_core s', currentStepIndex s') = (ap_core s, currentStepIndex s) \<Longrightarrow> dropping s' = dropping s"
  by (simp add: dropping_def ap_core_def)

lemma sent_step:
  assumes "\<not> dropping s" "(t, open_msg c) \<in> set (sent (snd (snd (run E (stepControl L c) s tr))))"
  shows "(t, open_msg c) \<in> set (sent tr)"
proof -
  define p where "p = (if apState s = StatePreFlight then stepPreFlight c
     else case lastNavState s of
       None \<Rightarrow> Ret ()
     | Some nav \<Rightarrow>
         if koverActive s then doKover c nav
         else case apMission s of
           None \<Rightarrow> Ret ()
         | Some mission \<Rightarrow>
             if apState s \<noteq> StateExecuting \<and> apState s \<noteq> StatePaused then Ret ()
             else controlMission L c nav mission (apState s) (currentStepIndex s))"
  have "no_open c p"
    unfolding p_def by (simp add: no_open_preflight no_open_kover no_open_control [OF assms(1)] split: option.split)
  from sends_run [OF this, of t "open_msg c" E s tr] assms(2) show ?thesis
    by (simp add: stepControl_def p_def)
qed


definition demo_flight :: ap_state where
  "demo_flight = (snd demo_ap)\<lparr>apMission := Some [(''steps'', GList [GMap [(''lat'', GFloat (Fin 1)), (''drop'', GBool True)]])],
     apState := StateExecuting, lastNavState := Some [], apLastNavPollTs := Fin 9\<rparr>"


section \<open>KOVER\<close>

definition descend_target :: "gmap \<Rightarrow> gmap" where
  "descend_target nav = target_msg (Fin 0) (Fin 0) (Fin (- 1)) (Fin 0) (getFloat_ap nav ''lat'')
     (getFloat_ap nav ''lon'') (getFloat_ap nav ''heading_deg'') False"

lemma run_doKover:
  "\<exists>rest. run E (doKover c nav) s tr =
     ((), if fle (getFloat_ap nav ''alt_m'') (Fin (1 / 2))
          then s\<lparr>cargoState := ''CLOSED'', koverActive := False, apState := StatePaused\<rparr>
          else s\<lparr>cargoState := ''CLOSED''\<rparr>, tr @ rest) \<and>
     (\<exists>logs. sent rest = [ap_motors_out c (descend_target nav), ap_cargo_out c ''CLOSE''] @ logs \<and>
        (fle (getFloat_ap nav ''alt_m'') (Fin (1 / 2)) \<longleftrightarrow> logs \<noteq> [])) \<and> (\<forall>t m r. Requested t m r \<notin> set rest)"
  by (simp add: doKover_def case_prod_beta Let_def cargo_action_def descend_target_def)

text \<open>KOVER, the emergency descent: with a position known, every control round in KOVER overrides the
  mission, orders a straight descent at one metre per second and then a closed bay, and changes
  nothing else until the altitude is at most half a metre; then KOVER ends in PAUSED.\<close>

theorem kover_descends:
  assumes "koverActive s" and "lastNavState s = Some nav" and "apState s \<noteq> StatePreFlight"
  shows "take 2 (outputs E (stepControl L c) s) = [ap_motors_out c (descend_target nav), ap_cargo_out c ''CLOSE''] \<and>
    final E (stepControl L c) s =
      (if fle (getFloat_ap nav ''alt_m'') (Fin (1 / 2))
       then s\<lparr>cargoState := ''CLOSED'', koverActive := False, apState := StatePaused\<rparr>
       else s\<lparr>cargoState := ''CLOSED''\<rparr>)"
proof -
  have "run E (stepControl L c) s [] = run E (doKover c nav) s []"
    using assms by (simp add: stepControl_def)
  then show ?thesis using run_doKover [of E c nav s "[]"] by (auto simp: run_views)
qed

theorem kover_descends_witness:
  "final demo_env (stepControl demo_libm (fst demo_ap)) (demo_flight\<lparr>koverActive := True\<rparr>) =
     demo_flight\<lparr>cargoState := ''CLOSED'', koverActive := False, apState := StatePaused\<rparr>"
proof -
  have "lastNavState demo_flight = Some []" "apState demo_flight = StateExecuting" by (simp_all add: demo_flight_def)
  with kover_descends [of "demo_flight\<lparr>koverActive := True\<rparr>" "[]" demo_env demo_libm "fst demo_ap"]
  show ?thesis by (simp add: getFloat_ap_def)
qed

text \<open>C39. KOVER opens a way around the preflight: on the ground with a loaded mission, the commands KOVER
  and RESUME with one control round between them bring the autopilot into EXECUTING with that
  mission, and nobody is asked for a clearance on the way.\<close>

theorem kover_resume_skips_preflight:
  assumes "apState s = StateMissionLoaded" and "lastNavState s = Some nav"
    and "fle (getFloat_ap nav ''alt_m'') (Fin (1 / 2))"
  shows "\<exists>r s' tr. run E (bind (handleCmd c (cmd_msg ''KOVER'')) (\<lambda>_. bind (stepControl L c)
      (\<lambda>_. handleCmd c (cmd_msg ''RESUME'')))) s [] = (r, s', tr) \<and>
    apState s' = StateExecuting \<and> apMission s' = apMission s \<and> \<not> koverActive s' \<and>
    (\<forall>t m x. Requested t m x \<notin> set tr)"
proof -
  have names: "TrimSpace (ToUpper ''KOVER'') = ''KOVER''" "TrimSpace (ToUpper ''RESUME'') = ''RESUME''" by code_simp+
  let ?s1 = "s\<lparr>koverActive := True, apState := StateExecuting\<rparr>"
  have 1: "\<exists>r tr1. run E (handleCmd c (cmd_msg ''KOVER'')) s [] = (r, ?s1, tr1) \<and> (\<forall>t m x. Requested t m x \<notin> set tr1)"
    using assms(1) by (simp add: handleCmd_def cmd_msg_def IsTrustedSender_iff get_str_def get_map_def names
        commandTransitions_def runCommand_def applyCommand_def transitState_def noTransition_def afterCommand_def Let_def)
  have 2: "\<exists>tr2. run E (stepControl L c) ?s1 tr =
      ((), s\<lparr>cargoState := ''CLOSED'', koverActive := False, apState := StatePaused\<rparr>, tr @ tr2) \<and>
      (\<forall>t m x. Requested t m x \<notin> set tr2)" for tr
    using run_doKover [of E c nav ?s1 tr] assms(2,3) by (auto simp: stepControl_def)
  have 3: "\<exists>r tr3. run E (handleCmd c (cmd_msg ''RESUME'')) (s\<lparr>cargoState := ''CLOSED'', koverActive := False, apState := StatePaused\<rparr>) tr =
      (r, s\<lparr>cargoState := ''CLOSED'', koverActive := False, apState := StateExecuting\<rparr>, tr @ tr3) \<and>
      (\<forall>t m x. Requested t m x \<notin> set tr3)" for tr
    by (simp add: handleCmd_def cmd_msg_def IsTrustedSender_iff get_str_def get_map_def names
        commandTransitions_def runCommand_def applyCommand_def transitState_def noTransition_def afterCommand_def Let_def)
  from 1 obtain r1 tr1 where a: "run E (handleCmd c (cmd_msg ''KOVER'')) s [] = (r1, ?s1, tr1)"
      "\<forall>t m x. Requested t m x \<notin> set tr1" by blast
  from 2 [of tr1] obtain tr2 where b: "run E (stepControl L c) ?s1 tr1 =
      ((), s\<lparr>cargoState := ''CLOSED'', koverActive := False, apState := StatePaused\<rparr>, tr1 @ tr2)"
      "\<forall>t m x. Requested t m x \<notin> set tr2" by blast
  show ?thesis using 3 [of "tr1 @ tr2"] a(2) b(2) by (auto simp: run_bind a(1) b(1))
qed

theorem kover_resume_skips_preflight_witness:
  "\<exists>r s' tr. run demo_env (bind (handleCmd (fst demo_ap) (cmd_msg ''KOVER'')) (\<lambda>_. bind (stepControl demo_libm (fst demo_ap))
      (\<lambda>_. handleCmd (fst demo_ap) (cmd_msg ''RESUME'')))) (demo_flight\<lparr>apState := StateMissionLoaded\<rparr>) [] = (r, s', tr) \<and>
    apState s' = StateExecuting"
proof -
  have "lastNavState demo_flight = Some []" by (simp add: demo_flight_def)
  with kover_resume_skips_preflight [of "demo_flight\<lparr>apState := StateMissionLoaded\<rparr>" "[]" demo_env "fst demo_ap" demo_libm]
  show ?thesis by (auto simp: getFloat_ap_def)
qed

end
