(* ===== verification/Mission_Handler.thy ===== *)
theory Mission_Handler
  imports Component_Base
begin

text \<open>
  Package \<^verbatim>\<open>missionhandler\<close> (\<^verbatim>\<open>mission_handler/src/mission_handler.go\<close>, \<^verbatim>\<open>wpl_parser.go\<close>): the parser of
  QGC WPL files, the validation of missions, and the handlers that hand a mission first to the
  limiter and then to the autopilot. The parser reads the clock only to make up a mission id.
\<close>

section \<open>wpl\_parser.go\<close>

definition mavCmdNavWaypoint :: int where
  "mavCmdNavWaypoint = 16"

definition pad3 :: "nat \<Rightarrow> string" where
  "pad3 n = pad 3 (int n)"

text \<open>What one line of the file contributes.\<close>

datatype wpl_item = WplHome float64 float64 float64 | WplSkip | WplPoint float64 float64 float64

definition wpl_error :: "nat \<Rightarrow> string \<Rightarrow> string" where
  "wpl_error i what = ''invalid_wpl_line_'' @ Itoa (int i) @ what"

definition wpl_columns :: "string \<Rightarrow> string list" where
  "wpl_columns line =
     (let parts = Split line (CHR 0x09) in if length parts < 12 then Fields line else parts)"

definition wpl_line :: "host \<Rightarrow> nat \<Rightarrow> string \<Rightarrow> string + wpl_item" where
  "wpl_line h i line =
     (let parts = wpl_columns line in
      if length parts < 12 then Inl (wpl_error i ''_too_few_columns'')
      else case (Atoi (TrimSpace (parts ! 0)), Atoi (TrimSpace (parts ! 3)), ParseFloat h (TrimSpace (parts ! 8)),
                 ParseFloat h (TrimSpace (parts ! 9)), ParseFloat h (TrimSpace (parts ! 10))) of
        (Some idx, Some cmd, Some lat, Some lon, Some alt) \<Rightarrow>
          Inr (if idx = 0 \<and> Atoi (TrimSpace (parts ! 1)) = Some 1 then WplHome lat lon alt
               else if cmd \<noteq> mavCmdNavWaypoint then WplSkip else WplPoint lat lon alt)
      | _ \<Rightarrow> Inl (wpl_error i ''_parse_error''))"

definition wpl_step :: "nat \<Rightarrow> float64 \<Rightarrow> float64 \<Rightarrow> float64 \<Rightarrow> gmap" where
  "wpl_step n lat lon alt =
     [(''id'', GStr (''wp-'' @ pad3 n)), (''lat'', GFloat lat), (''lon'', GFloat lon), (''alt_m'', GFloat alt),
      (''speed_mps'', GFloat (Fin 5)), (''drop'', GBool False)]"

definition wpl_home :: "float64 \<Rightarrow> float64 \<Rightarrow> float64 \<Rightarrow> gmap" where
  "wpl_home lat lon alt = [(''lat'', GFloat lat), (''lon'', GFloat lon), (''alt_m'', GFloat alt)]"

text \<open>The loop over the lines after the header, from line number \<open>i\<close> on.\<close>

fun wpl_loop :: "host \<Rightarrow> nat \<Rightarrow> string list \<Rightarrow> gmap option \<Rightarrow> gmap list \<Rightarrow> string + gmap option \<times> gmap list" where
  "wpl_loop h i [] home steps = Inr (home, steps)"
| "wpl_loop h i (l # ls) home steps =
     (case wpl_line h i l of
        Inl e \<Rightarrow> Inl e
      | Inr (WplHome lat lon alt) \<Rightarrow> wpl_loop h (Suc i) ls (Some (wpl_home lat lon alt)) steps
      | Inr WplSkip \<Rightarrow> wpl_loop h (Suc i) ls home steps
      | Inr (WplPoint lat lon alt) \<Rightarrow>
          wpl_loop h (Suc i) ls home (steps @ [wpl_step (length steps) lat lon alt]))"

definition nonEmptyLines :: "string \<Rightarrow> string list" where
  "nonEmptyLines s = filter (\<lambda>l. l \<noteq> []) (map TrimSpace (Split s (CHR 0x0A)))"

definition wpl_mission :: "string \<Rightarrow> gmap option \<Rightarrow> gmap list \<Rightarrow> gmap" where
  "wpl_mission missionID home steps =
     (let first = hd steps;
          hm = (case home of Some hm \<Rightarrow> hm
                | None \<Rightarrow> [(''lat'', the (map_of first ''lat'')), (''lon'', the (map_of first ''lon'')),
                           (''alt_m'', GFloat (Fin 0))])
      in [(''mission_id'', GStr missionID), (''home'', GMap hm), (''steps'', GList (map GMap steps))])"

definition ParseWPL :: "host \<Rightarrow> string \<Rightarrow> string \<Rightarrow> ('s, string + gmap) prog" where
  "ParseWPL h wplContent missionID =
     (let content = TrimSpace wplContent; nonEmpty = nonEmptyLines content; header = ToUpper (hd nonEmpty) in
      if content = [] then Ret (Inl ''empty_or_invalid_wpl'')
      else if nonEmpty = [] then Ret (Inl ''empty_wpl'')
      else if \<not> HasPrefix header ''QGC WPL'' \<and> \<not> Contains header ''WPL'' then Ret (Inl ''invalid_wpl_header'')
      else case wpl_loop h 1 (tl nonEmpty) None [] of
        Inl e \<Rightarrow> Ret (Inl e)
      | Inr (home, steps) \<Rightarrow>
          if steps = [] then Ret (Inl ''no_waypoints_in_wpl'')
          else if missionID = [] then
            Now (\<lambda>now. Ret (Inr (wpl_mission (''wpl-'' @ Itoa (now div 1000000)) home steps)))
          else Ret (Inr (wpl_mission missionID home steps)))"

section \<open>mission\_handler.go\<close>

record mh_cfg =
  mhBase :: BaseComponent
  mhAutopilot :: string
  mhLimiter :: string
  mhProxy :: ProxyClient
  mhAudit :: AuditLogger

record mh_state = base_state +
  lastMission :: "gmap option"
  mhLastError :: string

definition New_mh :: "host \<Rightarrow> Config \<Rightarrow> mh_cfg \<times> mh_state" where
  "New_mh h cfg =
     (let px = \<lparr>pxSender = ComponentID cfg, pxMonitor = secTopic h cfg,
                pxTimeout = env_float h ''MISSION_HANDLER_REQUEST_TIMEOUT_S'' positive (Fin 10)\<rparr>
      in (\<lparr>mhBase = newBase cfg ''mission_handler'',
           mhAutopilot = orElse (Getenv h ''AUTOPILOT_TOPIC'') (BrokerTopicFor cfg ''autopilot''),
           mhLimiter = BrokerTopicFor cfg ''limiter'', mhProxy = px,
           mhAudit = \<lparr>alProxy = px, alJournal = BrokerTopicFor cfg ''journal'', alSource = ''mission_handler''\<rparr>\<rparr>,
          \<lparr>running = False, lastMission = None, mhLastError = []\<rparr>))"

definition parseMission :: "host \<Rightarrow> gmap \<Rightarrow> (mh_state, string + gmap) prog" where
  "parseMission h payload =
     (if get_str payload ''wpl_content'' \<noteq> [] then
        ParseWPL h (get_str payload ''wpl_content'') (get_str payload ''mission_id'')
      else Ret (case map_of payload ''mission'' of
        Some (GMap mission) \<Rightarrow> Inr mission
      | Some GNilMap \<Rightarrow> Inl []
      | _ \<Rightarrow> Inl ''invalid_input_wpl_or_mission_required''))"

fun validate_mission_steps :: "nat \<Rightarrow> gval list \<Rightarrow> string option" where
  "validate_mission_steps i [] = None"
| "validate_mission_steps i (GMap step # ss) =
     (if \<not> has_key step ''lat'' then Some (''missing_lat_in_step_'' @ Itoa (int i))
      else if \<not> has_key step ''lon'' then Some (''missing_lon_in_step_'' @ Itoa (int i))
      else if \<not> has_key step ''alt_m'' then Some (''missing_alt_m_in_step_'' @ Itoa (int i))
      else validate_mission_steps (Suc i) ss)"
| "validate_mission_steps i (_ # ss) = Some (''invalid_step_'' @ Itoa (int i))"

text \<open>The error, or \<^const>\<open>None\<close> for a valid mission; both callers have checked that the mission is not nil.\<close>

definition validateMission :: "gmap \<Rightarrow> string option" where
  "validateMission mission =
     (if get_str mission ''mission_id'' = [] then Some ''invalid_mission_id''
      else if get_list mission ''steps'' = [] then Some ''empty_steps''
      else validate_mission_steps 0 (get_list mission ''steps''))"

abbreviation mhLog :: "mh_cfg \<Rightarrow> string \<Rightarrow> gmap \<Rightarrow> (mh_state, unit) prog" where
  "mhLog c \<equiv> logToJournal (mhAudit c)"

text \<open>Store the error, journal it, answer with it: the common end of every failing branch.\<close>

definition mhFail :: "mh_cfg \<Rightarrow> string \<Rightarrow> string \<Rightarrow> gmap \<Rightarrow> (mh_state, hres) prog" where
  "mhFail c event err extra =
     modify (\<lambda>s. s\<lparr>mhLastError := err\<rparr>)
      (andThen (mhLog c event ((''error'', GStr err) # extra))
        (reply [(''ok'', GBool False), (''error'', GStr err)]))"

text \<open>One hand-over of the mission by \<^verbatim>\<open>proxy_request\<close>; an answer without \<^verbatim>\<open>ok\<close> stops the load.\<close>

definition mission_arg :: "gmap \<Rightarrow> gmap" where
  "mission_arg mission = [(''mission'', GMap mission)]"

definition handOver :: "mh_cfg \<Rightarrow> string \<Rightarrow> gmap \<Rightarrow> string \<Rightarrow> string \<Rightarrow> string
    \<Rightarrow> (mh_state, hres) prog \<Rightarrow> (mh_state, hres) prog" where
  "handOver c topic mission event noResponse rejected p =
     bind (ProxyRequest (mhProxy c) topic ''mission_load'' (mission_arg mission)) (\<lambda>r.
       let mid = [(''mission_id'', GStr (get_str mission ''mission_id''))] in
       case r of
         Inl _ \<Rightarrow> mhFail c event noResponse mid
       | Inr (Some resp) \<Rightarrow>
           if \<not> is_true resp ''ok'' then mhFail c event (orElse (get_str resp ''error'') rejected) mid else p
       | Inr None \<Rightarrow> p)"

definition sendMission :: "mh_cfg \<Rightarrow> gmap \<Rightarrow> (mh_state, hres) prog" where
  "sendMission c mission =
     (let mid = [(''mission_id'', GStr (get_str mission ''mission_id''))] in
      andThen (mhLog c ''MISSION_HANDLER_MISSION_RECEIVED'' mid)
       (handOver c (mhLimiter c) mission ''MISSION_HANDLER_LIMITER_ERROR'' ''limiter_no_response'' ''limiter_rejected''
         (andThen (mhLog c ''MISSION_HANDLER_MISSION_SENT_TO_LIMITER'' mid)
           (handOver c (mhAutopilot c) mission ''MISSION_HANDLER_AUTOPILOT_ERROR'' ''autopilot_no_response'' ''autopilot_error''
             (andThen (mhLog c ''MISSION_HANDLER_MISSION_SENT_TO_AUTOPILOT'' mid)
               (reply [(''ok'', GBool True)]))))))"

text \<open>The part \<^verbatim>\<open>handleLoadMission\<close> and \<^verbatim>\<open>handleValidateOnly\<close> share: parse and validate, then go on.\<close>

definition withValidMission :: "host \<Rightarrow> mh_cfg \<Rightarrow> gmap \<Rightarrow> (gmap \<Rightarrow> (mh_state, hres) prog) \<Rightarrow> (mh_state, hres) prog" where
  "withValidMission h c m k =
     (if \<not> IsTrustedSender m ''security_monitor'' then noReply
      else case get_map m ''payload'' of
        None \<Rightarrow> mhFail c ''MISSION_HANDLER_VALIDATION_ERROR'' ''invalid_input'' []
      | Some payload \<Rightarrow> bind (parseMission h payload) (\<lambda>r. case r of
          Inl err \<Rightarrow> mhFail c ''MISSION_HANDLER_VALIDATION_ERROR'' err []
        | Inr mission \<Rightarrow> (case validateMission mission of
            Some err \<Rightarrow> mhFail c ''MISSION_HANDLER_VALIDATION_ERROR'' err []
          | None \<Rightarrow> k mission)))"

definition handleLoadMission :: "host \<Rightarrow> mh_cfg \<Rightarrow> mh_state handler" where
  "handleLoadMission h c m = withValidMission h c m (\<lambda>mission.
     modify (\<lambda>s. s\<lparr>lastMission := Some mission, mhLastError := []\<rparr>) (sendMission c mission))"

definition handleValidateOnly :: "host \<Rightarrow> mh_cfg \<Rightarrow> mh_state handler" where
  "handleValidateOnly h c m = withValidMission h c m (\<lambda>_.
     modify (\<lambda>s. s\<lparr>mhLastError := []\<rparr>) (reply [(''ok'', GBool True)]))"

definition handleGetState_mh :: "mh_state handler" where
  "handleGetState_mh m =
     (if \<not> IsTrustedSender m ''security_monitor'' then noReply
      else readState (\<lambda>s. reply [(''last_mission'', map_val (lastMission s)), (''last_error'', GStr (mhLastError s))]))"

definition mh_registerHandlers :: "host \<Rightarrow> mh_cfg \<Rightarrow> (string \<times> mh_state handler) list" where
  "mh_registerHandlers h c =
     [(''LOAD_MISSION'', handleLoadMission h c), (''VALIDATE_ONLY'', handleValidateOnly h c),
      (''get_state'', handleGetState_mh)]"

definition mh_dispatch :: "host \<Rightarrow> mh_cfg \<Rightarrow> gmap \<Rightarrow> (mh_state, unit) prog" where
  "mh_dispatch h c = handleMessage (mhBase c) (registered (mhBase c) (mh_registerHandlers h c))"

end
