(* ===== verification/Mission_Load.thy ===== *)
theory Mission_Load
  imports Mission_Handler
begin

text \<open>
  Correctness of the mission handler: its contract under every schedule, the order of the hand-over
  (limiter before autopilot), the validity of parsed WPL files and the round trip through the
  WPL format.
\<close>

section \<open>Contract\<close>

definition mh_inv :: "mh_state \<Rightarrow> bool" where
  "mh_inv s \<longleftrightarrow> (\<forall>m. lastMission s = Some m \<longrightarrow> validateMission m = None)"

definition mh_wired :: "mh_cfg \<Rightarrow> bool" where
  "mh_wired c \<longleftrightarrow> pxSender (mhProxy c) = bcID (mhBase c) \<and> alProxy (mhAudit c) = mhProxy c"

abbreviation anyChange :: "'s \<Rightarrow> 's \<Rightarrow> bool" where
  "anyChange \<equiv> \<lambda>_ _. True"

abbreviation mh_sat :: "mh_cfg \<Rightarrow> (mh_state, 'a) prog \<Rightarrow> bool" where
  "mh_sat c p \<equiv> sat mh_inv anyChange (via_monitor (bcID (mhBase c)) (pxMonitor (mhProxy c))) anyResult p"

lemma mh_out_proxy:
  "mh_wired c \<Longrightarrow> via_monitor (bcID (mhBase c)) (pxMonitor (mhProxy c)) (pxMonitor (mhProxy c)) (proxy_msg (mhProxy c) k t a d)"
  "mh_wired c \<Longrightarrow> via_monitor (bcID (mhBase c)) (pxMonitor (mhProxy c)) (pxMonitor (alProxy (mhAudit c))) (proxy_msg (alProxy (mhAudit c)) k t a d)"
  by (simp_all add: mh_wired_def)

lemma mh_sat_fail: "mh_wired c \<Longrightarrow> mh_sat c (mhFail c ev e x)"
  unfolding mhFail_def by (simp add: sat_andThen mh_out_proxy mh_inv_def)

lemma mh_sat_handOver: "mh_wired c \<Longrightarrow> mh_sat c p \<Longrightarrow> mh_sat c (handOver c t m ev n r p)"
  unfolding handOver_def
  by (rule sat_bind_any, rule sat_ProxyRequest) (auto simp: mh_out_proxy mh_sat_fail Let_def split: sum.splits option.splits)

lemma mh_sat_send: "mh_wired c \<Longrightarrow> mh_sat c (sendMission c m)"
  unfolding sendMission_def Let_def
  by (intro sat_andThen mh_sat_handOver) (simp_all add: mh_out_proxy)

lemma mh_sat_parse: "mh_sat c (parseMission h p)"
  unfolding parseMission_def ParseWPL_def Let_def by (auto split: sum.splits prod.splits)

lemma mh_sat_valid:
  "mh_wired c \<Longrightarrow> (\<And>mission. validateMission mission = None \<Longrightarrow> mh_sat c (k mission)) \<Longrightarrow>
     mh_sat c (withValidMission h c m k)"
  unfolding withValidMission_def
  by (auto simp: mh_sat_fail mh_sat_parse split: option.splits sum.splits intro!: sat_bind_any)

lemma mh_sat_handlers: "mh_wired c \<Longrightarrow> (a, f) \<in> set (mh_registerHandlers h c) \<Longrightarrow> mh_sat c (f m)"
  by (auto simp: mh_registerHandlers_def handleLoadMission_def handleValidateOnly_def handleGetState_mh_def mh_sat_send
      mh_inv_def intro!: mh_sat_valid)

lemma New_mh_wired [simp]: "mh_wired (fst (New_mh h cfg))"
  by (simp add: New_mh_def Let_def mh_wired_def newBase_def)

lemma New_mh_inv: "mh_inv (snd (New_mh h cfg))"
  by (simp add: New_mh_def Let_def mh_inv_def)

interpretation mission_handler: proxied_component "range (mh_dispatch h (fst (New_mh h cfg)))" "snd (New_mh h cfg)"
    mh_inv anyChange "bcID (mhBase (fst (New_mh h cfg)))" "pxMonitor (mhProxy (fst (New_mh h cfg)))" for h cfg
  by unfold_locales
     (auto simp: New_mh_inv mh_dispatch_def intro!: sat_registered mh_sat_handlers)

interpretation mh_cmds: guarded_component "mhBase c" "mh_registerHandlers h c"
    "{''LOAD_MISSION'', ''VALIDATE_ONLY'', ''get_state''}" "{''security_monitor''}" for h c
  by unfold_locales (auto simp: mh_registerHandlers_def handleLoadMission_def handleValidateOnly_def
      handleGetState_mh_def withValidMission_def)

section \<open>The hand-over\<close>

definition load_msg :: "mh_cfg \<Rightarrow> string \<Rightarrow> gmap \<Rightarrow> gmap" where
  "load_msg c topic mission = proxy_msg (mhProxy c) ''proxy_request'' topic ''mission_load'' (mission_arg mission)"

text \<open>An answer the handler takes for an acceptance: \<^verbatim>\<open>ok\<close> is true, or the target answered without a payload.\<close>

definition accepts :: "string + gmap \<Rightarrow> bool" where
  "accepts r \<longleftrightarrow> (case proxy_answer r of Inr (Some resp) \<Rightarrow> is_true resp ''ok'' | Inr None \<Rightarrow> True | Inl _ \<Rightarrow> False)"

lemma run_mhLog:
  "\<exists>e. run E (mhLog c ev d) s tr = ((), s, tr @ [e]) \<and> requests [e] = []"
  by (simp add: logToJournal_def LogEvent_def ProxyPublishAsync_def Let_def)

lemma run_mhFail:
  "\<exists>e. run E (mhFail c ev err x) s tr =
     (Inr (Some [(''ok'', GBool False), (''error'', GStr err)]), s\<lparr>mhLastError := err\<rparr>, tr @ [e]) \<and> requests [e] = []"
  using run_mhLog [of E c ev "(''error'', GStr err) # x" "s\<lparr>mhLastError := err\<rparr>" tr] by (auto simp: mhFail_def)

lemma run_handOver:
  obtains r where
    "accepts r" "run E (handOver c t m ev n rej p) s tr = run E p s (tr @ [Requested (pxMonitor (mhProxy c)) (load_msg c t m) r])"
  | r e err where "\<not> accepts r" "requests [e] = []"
    "run E (handOver c t m ev n rej p) s tr =
       (Inr (Some [(''ok'', GBool False), (''error'', GStr err)]), s\<lparr>mhLastError := err\<rparr>,
        tr @ [Requested (pxMonitor (mhProxy c)) (load_msg c t m) r, e])"
proof -
  let ?r = "on_req E tr (pxMonitor (mhProxy c)) (load_msg c t m)"
  let ?tr = "tr @ [Requested (pxMonitor (mhProxy c)) (load_msg c t m) ?r]"
  have run: "run E (handOver c t m ev n rej p) s tr =
      run E (case proxy_answer ?r of
         Inl _ \<Rightarrow> mhFail c ev n [(''mission_id'', GStr (get_str m ''mission_id''))]
       | Inr (Some resp) \<Rightarrow>
           if \<not> is_true resp ''ok'' then mhFail c ev (orElse (get_str resp ''error'') rej) [(''mission_id'', GStr (get_str m ''mission_id''))] else p
       | Inr None \<Rightarrow> p) s ?tr"
    by (simp add: handOver_def ProxyRequest_def load_msg_def Let_def)
  show thesis
  proof (cases "accepts ?r")
    case True
    then have "run E (handOver c t m ev n rej p) s tr = run E p s ?tr"
      unfolding run by (auto simp: accepts_def split: sum.splits option.splits)
    with True that(1) show ?thesis by blast
  next
    case False
    then obtain err x where "run E (handOver c t m ev n rej p) s tr = run E (mhFail c ev err x) s ?tr"
      unfolding run by (auto simp: accepts_def split: sum.splits option.splits)
    with False run_mhFail [of E c ev err x s ?tr] that(2) show ?thesis by auto
  qed
qed

definition says_ok :: "hres \<Rightarrow> bool" where
  "says_ok r \<longleftrightarrow> (case r of Inr (Some p) \<Rightarrow> is_true p ''ok'' | _ \<Rightarrow> False)"

lemma says_ok_simps [simp]:
  "\<not> says_ok (Inr (Some [(''ok'', GBool False), (''error'', GStr e)]))" "\<not> says_ok (Inr None)"
  "says_ok (Inr (Some [(''ok'', GBool True)]))"
  by (simp_all add: says_ok_def is_true_def)

text \<open>The requests of one hand-over: the limiter is asked first, the autopilot only after an acceptance,
  and the answer is positive exactly when both accepted.\<close>

definition handed_over :: "mh_cfg \<Rightarrow> gmap \<Rightarrow> bool \<Rightarrow> (string \<times> gmap \<times> (string + gmap)) list \<Rightarrow> bool" where
  "handed_over c mission ok reqs \<longleftrightarrow>
     (\<exists>x. \<not> accepts x \<and> \<not> ok \<and> reqs = [(pxMonitor (mhProxy c), load_msg c (mhLimiter c) mission, x)]) \<or>
     (\<exists>x y. accepts x \<and> (ok \<longleftrightarrow> accepts y) \<and>
        reqs = [(pxMonitor (mhProxy c), load_msg c (mhLimiter c) mission, x),
                (pxMonitor (mhProxy c), load_msg c (mhAutopilot c) mission, y)])"

lemma run_toAutopilot:
  assumes "run E (handOver c (mhAutopilot c) m ev n rej (andThen (mhLog c lg d) (reply [(''ok'', GBool True)]))) s tr = (r, s', tr')"
  shows "\<exists>y. requests tr' = requests tr @ [(pxMonitor (mhProxy c), load_msg c (mhAutopilot c) m, y)] \<and>
     (says_ok r \<longleftrightarrow> accepts y) \<and> lastMission s' = lastMission s"
proof (rule run_handOver [of E c "mhAutopilot c" m ev n rej "andThen (mhLog c lg d) (reply [(''ok'', GBool True)])" s tr])
  fix y assume y: "accepts y" "run E (handOver c (mhAutopilot c) m ev n rej (andThen (mhLog c lg d) (reply [(''ok'', GBool True)]))) s tr =
    run E (andThen (mhLog c lg d) (reply [(''ok'', GBool True)])) s (tr @ [Requested (pxMonitor (mhProxy c)) (load_msg c (mhAutopilot c) m) y])"
  with assms run_mhLog [of E c lg d s "tr @ [Requested (pxMonitor (mhProxy c)) (load_msg c (mhAutopilot c) m) y]"]
  show ?thesis by auto
next
  fix y e err assume "\<not> accepts y" "requests [e] = []"
    "run E (handOver c (mhAutopilot c) m ev n rej (andThen (mhLog c lg d) (reply [(''ok'', GBool True)]))) s tr =
       (Inr (Some [(''ok'', GBool False), (''error'', GStr err)]), s\<lparr>mhLastError := err\<rparr>,
        tr @ [Requested (pxMonitor (mhProxy c)) (load_msg c (mhAutopilot c) m) y, e])"
  with assms show ?thesis by auto
qed

lemma run_sendMission:
  assumes "run E (sendMission c m) s tr = (r, s', tr')" and "requests tr = []"
  shows "handed_over c m (says_ok r) (requests tr') \<and> lastMission s' = lastMission s"
proof -
  let ?mid = "[(''mission_id'', GStr (get_str m ''mission_id''))]"
  let ?q = "handOver c (mhAutopilot c) m ''MISSION_HANDLER_AUTOPILOT_ERROR'' ''autopilot_no_response'' ''autopilot_error''
             (andThen (mhLog c ''MISSION_HANDLER_MISSION_SENT_TO_AUTOPILOT'' ?mid) (reply [(''ok'', GBool True)]))"
  let ?p = "andThen (mhLog c ''MISSION_HANDLER_MISSION_SENT_TO_LIMITER'' ?mid) ?q"
  obtain e where e: "run E (mhLog c ''MISSION_HANDLER_MISSION_RECEIVED'' ?mid) s tr = ((), s, tr @ [e])" "requests (tr @ [e]) = []"
    using run_mhLog [of E c _ _ s tr] assms(2) by fastforce
  let ?h = "handOver c (mhLimiter c) m ''MISSION_HANDLER_LIMITER_ERROR'' ''limiter_no_response'' ''limiter_rejected'' ?p"
  have run: "run E ?h s (tr @ [e]) = (r, s', tr')"
    using assms(1) by (simp add: sendMission_def Let_def e(1))
  show ?thesis
  proof (rule run_handOver [of E c "mhLimiter c" m "''MISSION_HANDLER_LIMITER_ERROR''" "''limiter_no_response''" "''limiter_rejected''" ?p s "tr @ [e]"])
    fix x assume x: "accepts x" "run E ?h s (tr @ [e]) = run E ?p s ((tr @ [e]) @ [Requested (pxMonitor (mhProxy c)) (load_msg c (mhLimiter c) m) x])"
    obtain e2 where e2: "run E (mhLog c ''MISSION_HANDLER_MISSION_SENT_TO_LIMITER'' ?mid) s
        ((tr @ [e]) @ [Requested (pxMonitor (mhProxy c)) (load_msg c (mhLimiter c) m) x]) =
        ((), s, ((tr @ [e]) @ [Requested (pxMonitor (mhProxy c)) (load_msg c (mhLimiter c) m) x]) @ [e2])" "requests [e2] = []"
      using run_mhLog [of E c _ _ s "(tr @ [e]) @ [Requested (pxMonitor (mhProxy c)) (load_msg c (mhLimiter c) m) x]"] by fastforce
    have "run E ?q s (((tr @ [e]) @ [Requested (pxMonitor (mhProxy c)) (load_msg c (mhLimiter c) m) x]) @ [e2]) = (r, s', tr')"
      using run x(2) by (simp only: run_andThen e2(1) prod.case)
    from run_toAutopilot [OF this] obtain y where "requests tr' =
        requests (((tr @ [e]) @ [Requested (pxMonitor (mhProxy c)) (load_msg c (mhLimiter c) m) x]) @ [e2]) @
          [(pxMonitor (mhProxy c), load_msg c (mhAutopilot c) m, y)]"
      "says_ok r \<longleftrightarrow> accepts y" "lastMission s' = lastMission s" by blast
    then have "requests tr' = [(pxMonitor (mhProxy c), load_msg c (mhLimiter c) m, x),
        (pxMonitor (mhProxy c), load_msg c (mhAutopilot c) m, y)]"
      using e(2) e2(2) by (simp only: requests_append append_is_Nil_conv requests.simps append_Nil append_Cons)
    with x(1) \<open>says_ok r \<longleftrightarrow> accepts y\<close> \<open>lastMission s' = lastMission s\<close>
    show ?thesis unfolding handed_over_def by blast
  next
    fix x f err assume "\<not> accepts x" and f: "requests [f] = []" and "run E ?h s (tr @ [e]) =
       (Inr (Some [(''ok'', GBool False), (''error'', GStr err)]), s\<lparr>mhLastError := err\<rparr>,
        (tr @ [e]) @ [Requested (pxMonitor (mhProxy c)) (load_msg c (mhLimiter c) m) x, f])"
    with run have "tr' = (tr @ [e]) @ [Requested (pxMonitor (mhProxy c)) (load_msg c (mhLimiter c) m) x] @ [f]"
      "\<not> says_ok r" "lastMission s' = lastMission s" by auto
    then have "requests tr' = [(pxMonitor (mhProxy c), load_msg c (mhLimiter c) m, x)]"
      using f e(2) by (simp only: requests_append append_is_Nil_conv requests.simps append_Nil append_Cons)
    with \<open>\<not> accepts x\<close> \<open>\<not> says_ok r\<close> \<open>lastMission s' = lastMission s\<close> show ?thesis unfolding handed_over_def by blast
  qed
qed

lemma requests_parse: "requests (snd (snd (run E (parseMission h p) s []))) = [] \<and> fst (snd (run E (parseMission h p) s [])) = s"
  by (auto simp: parseMission_def ParseWPL_def Let_def split: sum.splits prod.splits)

text \<open>C24. Loading a mission. Whatever message arrives, either nothing is requested, nothing is stored and the
  answer is not \<^verbatim>\<open>ok\<close>, or a valid mission is stored and handed over: to the limiter first, to the autopilot
  only after the limiter accepted it, and the answer is \<^verbatim>\<open>ok\<close> exactly when both accepted.\<close>

theorem load_mission_order:
  "let r = result E (handleLoadMission h c m) s; s' = final E (handleLoadMission h c m) s;
       reqs = requests (snd (snd (run E (handleLoadMission h c m) s []))) in
   (reqs = [] \<and> \<not> says_ok r \<and> lastMission s' = lastMission s) \<or>
   (\<exists>mission. validateMission mission = None \<and> lastMission s' = Some mission \<and> handed_over c mission (says_ok r) reqs)"
proof (cases "IsTrustedSender m ''security_monitor'' \<and> get_map m ''payload'' \<noteq> None")
  case False
  then show ?thesis
    using run_mhFail [of E c "''MISSION_HANDLER_VALIDATION_ERROR''" "''invalid_input''" "[]" s "[]"]
    by (auto simp: handleLoadMission_def withValidMission_def run_views)
next
  case True
  then obtain payload where p: "get_map m ''payload'' = Some payload" by auto
  obtain x tr where x: "run E (parseMission h payload) s [] = (x, s, tr)" "requests tr = []"
    using requests_parse [of E h payload s] by (metis prod.collapse fst_conv snd_conv)
  let ?s = "\<lambda>mission. s\<lparr>lastMission := Some mission, mhLastError := []\<rparr>"
  have run: "run E (handleLoadMission h c m) s [] = run E (case x of
          Inl err \<Rightarrow> mhFail c ''MISSION_HANDLER_VALIDATION_ERROR'' err []
        | Inr mission \<Rightarrow> (case validateMission mission of
            Some err \<Rightarrow> mhFail c ''MISSION_HANDLER_VALIDATION_ERROR'' err []
          | None \<Rightarrow> modify (\<lambda>s. s\<lparr>lastMission := Some mission, mhLastError := []\<rparr>) (sendMission c mission))) s tr"
    using True p by (simp add: handleLoadMission_def withValidMission_def run_bind x)
  show ?thesis
  proof (cases "\<exists>mission. x = Inr mission \<and> validateMission mission = None")
    case True
    then obtain mission where m: "x = Inr mission" "validateMission mission = None" by blast
    obtain r s' tr' where r: "run E (sendMission c mission) (?s mission) tr = (r, s', tr')" by (metis prod_cases3)
    from run_sendMission [OF r x(2)] r m show ?thesis by (auto simp: run_views run)
  next
    case False
    then obtain err where "run E (handleLoadMission h c m) s [] =
        run E (mhFail c ''MISSION_HANDLER_VALIDATION_ERROR'' err []) s tr"
      unfolding run by (cases x) (auto split: option.splits)
    with run_mhFail [of E c "''MISSION_HANDLER_VALIDATION_ERROR''" err "[]" s tr] x(2) show ?thesis
      by (auto simp: run_views)
  qed
qed

section \<open>WPL files\<close>

text \<open>The steps of a parsed file: one per waypoint, numbered in order.\<close>

definition wpl_steps :: "gmap list \<Rightarrow> bool" where
  "wpl_steps steps \<longleftrightarrow> (\<forall>i < length steps. \<exists>lat lon alt. steps ! i = wpl_step i lat lon alt)"

lemma wpl_steps_Nil [simp]: "wpl_steps []"
  by (simp add: wpl_steps_def)

lemma wpl_steps_snoc: "wpl_steps steps \<Longrightarrow> wpl_steps (steps @ [wpl_step (length steps) lat lon alt])"
  by (auto simp: wpl_steps_def nth_append less_Suc_eq)

lemma wpl_loop_steps: "wpl_loop h i ls home steps = Inr (home', steps') \<Longrightarrow> wpl_steps steps \<Longrightarrow> wpl_steps steps'"
  by (induction h i ls home steps rule: wpl_loop.induct)
     (auto split: sum.splits wpl_item.splits intro: wpl_steps_snoc)

lemma validate_wpl_steps:
  "(\<And>st. st \<in> set steps \<Longrightarrow> \<exists>n lat lon alt. st = wpl_step n lat lon alt) \<Longrightarrow> validate_mission_steps i (map GMap steps) = None"
proof (induction steps arbitrary: i)
  case (Cons st steps)
  obtain n lat lon alt where "st = wpl_step n lat lon alt" using Cons.prems by fastforce
  with Cons show ?case by (simp add: has_key_def wpl_step_def)
qed simp

lemma validate_wpl_mission:
  assumes "wpl_steps steps" "steps \<noteq> []" "mid \<noteq> []"
  shows "validateMission (wpl_mission mid home steps) = None"
proof -
  have "validate_mission_steps 0 (map GMap steps) = None"
    by (rule validate_wpl_steps) (use assms(1) in \<open>unfold wpl_steps_def in_set_conv_nth, blast\<close>)
  with assms show ?thesis
    by (simp add: validateMission_def wpl_mission_def Let_def get_str_def get_list_def)
qed

text \<open>Every mission the WPL parser returns is valid: it has an id and at least one waypoint, and its
  waypoints are numbered in the order of the file, each with coordinates, the default speed and no drop.\<close>

theorem wpl_missions_valid:
  assumes "result E (ParseWPL h content mid) s = Inr m"
  shows "validateMission m = None \<and>
    (\<forall>i < length (get_list m ''steps''). \<exists>lat lon alt. get_list m ''steps'' ! i = GMap (wpl_step i lat lon alt))"
proof -
  let ?mid = "if mid = [] then ''wpl-'' @ Itoa (on_now E [] div 1000000) else mid"
  have mid: "?mid \<noteq> []" by simp
  have "\<exists>home steps. wpl_loop h 1 (tl (nonEmptyLines (TrimSpace content))) None [] = Inr (home, steps) \<and> steps \<noteq> [] \<and>
      m = wpl_mission ?mid home steps"
    using assms by (auto simp: ParseWPL_def Let_def run_views split: if_splits sum.splits)
  then obtain home steps where p: "wpl_loop h 1 (tl (nonEmptyLines (TrimSpace content))) None [] = Inr (home, steps)"
      "steps \<noteq> []" "m = wpl_mission ?mid home steps" by blast
  have ws: "wpl_steps steps" using wpl_loop_steps [OF p(1)] by simp
  have "get_list m ''steps'' = map GMap steps" by (simp add: p(3) wpl_mission_def Let_def get_list_def)
  with ws have "\<forall>i < length (get_list m ''steps''). \<exists>lat lon alt. get_list m ''steps'' ! i = GMap (wpl_step i lat lon alt)"
    by (simp add: wpl_steps_def)
  with validate_wpl_mission [OF ws p(2) mid, of home] show ?thesis unfolding p(3) by blast
qed

text \<open>Printing waypoints as a WPL file, the coordinates given as text.\<close>

type_synonym point = "string \<times> string \<times> string"

definition wpl_row :: "nat \<Rightarrow> point \<Rightarrow> string" where
  "wpl_row i = (\<lambda>(lat, lon, alt). Join (CHR 0x09)
     [Itoa (int i), ''0'', ''3'', ''16'', ''0'', ''0'', ''0'', ''0'', lat, lon, alt, ''1''])"

fun wpl_rows :: "nat \<Rightarrow> point list \<Rightarrow> string list" where
  "wpl_rows i [] = []"
| "wpl_rows i (p # ps) = wpl_row i p # wpl_rows (Suc i) ps"

definition show_wpl :: "point list \<Rightarrow> string" where
  "show_wpl ps = Join (CHR 0x0A) (''QGC WPL 110'' # wpl_rows 1 ps)"

fun point_steps :: "(string \<Rightarrow> float64) \<Rightarrow> nat \<Rightarrow> point list \<Rightarrow> gmap list" where
  "point_steps f n [] = []"
| "point_steps f n ((lat, lon, alt) # ps) = wpl_step n (f lat) (f lon) (f alt) # point_steps f (Suc n) ps"

definition number_text :: "host \<Rightarrow> (string \<Rightarrow> float64) \<Rightarrow> string \<Rightarrow> bool" where
  "number_text h f t \<longleftrightarrow> t \<noteq> [] \<and> \<not> list_ex is_space t \<and> ParseFloat h t = Some (f t)"

definition number_point :: "host \<Rightarrow> (string \<Rightarrow> float64) \<Rightarrow> point \<Rightarrow> bool" where
  "number_point h f = (\<lambda>(lat, lon, alt). number_text h f lat \<and> number_text h f lon \<and> number_text h f alt)"

lemma no_space_Trim: "\<not> list_ex is_space t \<Longrightarrow> TrimSpace t = t"
  by (cases "t = []") (auto simp: list_ex_iff intro!: TrimSpace_id)

lemma Itoa_no_space: "\<not> list_ex is_space (Itoa (int n))"
  using Itoa_nat_plain is_digit_plain by (fastforce simp: list_ex_iff)

lemma number_text_D:
  assumes "number_text h f t"
  shows "t \<noteq> []" "TrimSpace t = t" "ParseFloat h t = Some (f t)" "CHR 0x09 \<notin> set t" "CHR 0x0A \<notin> set t"
  using assms by (auto simp: number_text_def no_space_Trim list_ex_iff is_space_def)

lemma Itoa_D: "TrimSpace (Itoa (int n)) = Itoa (int n)" "CHR 0x09 \<notin> set (Itoa (int n))" "CHR 0x0A \<notin> set (Itoa (int n))"
  "\<not> is_space (hd (Itoa (int n)))"
  using Itoa_no_space [of n] by (auto simp: no_space_Trim list_ex_iff is_space_def)

lemma short_words: "TrimSpace ''0'' = ''0''" "TrimSpace ''16'' = ''16''" "Atoi ''16'' = Some 16" "Atoi ''0'' = Some 0"
  by code_simp+

lemma wpl_columns_row:
  assumes "number_point h f (lat, lon, alt)"
  shows "wpl_columns (wpl_row i (lat, lon, alt)) = [Itoa (int i), ''0'', ''3'', ''16'', ''0'', ''0'', ''0'', ''0'', lat, lon, alt, ''1'']"
proof -
  have "Split (wpl_row i (lat, lon, alt)) (CHR 0x09) = [Itoa (int i), ''0'', ''3'', ''16'', ''0'', ''0'', ''0'', ''0'', lat, lon, alt, ''1'']"
    unfolding wpl_row_def prod.case
    by (rule Split_Join) (use assms in \<open>auto simp: number_point_def Itoa_D dest: number_text_D\<close>)
  then show ?thesis by (simp add: wpl_columns_def)
qed

lemma wpl_line_row:
  assumes "number_point h f (lat, lon, alt)" "0 < i" "int i < 2 ^ 63"
  shows "wpl_line h j (wpl_row i (lat, lon, alt)) = Inr (WplPoint (f lat) (f lon) (f alt))"
proof -
  have "Atoi (Itoa (int i)) = Some (int i)" using assms(3) by (intro Atoi_Itoa) auto
  with assms show ?thesis
    by (simp add: wpl_line_def wpl_columns_row [OF assms(1)] short_words Itoa_D number_point_def number_text_D [of h f] mavCmdNavWaypoint_def)
qed

lemma wpl_loop_rows:
  assumes "list_all (number_point h f) ps" "0 < i" "int (i + length ps) < 2 ^ 63"
  shows "wpl_loop h j (wpl_rows i ps) home steps = Inr (home, steps @ point_steps f (length steps) ps)"
  using assms
proof (induction ps arbitrary: i j steps)
  case (Cons p ps)
  obtain lat lon alt where p: "p = (lat, lon, alt)" by (cases p)
  have "wpl_line h j (wpl_row i p) = Inr (WplPoint (f lat) (f lon) (f alt))"
    using Cons.prems by (simp only: p) (rule wpl_line_row, auto)
  with Cons.IH [of "Suc i" "Suc j" "steps @ [wpl_step (length steps) (f lat) (f lon) (f alt)]"] Cons.prems
  show ?case by (simp add: p)
qed simp

lemma wpl_row_text:
  assumes "number_point h f p"
  shows "wpl_row i p \<noteq> [] \<and> TrimSpace (wpl_row i p) = wpl_row i p \<and> CHR 0x0A \<notin> set (wpl_row i p) \<and> last (wpl_row i p) = CHR ''1''"
proof -
  obtain lat lon alt where p: "p = (lat, lon, alt)" by (cases p)
  let ?xs = "[Itoa (int i), ''0'', ''3'', ''16'', ''0'', ''0'', ''0'', ''0'', lat, lon, alt, ''1'']"
  have row: "wpl_row i p = Join (CHR 0x09) ?xs" by (simp add: wpl_row_def p)
  have hd: "wpl_row i p \<noteq> [] \<and> hd (wpl_row i p) = hd (Itoa (int i))"
    unfolding row using hd_Join [of ?xs "CHR 0x09"] by simp
  have last: "last (wpl_row i p) = CHR ''1''"
    unfolding row using last_Join [of ?xs "CHR 0x09"] by simp
  have "CHR 0x0A \<notin> set (wpl_row i p)"
    using assms by (simp add: wpl_row_def p number_point_def number_text_D [of h f] Itoa_D)
  moreover have "TrimSpace (wpl_row i p) = wpl_row i p"
    using hd last Itoa_D(4) [of i] by (intro TrimSpace_id) (simp_all add: is_space_def)
  ultimately show ?thesis using hd last by blast
qed

lemma wpl_rows_text:
  "list_all (number_point h f) ps \<Longrightarrow> l \<in> set (wpl_rows i ps) \<Longrightarrow>
     l \<noteq> [] \<and> TrimSpace l = l \<and> CHR 0x0A \<notin> set l \<and> last l = CHR ''1''"
  by (induction ps arbitrary: i) (auto dest: wpl_row_text)

lemma point_steps_Nil [simp]: "point_steps f n ps = [] \<longleftrightarrow> ps = []"
  by (cases ps) auto

lemma wpl_rows_Nil [simp]: "wpl_rows i ps = [] \<longleftrightarrow> ps = []"
  by (cases ps) auto

lemma show_wpl_lines:
  assumes "list_all (number_point h f) ps" "ps \<noteq> []"
  shows "TrimSpace (show_wpl ps) = show_wpl ps \<and> show_wpl ps \<noteq> [] \<and> nonEmptyLines (show_wpl ps) = ''QGC WPL 110'' # wpl_rows 1 ps"
proof -
  let ?ls = "''QGC WPL 110'' # wpl_rows 1 ps"
  have header: "TrimSpace ''QGC WPL 110'' = ''QGC WPL 110''" by code_simp
  have ls: "l \<noteq> [] \<and> TrimSpace l = l \<and> CHR 0x0A \<notin> set l" if "l \<in> set ?ls" for l
    using that wpl_rows_text [OF assms(1), of l 1] header by auto
  have "last (last ?ls) = CHR ''1''" "last ?ls \<noteq> []"
    using assms(2) wpl_rows_text [OF assms(1) last_in_set, of 1] by auto
  then have "show_wpl ps \<noteq> []" "last (show_wpl ps) = CHR ''1''" "hd (show_wpl ps) = CHR ''Q''"
    unfolding show_wpl_def using last_Join [of ?ls "CHR 0x0A"] hd_Join [of ?ls "CHR 0x0A"] by auto
  then have "TrimSpace (show_wpl ps) = show_wpl ps" by (intro TrimSpace_id) (auto simp: is_space_def)
  moreover have "nonEmptyLines (show_wpl ps) = ?ls"
  proof -
    have "Split (show_wpl ps) (CHR 0x0A) = ?ls" unfolding show_wpl_def by (rule Split_Join) (use ls in auto)
    moreover have "map TrimSpace ?ls = ?ls" by (rule map_idI) (use ls in blast)
    moreover have "filter (\<lambda>l. l \<noteq> []) ?ls = ?ls" by (rule filter_True) (use ls in blast)
    ultimately show ?thesis unfolding nonEmptyLines_def by metis
  qed
  ultimately show ?thesis using \<open>show_wpl ps \<noteq> []\<close> by blast
qed

text \<open>C25. Round trip of the WPL format: a non-empty list of waypoints, printed as a QGC WPL file, is parsed back
  to the mission with exactly these waypoints in order, their coordinates read as \<^verbatim>\<open>strconv.ParseFloat\<close>
  reads them; the home position is the first waypoint on the ground.\<close>

theorem wpl_round_trip:
  assumes "list_all (number_point h f) ps" and "ps \<noteq> []" and "mid \<noteq> []" and "int (length ps) < 2 ^ 63 - 1"
  shows "run E (ParseWPL h (show_wpl ps) mid) s tr = (Inr (wpl_mission mid None (point_steps f 0 ps)), s, tr)"
proof -
  have head: "HasPrefix (ToUpper ''QGC WPL 110'') ''QGC WPL''" by code_simp
  have "wpl_loop h 1 (wpl_rows 1 ps) None [] = Inr (None, point_steps f 0 ps)"
    using wpl_loop_rows [OF assms(1), of 1 1 None "[]"] assms(4) by simp
  with show_wpl_lines [OF assms(1,2)] assms(2,3) head show ?thesis by (simp add: ParseWPL_def Let_def)
qed

definition demo_wpl_host :: host where
  "demo_wpl_host = demo_host\<lparr>ParseFloat := (\<lambda>t. map_option (\<lambda>n. Fin (of_int n)) (Atoi t))\<rparr>"

definition demo_points :: "point list" where
  "demo_points = [(''55'', ''37'', ''40''), (''56'', ''38'', ''0'')]"

theorem wpl_round_trip_witness:
  "run demo_env (ParseWPL demo_wpl_host (show_wpl demo_points) ''m1'') () [] =
     (Inr (wpl_mission ''m1'' None [wpl_step 0 (Fin 55) (Fin 37) (Fin 40), wpl_step 1 (Fin 56) (Fin 38) (Fin 0)]), (), [])"
proof -
  let ?f = "\<lambda>t. case Atoi t of Some n \<Rightarrow> Fin (of_int n) | None \<Rightarrow> NaN"
  have ok: "number_text demo_wpl_host ?f t" if "t \<in> {''55'', ''37'', ''40'', ''56'', ''38'', ''0''}" for t
  proof -
    have "Atoi ''55'' = Some 55" "Atoi ''37'' = Some 37" "Atoi ''40'' = Some 40" "Atoi ''56'' = Some 56"
        "Atoi ''38'' = Some 38" "Atoi ''0'' = Some 0" by code_simp+
    with that show ?thesis by (auto simp: number_text_def demo_wpl_host_def is_space_def)
  qed
  have pts: "list_all (number_point demo_wpl_host ?f) demo_points"
    by (simp add: demo_points_def number_point_def ok)
  have "point_steps ?f 0 demo_points = [wpl_step 0 (Fin 55) (Fin 37) (Fin 40), wpl_step 1 (Fin 56) (Fin 38) (Fin 0)]"
    by code_simp
  with wpl_round_trip [OF pts, of "''m1''" demo_env "()" "[]"] show ?thesis
    by (simp add: demo_points_def)
qed

theorem wpl_missions_valid_witness:
  "validateMission (wpl_mission ''m1'' None [wpl_step 0 (Fin 55) (Fin 37) (Fin 40)]) = None"
proof -
  have "result demo_env (ParseWPL demo_wpl_host (show_wpl [(''55'', ''37'', ''40'')]) ''m1'') () =
      Inr (wpl_mission ''m1'' None [wpl_step 0 (Fin 55) (Fin 37) (Fin 40)])"
    by code_simp
  from wpl_missions_valid [OF this] show ?thesis by blast
qed

end
