(* ===== verification/Journal.thy ===== *)
theory Journal
  imports Component_Base
begin

text \<open>
  Packages \<^verbatim>\<open>journal\<close> (\<^verbatim>\<open>journal/src/journal.go\<close>) and the analytics client of \<^verbatim>\<open>sdk\<close>
  (\<^verbatim>\<open>sdk/src/analytics.go\<close>): the append-only NDJSON log and what it forwards to the analytics service.

  The file is the list of its lines. A line is the record that decoding its JSON text yields; a write that
  fails half-way leaves a torn line. The outcomes of the operating system and of the HTTP
  exchange are the fields of an \<open>io\<close> record, an argument of the handlers; the items given to the HTTP
  client are kept in the state, in order, so that one can speak about them. The section that holds
  the journal's lock is one step; the time stamp of the analytics item is read just before it.
\<close>

section \<open>sdk/src/analytics.go\<close>

record EventLog =
  evAPIVersion :: string
  evTimestamp :: int
  evEventType :: string
  evService :: string
  evServiceID :: int
  evSeverity :: string
  evMessage :: string

record AnalyticsClient =
  anEnabled :: bool
  anBaseURL :: string
  anAPIKey :: string
  anTimeoutSec :: float64
  anAPIVersion :: string
  anDrone :: string
  anDroneID :: int
  anService :: string
  anServiceID :: int

definition parseBool :: "string \<Rightarrow> bool" where
  "parseBool s \<longleftrightarrow> ToLower (TrimSpace s) \<in> {''1'', ''true'', ''yes'', ''on''}"

definition parseFloat_an :: "host \<Rightarrow> string \<Rightarrow> float64 \<Rightarrow> float64" where
  "parseFloat_an h s fallback =
     (case ParseFloat h (TrimSpace s) of Some v \<Rightarrow> if positive v then v else fallback | None \<Rightarrow> fallback)"

definition parseInt64 :: "string \<Rightarrow> int \<Rightarrow> int" where
  "parseInt64 s fallback = (case Atoi (TrimSpace s) of Some v \<Rightarrow> if 0 < v then v else fallback | None \<Rightarrow> fallback)"

definition NewAnalyticsClientFromEnv :: "host \<Rightarrow> AnalyticsClient" where
  "NewAnalyticsClientFromEnv h =
     (let url = TrimRight (TrimSpace (Getenv h ''ANALYTICS_BASE_URL'')) (CHR ''/'');
          key = TrimSpace (Getenv h ''ANALYTICS_API_KEY'')
      in \<lparr>anEnabled = (parseBool (Getenv h ''ANALYTICS_ENABLED'') \<and> url \<noteq> [] \<and> key \<noteq> []),
          anBaseURL = url, anAPIKey = key,
          anTimeoutSec = parseFloat_an h (Getenv h ''ANALYTICS_TIMEOUT_S'') (Fin 2),
          anAPIVersion = orElse (TrimSpace (Getenv h ''ANALYTICS_API_VERSION'')) ''1.1.0'',
          anDrone = orElse (TrimSpace (Getenv h ''ANALYTICS_DRONE'')) ''delivery'',
          anDroneID = parseInt64 (Getenv h ''ANALYTICS_DRONE_ID'') 1,
          anService = orElse (TrimSpace (Getenv h ''ANALYTICS_SERVICE'')) ''delivery'',
          anServiceID = parseInt64 (Getenv h ''ANALYTICS_SERVICE_ID'') 1\<rparr>)"

text \<open>The exchange with the service: an error of the client, or the status code. \<^verbatim>\<open>postJSON\<close> returns an
  error text or nil; the items it is called with always have a JSON form.\<close>

datatype http_result = HttpError string | HttpStatus int

definition postJSON :: "http_result \<Rightarrow> string option" where
  "postJSON r =
     (case r of
        HttpError e \<Rightarrow> Some e
      | HttpStatus c \<Rightarrow> if c = 200 \<or> c = 207 then None else Some (''analytics status '' @ Itoa c))"

section \<open>journal.go\<close>

datatype jline = Whole gmap | Torn gmap nat

datatype analytics_item = EventItem EventLog | TelemetryItem gval

record io =
  mkdirFails :: bool
  openFails :: bool
  writeFails :: "nat option"
  marshalError :: string
  httpResult :: http_result

record jn_cfg =
  jnBase :: BaseComponent
  filePath :: string
  jnAnalytics :: AnalyticsClient

record jn_state = base_state +
  journalFile :: "jline list"
  posted :: "analytics_item list"

definition New_jn :: "host \<Rightarrow> Config \<Rightarrow> jn_cfg \<times> jn_state" where
  "New_jn h cfg =
     (\<lparr>jnBase = newBase cfg ''journal'',
       filePath = orElse (Getenv h ''JOURNAL_FILE_PATH'') ''/data/deliverydron_journal.ndjson'',
       jnAnalytics = NewAnalyticsClientFromEnv h\<rparr>,
      \<lparr>running = False, journalFile = [], posted = []\<rparr>)"

definition inferEventType :: "string \<Rightarrow> string" where
  "inferEventType event =
     (let upper = ToUpper event in
      if Contains upper ''EMERGENCY'' \<or> Contains upper ''ISOLATION'' \<or> Contains upper ''LIMITER'' then ''safety_event''
      else ''event'')"

definition inferSeverity :: "string \<Rightarrow> gmap \<Rightarrow> string" where
  "inferSeverity event payload =
     (let sev = TrimSpace (get_str payload ''severity''); upper = ToUpper event in
      if sev \<noteq> [] then ToLower sev
      else if Contains upper ''EMERGENCY'' \<or> Contains upper ''ABORT'' \<or> Contains upper ''ISOLATION'' then ''emergency''
      else if Contains upper ''WARNING'' \<or> Contains upper ''DEVIATION'' then ''warning''
      else ''info'')"

text \<open>\<open>json\<close> is \<^verbatim>\<open>json.Marshal\<close> as text, \<^const>\<open>None\<close> when the value has no JSON form.\<close>

definition buildAnalyticsMessage :: "(gval \<Rightarrow> string option) \<Rightarrow> string \<Rightarrow> string \<Rightarrow> gmap \<Rightarrow> string" where
  "buildAnalyticsMessage json source event payload =
     event @ (if source \<noteq> [] then '' source='' @ source else []) @
     (let mid = TrimSpace (get_str payload ''mission_id'') in if mid \<noteq> [] then '' mission_id='' @ mid else []) @
     (case map_of payload ''details'' of
        None \<Rightarrow> []
      | Some d \<Rightarrow> (case json d of None \<Rightarrow> [] | Some b \<Rightarrow> '' details='' @ b))"

definition eventItem :: "(gval \<Rightarrow> string option) \<Rightarrow> AnalyticsClient \<Rightarrow> int \<Rightarrow> string \<Rightarrow> string \<Rightarrow> gmap \<Rightarrow> EventLog" where
  "eventItem json a now source event payload =
     \<lparr>evAPIVersion = anAPIVersion a, evTimestamp = now div 1000000, evEventType = inferEventType event,
      evService = anService a, evServiceID = anServiceID a, evSeverity = inferSeverity event payload,
      evMessage = buildAnalyticsMessage json source event payload\<rparr>"

definition journal_record :: "int \<Rightarrow> string \<Rightarrow> string \<Rightarrow> gval \<Rightarrow> gmap" where
  "journal_record now source event payload =
     [(''timestamp'', GStr (RFC3339Nano now)), (''source_component'', GStr source),
      (''source_action'', GStr ''LOG_EVENT''), (''event'', GStr event), (''payload'', payload)]"

definition journal_line :: "string \<Rightarrow> int \<Rightarrow> string \<Rightarrow> string \<Rightarrow> gmap \<Rightarrow> gmap" where
  "journal_line marshalErr now source event payload =
     (case wire_map (journal_record now source event (GMap payload)) of
        Some r \<Rightarrow> r
      | None \<Rightarrow> journal_record now source event
          (GMap [(''error'', GStr (''non-serializable payload: '' @ marshalErr))]))"

definition writeFailed :: "(jn_state, hres) prog" where
  "writeFailed = reply [(''ok'', GBool False), (''error'', GStr ''write_failed'')]"

definition appendLine :: "jline \<Rightarrow> analytics_item list \<Rightarrow> jn_state \<Rightarrow> jn_state" where
  "appendLine l items s = s\<lparr>journalFile := journalFile s @ [l], posted := posted s @ items\<rparr>"

text \<open>\<^verbatim>\<open>PostEvent\<close> and \<^verbatim>\<open>PostTelemetry\<close>: the returned error and the items that were sent.\<close>

definition PostEvent :: "AnalyticsClient \<Rightarrow> EventLog list \<Rightarrow> http_result \<Rightarrow> string option \<times> analytics_item list" where
  "PostEvent a logs r = (if \<not> anEnabled a \<or> logs = [] then (None, []) else (postJSON r, map EventItem logs))"

definition PostTelemetry :: "AnalyticsClient \<Rightarrow> gval list \<Rightarrow> http_result \<Rightarrow> string option \<times> analytics_item list" where
  "PostTelemetry a logs r = (if \<not> anEnabled a \<or> logs = [] then (None, []) else (postJSON r, map TelemetryItem logs))"

lemma Post_enabled [simp]:
  "anEnabled a \<Longrightarrow> PostEvent a [e] r = (postJSON r, [EventItem e])"
  "anEnabled a \<Longrightarrow> PostTelemetry a [v] r = (postJSON r, [TelemetryItem v])"
  by (simp_all add: PostEvent_def PostTelemetry_def)

text \<open>The section under the lock: open, append, forward to the analytics service (errors are only logged).\<close>

definition writeRecord ::
    "(gval \<Rightarrow> string option) \<Rightarrow> jn_cfg \<Rightarrow> io \<Rightarrow> gmap \<Rightarrow> string \<Rightarrow> string \<Rightarrow> gmap \<Rightarrow> (jn_state, hres) prog" where
  "writeRecord json c w line source event payload =
     (if openFails w then writeFailed
      else case writeFails w of
        Some n \<Rightarrow> modify (appendLine (Torn line n) []) writeFailed
      | None \<Rightarrow>
          if anEnabled (jnAnalytics c) then
            Now (\<lambda>now. modify (appendLine (Whole line)
                (snd (PostEvent (jnAnalytics c) [eventItem json (jnAnalytics c) now source event payload] (httpResult w))))
              (reply [(''ok'', GBool True)]))
          else modify (appendLine (Whole line) []) (reply [(''ok'', GBool True)]))"

definition handleLogEvent :: "(gval \<Rightarrow> string option) \<Rightarrow> jn_cfg \<Rightarrow> io \<Rightarrow> jn_state handler" where
  "handleLogEvent json c w m =
     (if \<not> IsTrustedSender m ''security_monitor'' then noReply
      else case get_map m ''payload'' of
        None \<Rightarrow> reply [(''ok'', GBool False), (''error'', GStr ''invalid_payload'')]
      | Some payload \<Rightarrow>
          let source = orElse (get_str payload ''source'') (get_str m ''sender'');
              event = orElse (get_str payload ''event'') ''UNKNOWN''
          in Now (\<lambda>now.
            if mkdirFails w then writeFailed
            else writeRecord json c w (journal_line (marshalError w) now source event payload) source event payload))"

text \<open>Decoding into a \<^verbatim>\<open>TelemetryLog\<close>: the field types must match, unknown fields are dropped; the decoded
  struct is kept as the value it came from. \<open>decodes\<close> is that type check.\<close>

definition handlePostTelemetry :: "(gval \<Rightarrow> bool) \<Rightarrow> jn_cfg \<Rightarrow> io \<Rightarrow> jn_state handler" where
  "handlePostTelemetry decodes c w m =
     (if \<not> IsTrustedSender m ''security_monitor'' then noReply
      else if \<not> anEnabled (jnAnalytics c) then reply [(''ok'', GBool True), (''forwarded'', GBool False)]
      else case get_map m ''payload'' of
        None \<Rightarrow> reply [(''ok'', GBool False), (''error'', GStr ''invalid_payload'')]
      | Some payload \<Rightarrow> (case map_of payload ''telemetry_log'' of
          None \<Rightarrow> reply [(''ok'', GBool False), (''error'', GStr ''missing_telemetry_log'')]
        | Some raw \<Rightarrow>
            if wire raw = None \<or> \<not> decodes (the (wire raw)) then
              reply [(''ok'', GBool False), (''error'', GStr ''invalid_telemetry_log'')]
            else let (err, items) = PostTelemetry (jnAnalytics c) [the (wire raw)] (httpResult w) in
              modify (\<lambda>s. s\<lparr>posted := posted s @ items\<rparr>)
              (case err of
                 Some e \<Rightarrow> reply [(''ok'', GBool False), (''error'', GStr (''forward_failed: '' @ e))]
               | None \<Rightarrow> reply [(''ok'', GBool True), (''forwarded'', GBool True)])))"

definition jn_registerHandlers ::
    "(gval \<Rightarrow> string option) \<Rightarrow> (gval \<Rightarrow> bool) \<Rightarrow> jn_cfg \<Rightarrow> io \<Rightarrow> (string \<times> jn_state handler) list" where
  "jn_registerHandlers json decodes c w =
     [(''LOG_EVENT'', handleLogEvent json c w), (''POST_TELEMETRY'', handlePostTelemetry decodes c w)]"

definition jn_dispatch ::
    "(gval \<Rightarrow> string option) \<Rightarrow> (gval \<Rightarrow> bool) \<Rightarrow> jn_cfg \<Rightarrow> io \<times> gmap \<Rightarrow> (jn_state, unit) prog" where
  "jn_dispatch json decodes c = (\<lambda>(w, m).
     handleMessage (jnBase c) (registered (jnBase c) (jn_registerHandlers json decodes c w)) m)"

section \<open>Contract\<close>

definition record_ok :: "gmap \<Rightarrow> bool" where
  "record_ok r \<longleftrightarrow> map fst r = [''timestamp'', ''source_component'', ''source_action'', ''event'', ''payload''] \<and>
     get_str r ''source_action'' = ''LOG_EVENT'' \<and> get_str r ''event'' \<noteq> [] \<and> json_map r"

primrec line_ok :: "jline \<Rightarrow> bool" where
  "line_ok (Whole r) = record_ok r"
| "line_ok (Torn r n) = record_ok r"

definition jn_inv :: "jn_state \<Rightarrow> bool" where
  "jn_inv s \<longleftrightarrow> list_all line_ok (journalFile s)"

definition jn_guar :: "jn_state \<Rightarrow> jn_state \<Rightarrow> bool" where
  "jn_guar s s' \<longleftrightarrow> (\<exists>ls. journalFile s' = journalFile s @ ls \<and> length ls \<le> 1)"

text \<open>The journal sends nothing but replies.\<close>

definition only_replies :: "string \<Rightarrow> string \<Rightarrow> gmap \<Rightarrow> bool" where
  "only_replies self t m \<longleftrightarrow> get_str m ''action'' = ''response'' \<and> get_str m ''sender'' = self"

lemma jn_guar_simps [simp]:
  "jn_guar s s" "jn_guar s (appendLine l xs s)" "jn_guar s (s\<lparr>posted := x\<rparr>)" "jn_inv (s\<lparr>posted := x\<rparr>) = jn_inv s"
  by (simp_all add: jn_guar_def appendLine_def jn_inv_def)

lemma journal_line_ok:
  assumes "event \<noteq> []"
  shows "record_ok (journal_line err now source event payload)"
proof (cases "wire_map (journal_record now source event (GMap payload))")
  case None
  then show ?thesis using assms
    by (simp add: journal_line_def record_ok_def journal_record_def get_str_def json_map_def)
next
  case (Some r)
  then have "map fst r = map fst (journal_record now source event (GMap payload))" "json_map r"
    by (rule wire_map_keys, rule json_map_wire)
  moreover have "map_of r k = (case map_of (journal_record now source event (GMap payload)) k of None \<Rightarrow> None | Some v \<Rightarrow> wire v)" for k
    by (rule wire_map_lookup [OF Some])
  ultimately show ?thesis using Some assms
    by (simp add: journal_line_def record_ok_def get_str_def) (simp add: journal_record_def)
qed

lemma jn_sat_handlers:
  assumes "(a, f) \<in> set (jn_registerHandlers json decodes c w)"
  shows "sat jn_inv jn_guar (only_replies (bcID (jnBase c))) anyResult (f m)"
proof -
  have ev: "orElse e ''UNKNOWN'' \<noteq> []" for e by simp
  have inv: "jn_inv (appendLine l xs s)" if "jn_inv s" "line_ok l" for l xs s
    using that by (simp add: jn_inv_def appendLine_def)
  show ?thesis
    using assms
    by (auto simp: jn_registerHandlers_def handleLogEvent_def writeRecord_def writeFailed_def handlePostTelemetry_def Let_def
        inv journal_line_ok split: option.splits)
qed

lemma only_replies_response [simp]: "only_replies self t (CreateResponse now cid pl self ok e)"
  by (simp add: only_replies_def)

interpretation journal: goroutines "range (jn_dispatch json decodes (fst (New_jn h cfg)))" "snd (New_jn h cfg)"
    jn_inv jn_guar "only_replies (bcID (jnBase (fst (New_jn h cfg))))" for json decodes h cfg
proof
  show "jn_inv (snd (New_jn h cfg))" by (simp add: New_jn_def jn_inv_def)
  fix p assume "p \<in> range (jn_dispatch json decodes (fst (New_jn h cfg)))"
  then show "sat jn_inv jn_guar (only_replies (bcID (jnBase (fst (New_jn h cfg))))) anyResult p"
    by (auto simp: jn_dispatch_def split_def intro!: sat_registered jn_sat_handlers)
qed

interpretation jn_cmds: guarded_component "jnBase c" "jn_registerHandlers json decodes c w"
    "{''LOG_EVENT'', ''POST_TELEMETRY''}" "{''security_monitor''}" for json decodes c w
  by unfold_locales (auto simp: jn_registerHandlers_def handleLogEvent_def handlePostTelemetry_def)

section \<open>Properties\<close>


definition demo_journal :: "jn_cfg \<times> jn_state" where
  "demo_journal = New_jn demo_host (FromEnv demo_host)"

definition demo_io :: io where
  "demo_io = \<lparr>mkdirFails = False, openFails = False, writeFails = None, marshalError = [], httpResult = HttpStatus 200\<rparr>"


text \<open>Logging is honest: the answer \<^verbatim>\<open>ok\<close> means that exactly this event was appended as a whole line.\<close>

lemma log_event_honest:
  assumes "get_str m ''sender'' = ''security_monitor''" "get_map m ''payload'' = Some payload"
  shows "let s' = final E (handleLogEvent json c w m) s; r = result E (handleLogEvent json c w m) s in
     (r = Inr (Some [(''ok'', GBool True)]) \<and>
        journalFile s' = journalFile s @ [Whole (journal_line (marshalError w) (on_now E [])
          (orElse (get_str payload ''source'') ''security_monitor'') (orElse (get_str payload ''event'') ''UNKNOWN'') payload)]) \<or>
     (r = Inr (Some [(''ok'', GBool False), (''error'', GStr ''write_failed'')]) \<and>
        (\<forall>x. Whole x \<notin> set (drop (length (journalFile s)) (journalFile s'))))"
  using assms
  by (auto simp: handleLogEvent_def IsTrustedSender_iff writeRecord_def writeFailed_def run_views Let_def appendLine_def
      split: option.splits)

end
