(* ===== verification/Telemetry.thy ===== *)
theory Telemetry
  imports Journal
begin

text \<open>
  Package \<^verbatim>\<open>telemetry\<close> (\<^verbatim>\<open>telemetry/src/telemetry.go\<close>): the loop that collects the states of navigation,
  motors and cargo through the monitor, and the analytics record it sends to the journal. The record
  is a Go struct; on the bus it is the JSON object its field tags describe, which is how it
  is written here.
\<close>

section \<open>Definitions\<close>

record tl_cfg =
  tlBase :: BaseComponent
  tlJournal :: string
  tlNavigation :: string
  tlMotors :: string
  tlCargo :: string
  pollIntervalSec :: float64
  defaultBatteryPct :: int
  tlProxy :: ProxyClient
  tlAnalytics :: AnalyticsClient

record tl_state = base_state +
  lastMotors :: "gmap option"
  lastCargo :: "gmap option"
  lastNavigation :: "gmap option"
  lastPollTs :: float64

definition percent :: "int \<Rightarrow> int" where
  "percent v = (let v = (if v < 0 then 0 else v) in if 100 < v then 100 else v)"

definition default_battery :: "host \<Rightarrow> int" where
  "default_battery h =
     (if Getenv h ''TELEMETRY_BATTERY_PCT_DEFAULT'' = [] then 100
      else case Atoi (TrimSpace (Getenv h ''TELEMETRY_BATTERY_PCT_DEFAULT'')) of
        None \<Rightarrow> 100 | Some v \<Rightarrow> percent v)"

definition New_tl :: "host \<Rightarrow> Config \<Rightarrow> tl_cfg \<times> tl_state" where
  "New_tl h cfg =
     (\<lparr>tlBase = newBase cfg ''telemetry'',
       tlJournal = orElse (Getenv h ''JOURNAL_TOPIC'') (BrokerTopicFor cfg ''journal''),
       tlNavigation = orElse (Getenv h ''NAVIGATION_TOPIC'') (BrokerTopicFor cfg ''navigation''),
       tlMotors = orElse (Getenv h ''MOTORS_TOPIC'') (BrokerTopicFor cfg ''motors''),
       tlCargo = orElse (Getenv h ''CARGO_TOPIC'') (BrokerTopicFor cfg ''cargo''),
       pollIntervalSec = env_float h ''TELEMETRY_POLL_INTERVAL_S'' positive (Fin 1),
       defaultBatteryPct = default_battery h,
       tlProxy = \<lparr>pxSender = ComponentID cfg, pxMonitor = secTopic h cfg,
                  pxTimeout = env_float h ''TELEMETRY_REQUEST_TIMEOUT_S'' positive (Fin 5)\<rparr>,
       tlAnalytics = NewAnalyticsClientFromEnv h\<rparr>,
      \<lparr>running = False, lastMotors = None, lastCargo = None, lastNavigation = None, lastPollTs = Fin 0\<rparr>)"

fun asFloat :: "gval \<Rightarrow> float64 option" where
  "asFloat (GFloat x) = Some x"
| "asFloat (GFloat32 x) = Some x"
| "asFloat (GInt w) = Some (i64 w)"
| "asFloat (GInt64 w) = Some (i64 w)"
| "asFloat (GInt32 w) = Some (i32 w)"
| "asFloat _ = None"

fun mapFloat :: "gmap option \<Rightarrow> string list \<Rightarrow> float64 option" where
  "mapFloat None ks = None"
| "mapFloat (Some m) [] = None"
| "mapFloat (Some m) (k # ks) =
     (case map_of m k of
        None \<Rightarrow> mapFloat (Some m) ks
      | Some v \<Rightarrow> (case asFloat v of None \<Rightarrow> mapFloat (Some m) ks | Some f \<Rightarrow> Some f))"

definition proxyGetState :: "tl_cfg \<Rightarrow> string \<Rightarrow> (tl_state, gmap option) prog" where
  "proxyGetState c topic =
     bind (ProxyRequest (tlProxy c) topic ''get_state'' []) (\<lambda>r. Ret (case r of Inl _ \<Rightarrow> None | Inr pl \<Rightarrow> pl))"

definition copyMap :: "gmap option \<Rightarrow> gmap option" where
  "copyMap m = map_option (\<lambda>m. put_all m []) m"

definition firstOf :: "'a option \<Rightarrow> 'a option \<Rightarrow> 'a option" where
  "firstOf x y = (case x of None \<Rightarrow> y | Some _ \<Rightarrow> x)"

definition last_target :: "gmap option \<Rightarrow> gmap option" where
  "last_target motors = (case motors of None \<Rightarrow> None | Some m \<Rightarrow> get_map m ''last_target'')"

definition batteryOf :: "int \<Rightarrow> gmap option \<Rightarrow> gmap option \<Rightarrow> gmap option \<Rightarrow> int" where
  "batteryOf dflt nav motors cargo =
     percent (case firstOf (mapFloat cargo [''battery_pct'', ''battery''])
                     (firstOf (mapFloat nav [''battery_pct'', ''battery'']) (mapFloat motors [''battery_pct'', ''battery''])) of
                None \<Rightarrow> dflt | Some v \<Rightarrow> trunc64 v)"

definition opt_field :: "string \<Rightarrow> float64 option \<Rightarrow> gmap" where
  "opt_field k v = (case v of None \<Rightarrow> [] | Some x \<Rightarrow> [(k, GFloat x)])"

definition TelemetryLog ::
    "AnalyticsClient \<Rightarrow> int \<Rightarrow> int \<Rightarrow> float64 \<Rightarrow> float64 \<Rightarrow> float64 option \<Rightarrow> float64 \<Rightarrow> float64 \<Rightarrow> float64 option \<Rightarrow> gmap" where
  "TelemetryLog a ts battery pitch roll course lat lon height =
     [(''apiVersion'', GStr (anAPIVersion a)), (''timestamp'', GInt64 (of_int ts)), (''drone'', GStr (anDrone a)),
      (''drone_id'', GInt64 (of_int (anDroneID a))), (''battery'', GInt (of_int battery)),
      (''pitch'', GFloat pitch), (''roll'', GFloat roll)] @ opt_field ''course'' course @
     [(''latitude'', GFloat lat), (''longitude'', GFloat lon)] @ opt_field ''height'' height"

definition orFloat :: "float64 option \<Rightarrow> float64 \<Rightarrow> float64" where
  "orFloat x d = (case x of None \<Rightarrow> d | Some v \<Rightarrow> v)"

text \<open>The record, when a latitude and a longitude are known.\<close>

definition telemetryItem :: "tl_cfg \<Rightarrow> int \<Rightarrow> gmap option \<Rightarrow> gmap option \<Rightarrow> gmap option \<Rightarrow> gmap option" where
  "telemetryItem c ts nav motors cargo =
     (let target = last_target motors in
      case (firstOf (mapFloat nav [''lat'']) (mapFloat target [''lat'']),
            firstOf (mapFloat nav [''lon'']) (mapFloat target [''lon''])) of
        (Some lat, Some lon) \<Rightarrow>
          Some (TelemetryLog (tlAnalytics c) ts (batteryOf (defaultBatteryPct c) nav motors cargo)
            (orFloat (mapFloat nav [''pitch'', ''pitch_deg'']) (Fin 0)) (orFloat (mapFloat nav [''roll'', ''roll_deg'']) (Fin 0))
            (firstOf (mapFloat nav [''heading_deg'', ''course'']) (mapFloat target [''heading_deg'', ''course''])) lat lon
            (firstOf (mapFloat nav [''alt_m'', ''height'']) (mapFloat target [''alt_m'', ''height''])))
      | _ \<Rightarrow> None)"

definition postAnalyticsTelemetry ::
    "tl_cfg \<Rightarrow> int \<Rightarrow> gmap option \<Rightarrow> gmap option \<Rightarrow> gmap option \<Rightarrow> (tl_state, unit) prog" where
  "postAnalyticsTelemetry c ts nav motors cargo =
     (if \<not> anEnabled (tlAnalytics c) then Ret ()
      else case telemetryItem c ts nav motors cargo of
        None \<Rightarrow> Ret ()
      | Some item \<Rightarrow>
          bind (ProxyPublishAsync (tlProxy c) (tlJournal c) ''POST_TELEMETRY'' [(''telemetry_log'', GMap item)]) (\<lambda>_. Ret ()))"

definition storePoll :: "gmap option \<Rightarrow> gmap option \<Rightarrow> gmap option \<Rightarrow> float64 \<Rightarrow> tl_state \<Rightarrow> tl_state" where
  "storePoll nav motors cargo now s =
     s\<lparr>lastNavigation := firstOf nav (lastNavigation s), lastMotors := firstOf motors (lastMotors s),
       lastCargo := firstOf cargo (lastCargo s), lastPollTs := now\<rparr>"

definition pollOnce :: "tl_cfg \<Rightarrow> (tl_state, unit) prog" where
  "pollOnce c =
     bind (proxyGetState c (tlNavigation c)) (\<lambda>nav. bind (proxyGetState c (tlMotors c)) (\<lambda>motors.
       bind (proxyGetState c (tlCargo c)) (\<lambda>cargo. Now (\<lambda>t. Now (\<lambda>t'.
         modify (storePoll nav motors cargo (seconds t'))
           (postAnalyticsTelemetry c (t div 1000000) nav motors cargo))))))"

definition handleGetState_tl :: "tl_state handler" where
  "handleGetState_tl m =
     (if \<not> IsTrustedSender m ''security_monitor'' then noReply
      else readState (\<lambda>s. reply [(''navigation'', map_val (copyMap (lastNavigation s))),
        (''motors'', map_val (copyMap (lastMotors s))), (''cargo'', map_val (copyMap (lastCargo s))),
        (''last_poll_ts'', GFloat (lastPollTs s))]))"

definition tl_registerHandlers :: "(string \<times> tl_state handler) list" where
  "tl_registerHandlers = [(''get_state'', handleGetState_tl)]"

definition tl_dispatch :: "tl_cfg \<Rightarrow> gmap \<Rightarrow> (tl_state, unit) prog" where
  "tl_dispatch c = handleMessage (tlBase c) (registered (tlBase c) tl_registerHandlers)"

text \<open>Everything that runs in the telemetry process: handler calls and rounds of the poll loop.\<close>

definition tl_threads :: "tl_cfg \<Rightarrow> (tl_state, unit) prog set" where
  "tl_threads c = range (tl_dispatch c) \<union> {pollOnce c}"

section \<open>Contract\<close>

definition log_ok :: "gmap \<Rightarrow> bool" where
  "log_ok item \<longleftrightarrow> (\<exists>b lat lon. map_of item ''battery'' = Some (GInt (of_int b)) \<and> 0 \<le> b \<and> b \<le> 100 \<and>
     map_of item ''latitude'' = Some (GFloat lat) \<and> map_of item ''longitude'' = Some (GFloat lon))"

definition tl_out :: "tl_cfg \<Rightarrow> string \<Rightarrow> gmap \<Rightarrow> bool" where
  "tl_out c t m \<longleftrightarrow> via_monitor (bcID (tlBase c)) (pxMonitor (tlProxy c)) t m \<and>
     (\<forall>topic item. m = proxy_msg (tlProxy c) ''proxy_publish'' topic ''POST_TELEMETRY'' [(''telemetry_log'', GMap item)] \<longrightarrow> log_ok item)"

definition tl_wired :: "tl_cfg \<Rightarrow> bool" where
  "tl_wired c \<longleftrightarrow> pxSender (tlProxy c) = bcID (tlBase c)"

abbreviation tl_sat :: "tl_cfg \<Rightarrow> (tl_state, 'a) prog \<Rightarrow> bool" where
  "tl_sat c p \<equiv> sat (\<lambda>_. True) (\<lambda>s s'. running s' = running s) (tl_out c) anyResult p"

lemma percent_range: "0 \<le> percent v \<and> percent v \<le> 100"
  by (simp add: percent_def Let_def)

lemma TelemetryLog_ok:
  assumes "0 \<le> b" "b \<le> 100"
  shows "log_ok (TelemetryLog a ts b p r crs lat lon hgt)"
  unfolding log_ok_def
  by (rule exI [of _ b], rule exI [of _ lat], rule exI [of _ lon])
     (use assms in \<open>auto simp: TelemetryLog_def opt_field_def split: option.splits\<close>)

lemma telemetryItem_ok: "telemetryItem c ts nav motors cargo = Some item \<Longrightarrow> log_ok item"
  by (auto simp: telemetryItem_def Let_def batteryOf_def percent_range intro!: TelemetryLog_ok split: option.splits)

lemma tl_sat_request: "tl_wired c \<Longrightarrow> tl_sat c (proxyGetState c t)"
  unfolding proxyGetState_def
  by (rule sat_bind_any, rule sat_ProxyRequest) (simp_all add: tl_out_def tl_wired_def proxy_msg_def via_monitor_def get_str_def)

lemma tl_sat_post: "tl_wired c \<Longrightarrow> tl_sat c (postAnalyticsTelemetry c ts nav motors cargo)"
  by (auto simp: postAnalyticsTelemetry_def tl_out_def tl_wired_def proxy_msg_def via_monitor_def get_str_def telemetryItem_ok
      split: option.splits intro!: sat_bind_any)

lemma tl_sat_threads: "tl_wired c \<Longrightarrow> p \<in> tl_threads c \<Longrightarrow> tl_sat c p"
proof -
  assume c: "tl_wired c" and p: "p \<in> tl_threads c"
  have "tl_sat c (pollOnce c)"
    unfolding pollOnce_def by (intro sat_bind_any tl_sat_request c) (simp add: tl_sat_post c storePoll_def)
  moreover have "tl_sat c (tl_dispatch c m)" for m
    unfolding tl_dispatch_def
    by (rule sat_registered)
       (auto simp: tl_registerHandlers_def handleGetState_tl_def tl_out_def CreateResponse_def proxy_msg_def via_monitor_def get_str_def)
  ultimately show ?thesis using p by (auto simp: tl_threads_def)
qed

lemma New_tl_wired [simp]: "tl_wired (fst (New_tl h cfg))"
  by (simp add: New_tl_def Let_def tl_wired_def newBase_def)

interpretation telemetry: goroutines "tl_threads (fst (New_tl h cfg))" "snd (New_tl h cfg)"
    "\<lambda>_. True" "\<lambda>s s'. running s' = running s" "tl_out (fst (New_tl h cfg))" for h cfg
  by unfold_locales (auto intro: tl_sat_threads)

interpretation telemetry_proxied: proxied_component "tl_threads (fst (New_tl h cfg))" "snd (New_tl h cfg)"
    "\<lambda>_. True" "\<lambda>s s'. running s' = running s" "bcID (tlBase (fst (New_tl h cfg)))" "pxMonitor (tlProxy (fst (New_tl h cfg)))" for h cfg
  by unfold_locales (auto dest: tl_sat_threads [rotated] elim!: sat_mono simp: tl_out_def)

interpretation tl_cmds: guarded_component "tlBase c" tl_registerHandlers "{''get_state''}" "{''security_monitor''}" for c
  by unfold_locales (auto simp: tl_registerHandlers_def handleGetState_tl_def)

section \<open>Properties\<close>

text \<open>C27. Telemetry records are sound. Whatever the components report, in every schedule, each telemetry record
  that leaves for the journal carries a battery charge between 0 and 100 and a position; all requests and
  publications go to the monitor under the component's own name.\<close>

theorem telemetry_records_sound:
  assumes "(c, s0) = New_tl h cfg" and "reachable (tl_threads c) s0 s ps tr" and "(t, m) \<in> set (sent tr)"
  shows "(\<forall>topic item. m = proxy_msg (tlProxy c) ''proxy_publish'' topic ''POST_TELEMETRY'' [(''telemetry_log'', GMap item)] \<longrightarrow>
       (\<exists>b lat lon. map_of item ''battery'' = Some (GInt (of_int b)) \<and> 0 \<le> b \<and> b \<le> 100 \<and>
          map_of item ''latitude'' = Some (GFloat lat) \<and> map_of item ''longitude'' = Some (GFloat lon))) \<and>
     (get_str m ''action'' \<noteq> ''response'' \<longrightarrow> t = pxMonitor (tlProxy c) \<and> get_str m ''sender'' = bcID (tlBase c))"
proof -
  from assms(1) have eqs: "c = fst (New_tl h cfg)" "s0 = snd (New_tl h cfg)"
    by (metis fst_conv) (metis assms(1) snd_conv)
  have "tl_out c t m" using telemetry.only_sent [of h cfg s ps tr t m] assms(2,3) by (simp add: eqs)
  then show ?thesis by (auto simp: tl_out_def log_ok_def via_monitor_def)
qed

text \<open>A round with analytics on, where the components report a position and an overcharged battery.\<close>

definition tl_host :: host where
  "tl_host = demo_host\<lparr>Getenv := (\<lambda>k. if k = ''ANALYTICS_ENABLED'' then ''on''
     else if k \<in> {''ANALYTICS_BASE_URL'', ''ANALYTICS_API_KEY''} then ''x'' else [])\<rparr>"

definition demo_tl :: "tl_cfg \<times> tl_state" where
  "demo_tl = New_tl tl_host (FromEnv tl_host)"

definition reported :: gmap where
  "reported = [(''lat'', GFloat (Fin 1)), (''lon'', GFloat (Fin 2)), (''battery'', GFloat (Fin 250))]"

definition tl_env :: env where
  "tl_env = demo_env\<lparr>on_req := (\<lambda>_ _ _. Inr [(''payload'', GMap [(''target_response'', GMap [(''payload'', GMap reported)])])])\<rparr>"

lemma demo_tl_enabled: "anEnabled (tlAnalytics (fst demo_tl))"
proof -
  have "NewAnalyticsClientFromEnv tl_host = tlAnalytics (fst demo_tl)"
    by (simp add: demo_tl_def New_tl_def Let_def)
  moreover have "anEnabled (NewAnalyticsClientFromEnv tl_host)" by code_simp
  ultimately show ?thesis by simp
qed

lemma tl_poll_sends:
  "\<exists>item. (pxMonitor (tlProxy (fst demo_tl)),
      proxy_msg (tlProxy (fst demo_tl)) ''proxy_publish'' (tlJournal (fst demo_tl)) ''POST_TELEMETRY'' [(''telemetry_log'', GMap item)])
     \<in> set (sent (snd (snd (run tl_env (pollOnce (fst demo_tl)) (snd demo_tl) []))))"
proof -
  have a: "proxy_answer (on_req tl_env tr t m) = Inr (Some reported)" for tr t m
    by (simp add: tl_env_def proxy_answer_def get_map_def get_str_def)
  have n: "on_now tl_env tr = 5" for tr by (simp add: tl_env_def demo_env_def)
  have m: "mapFloat (Some reported) [''lat''] = Some (Fin 1)" "mapFloat (Some reported) [''lon''] = Some (Fin 2)"
    by (simp_all add: reported_def)
  obtain item where i: "telemetryItem (fst demo_tl) ts (Some reported) (Some reported) (Some reported) = Some (item ts)" for ts
    using m by (simp add: telemetryItem_def Let_def firstOf_def)
  show ?thesis
    by (rule exI [of _ "item 0"])
       (simp add: pollOnce_def proxyGetState_def ProxyRequest_def a n i postAnalyticsTelemetry_def demo_tl_enabled
         ProxyPublishAsync_def Let_def)
qed

theorem telemetry_records_sound_witness:
  "\<exists>item b. (pxMonitor (tlProxy (fst demo_tl)),
      proxy_msg (tlProxy (fst demo_tl)) ''proxy_publish'' (tlJournal (fst demo_tl)) ''POST_TELEMETRY'' [(''telemetry_log'', GMap item)])
     \<in> set (sent (snd (snd (run tl_env (pollOnce (fst demo_tl)) (snd demo_tl) [])))) \<and>
     map_of item ''battery'' = Some (GInt (of_int b)) \<and> 0 \<le> b \<and> b \<le> 100"
proof -
  let ?c = "fst demo_tl" and ?r = "run tl_env (pollOnce (fst demo_tl)) (snd demo_tl) []"
  obtain item where sent: "(pxMonitor (tlProxy ?c),
      proxy_msg (tlProxy ?c) ''proxy_publish'' (tlJournal ?c) ''POST_TELEMETRY'' [(''telemetry_log'', GMap item)])
      \<in> set (sent (snd (snd ?r)))" using tl_poll_sends by blast
  have n: "(?c, snd demo_tl) = New_tl tl_host (FromEnv tl_host)" by (simp add: demo_tl_def)
  have r: "reachable (tl_threads ?c) (snd demo_tl) (fst (snd ?r)) [Ret (fst ?r)] (snd (snd ?r))"
    using final_reachable [of "pollOnce ?c" "tl_threads ?c" "snd demo_tl" tl_env]
    by (simp add: tl_threads_def run_views)
  from telemetry_records_sound [OF n r sent] sent show ?thesis by blast
qed

end
