(* ===== verification/Monitor_Gate.thy ===== *)
theory Monitor_Gate
  imports Security_Monitor
begin

text \<open>
  What the security monitor promises, as a reference monitor (\<open>gate\<close>): one bit for the mode and
  the set of configured policies. The detailed model of \<open>Security_Monitor\<close> refines it: every
  message moves the gate as \<open>gate_step\<close> says and is forwarded exactly when \<open>gate_forwards\<close> says so.
\<close>

section \<open>The specification\<close>

record gate =
  gIsolated :: bool
  gTable :: "PolicyKey set"

definition gate_of :: "sm_state \<Rightarrow> gate" where
  "gate_of s = \<lparr>gIsolated = (Mode (safetyState s) = ModeIsolated), gTable = set (normalPolicies s)\<rparr>"

definition gate_allows :: "sm_cfg \<Rightarrow> gate \<Rightarrow> PolicyKey \<Rightarrow> bool" where
  "gate_allows c g k \<longleftrightarrow> (if gIsolated g then k \<in> set (emergencyPolicies c) else k \<in> gTable g)"

text \<open>The policy a message names, if it names a complete one.\<close>

definition named_policy :: "gmap \<Rightarrow> PolicyKey option" where
  "named_policy m =
     (case get_map m ''payload'' of
        None \<Rightarrow> None
      | Some p \<Rightarrow>
          let s = TrimSpace (getStr p ''sender''); t = TrimSpace (getStr p ''topic'');
              a = TrimSpace (getStr p ''action'')
          in if s = [] \<or> t = [] \<or> a = [] then None else Some (key s t a))"

text \<open>Who may manage policies, and who may switch the mode.\<close>

definition is_admin :: "sm_cfg \<Rightarrow> gmap \<Rightarrow> bool" where
  "is_admin c m \<longleftrightarrow> policyAdmin c \<noteq> [] \<and> get_str m ''sender'' = policyAdmin c"

definition may_switch :: "sm_cfg \<Rightarrow> gmap \<Rightarrow> bool" where
  "may_switch c m \<longleftrightarrow> get_str m ''sender'' = ''emergency'' \<or> is_admin c m"

definition gate_step :: "sm_cfg \<Rightarrow> gmap \<Rightarrow> gate \<Rightarrow> gate" where
  "gate_step c m g =
     (let a = get_str m ''action'' in
      if a = ''set_policy'' \<and> is_admin c m then
        (case named_policy m of None \<Rightarrow> g | Some k \<Rightarrow> g\<lparr>gTable := insert k (gTable g)\<rparr>)
      else if a = ''remove_policy'' \<and> is_admin c m then
        (case named_policy m of None \<Rightarrow> g | Some k \<Rightarrow> g\<lparr>gTable := gTable g - {k}\<rparr>)
      else if a = ''clear_policies'' \<and> is_admin c m then g\<lparr>gTable := {}\<rparr>
      else if a = ''ISOLATION_START'' \<and> may_switch c m then g\<lparr>gIsolated := True\<rparr>
      else if a = ''ISOLATION_END'' \<and> may_switch c m then g\<lparr>gIsolated := False\<rparr>
      else g)"

text \<open>The message a proxy request or publication is turned into, if it passes the gate.\<close>

definition gate_forwards :: "sm_cfg \<Rightarrow> gmap \<Rightarrow> gate \<Rightarrow> (string \<times> gmap) list" where
  "gate_forwards c m g =
     (case get_map m ''payload'' of
        None \<Rightarrow> []
      | Some p \<Rightarrow>
          let (t, a, d) = extractTarget p in
          if t \<noteq> [] \<and> a \<noteq> [] \<and> gate_allows c g (key (proxy_sender m) t a)
          then [(t, forward_msg c a d)] else [])"

text \<open>The monitor serving one message after the other.\<close>

definition sm_dispatch :: "sm_cfg \<Rightarrow> gmap \<Rightarrow> (sm_state, unit) prog" where
  "sm_dispatch c = handleMessage (smBase c) (registered (smBase c) (sm_registerHandlers c))"

definition serve :: "sm_cfg \<Rightarrow> env \<Rightarrow> gmap list \<Rightarrow> sm_state \<Rightarrow> sm_state" where
  "serve c E ms s = fold (\<lambda>m. final E (sm_dispatch c m)) ms s"

section \<open>Refinement lemmas\<close>

lemma canManagePolicies_is_admin: "canManagePolicies c (get_str m ''sender'') = is_admin c m"
  by (simp add: canManagePolicies_def is_admin_def)

lemma may_switch_iff:
  "may_switch c m \<longleftrightarrow> get_str m ''sender'' \<noteq> [] \<and>
     (get_str m ''sender'' = ''emergency'' \<or> canManagePolicies c (get_str m ''sender''))"
  by (auto simp: may_switch_def is_admin_def canManagePolicies_def)

lemma allowed_gate: "sm_inv c s \<Longrightarrow> allowed s x t a = gate_allows c (gate_of s) (key x t a)"
  by (auto simp: sm_inv_def allowed_def gate_allows_def gate_of_def)

lemma gate_setPolicy: "gate_of (setPolicy k s) = gate_of s\<lparr>gTable := insert k (gTable (gate_of s))\<rparr>"
  by (simp add: gate_of_def setPolicy_def Let_def)

lemma gate_removePolicy: "gate_of (removePolicy k s) = gate_of s\<lparr>gTable := gTable (gate_of s) - {k}\<rparr>"
  by (simp add: gate_of_def removePolicy_def Let_def)

lemma gate_clearPolicies: "gate_of (clearPolicies s) = gate_of s\<lparr>gTable := {}\<rparr>"
  by (simp add: gate_of_def clearPolicies_def Let_def)

lemma gate_enterIsolated:
  "gate_of (snd (enterIsolatedLocked c n r src s)) = gate_of s\<lparr>gIsolated := True\<rparr>"
  by (simp add: gate_of_def enterIsolatedLocked_def)

lemma gate_enterNormal:
  "sm_inv c s \<Longrightarrow> gate_of (snd (enterNormalLocked n r src s)) = gate_of s\<lparr>gIsolated := False\<rparr>"
  by (simp add: gate_of_def enterNormalLocked_def)

lemma gate_lastSeen: "gate_of (s\<lparr>lastSeenBySender := x\<rparr>) = gate_of s"
  by (simp add: gate_of_def)

lemmas gate_ops = gate_setPolicy gate_removePolicy gate_clearPolicies gate_enterIsolated
  gate_enterNormal gate_lastSeen

lemma gate_handleSetPolicy:
  "gate_of (final E (handleSetPolicy c m) s) =
     (if is_admin c m then case named_policy m of None \<Rightarrow> gate_of s
        | Some k \<Rightarrow> gate_of s\<lparr>gTable := insert k (gTable (gate_of s))\<rparr> else gate_of s)"
  by (auto simp: handleSetPolicy_def canManagePolicies_is_admin final_def named_policy_def Let_def
      gate_ops split: option.splits)

lemma gate_handleRemovePolicy:
  "gate_of (final E (handleRemovePolicy c m) s) =
     (if is_admin c m then case named_policy m of None \<Rightarrow> gate_of s
        | Some k \<Rightarrow> gate_of s\<lparr>gTable := gTable (gate_of s) - {k}\<rparr> else gate_of s)"
  by (auto simp: handleRemovePolicy_def canManagePolicies_is_admin final_def named_policy_def Let_def
      gate_ops split: option.splits)

lemma gate_handleClearPolicies:
  "gate_of (final E (handleClearPolicies c m) s) =
     (if is_admin c m then gate_of s\<lparr>gTable := {}\<rparr> else gate_of s)"
  by (simp add: handleClearPolicies_def canManagePolicies_is_admin final_def gate_ops)

lemma run_log_state [simp]: "fst (snd (run E (logModeTransitionLocked c st) s tr)) = s"
  by (simp add: logModeTransitionLocked_def)

lemma gate_handleIsolationStart:
  "gate_of (final E (handleIsolationStart c m) s) =
     (if may_switch c m then gate_of s\<lparr>gIsolated := True\<rparr> else gate_of s)"
  by (auto simp: handleIsolationStart_def may_switch_iff final_def Let_def gate_ops
      logModeTransitionLocked_def case_prod_beta)

lemma gate_handleIsolationEnd:
  "sm_inv c s \<Longrightarrow> gate_of (final E (handleIsolationEnd c m) s) =
     (if may_switch c m then gate_of s\<lparr>gIsolated := False\<rparr> else gate_of s)"
  by (auto simp: handleIsolationEnd_def may_switch_iff final_def Let_def gate_ops
      logModeTransitionLocked_def case_prod_beta)

lemma run_recordSenderSeen:
  obtains x tr' where "run E (recordSenderSeen sender) s tr = ((), s\<lparr>lastSeenBySender := x\<rparr>, tr')"
    and "sent tr' = sent tr"
proof (cases "TrimSpace sender = []")
  case True
  then show ?thesis using that [of "lastSeenBySender s" tr] by (simp add: recordSenderSeen_def)
next
  case False
  then show ?thesis using that by (simp add: recordSenderSeen_def Let_def)
qed

lemma proxy_handlers_run:
  assumes "sm_inv c s"
  shows "gate_of (final E (handleProxyPublish c m) s) = gate_of s \<and>
         outputs E (handleProxyPublish c m) s = gate_forwards c m (gate_of s)"
    and "gate_of (final E (handleProxyRequest c m) s) = gate_of s \<and>
         outputs E (handleProxyRequest c m) s = gate_forwards c m (gate_of s)"
proof -
  obtain x tr where run: "run E (recordSenderSeen (proxy_sender m)) s [] = ((), s\<lparr>lastSeenBySender := x\<rparr>, tr)"
    and sent: "sent tr = []"
    by (rule run_recordSenderSeen [of E "proxy_sender m" s "[]"]) simp
  have inv: "sm_inv c (s\<lparr>lastSeenBySender := x\<rparr>)" using assms lastSeen_inv by blast
  show "gate_of (final E (handleProxyPublish c m) s) = gate_of s \<and>
         outputs E (handleProxyPublish c m) s = gate_forwards c m (gate_of s)"
    by (auto simp: handleProxyPublish_def Let_def run_views run sent gate_forwards_def gate_lastSeen
        allowed_gate [OF inv] split: option.splits prod.splits)
  show "gate_of (final E (handleProxyRequest c m) s) = gate_of s \<and>
         outputs E (handleProxyRequest c m) s = gate_forwards c m (gate_of s)"
    by (auto simp: handleProxyRequest_def Let_def run_views run sent gate_forwards_def gate_lastSeen
        allowed_gate [OF inv] split: option.splits sum.splits prod.splits)
qed

lemma gate_readers:
  "final E (handleListPolicies c m) s = s" "final E (handleIsolationStatus m) s = s"
  by (simp_all add: handleListPolicies_def handleIsolationStatus_def final_def Let_def)

lemma gate_heartbeat: "gate_of (final E (handleSafetyHeartbeat m) s) = gate_of s"
proof -
  obtain x tr where "run E (recordSenderSeen (get_str m ''sender'')) s [] = ((), s\<lparr>lastSeenBySender := x\<rparr>, tr)"
    by (rule run_recordSenderSeen)
  then show ?thesis by (simp add: handleSafetyHeartbeat_def Let_def final_def gate_lastSeen)
qed

lemmas gate_handlers = gate_handleSetPolicy gate_handleRemovePolicy gate_handleClearPolicies
  gate_handleIsolationStart gate_handleIsolationEnd proxy_handlers_run gate_readers gate_heartbeat

lemma gate_dispatch:
  assumes "sm_inv c s"
  shows "gate_of (final E (sm_dispatch c m) s) = gate_step c m (gate_of s)"
proof -
  have d: "distinct (map fst (sm_registerHandlers c))" by (simp add: sm_registerHandlers_def)
  show ?thesis
    unfolding sm_dispatch_def final_registered [OF d] gate_step_def Let_def
    by (auto simp: sm_registerHandlers_def gate_handlers assms split: option.splits)
qed

lemma serve_inv: "sm_inv c s \<Longrightarrow> sm_inv c (serve c E ms s)"
  using sat_final [OF sm_sat_dispatch]
  by (induction ms arbitrary: s) (auto simp: serve_def sm_dispatch_def)

lemma serve_gate: "sm_inv c s \<Longrightarrow> gate_of (serve c E ms s) = fold (gate_step c) ms (gate_of s)"
proof (induction ms arbitrary: s)
  case (Cons m ms)
  then have "sm_inv c (final E (sm_dispatch c m) s)"
    using serve_inv [of c s E "[m]"] by (simp add: serve_def)
  with Cons gate_dispatch [OF Cons.prems, of E m] show ?case by (simp add: serve_def)
qed (simp add: serve_def)

lemma reachable_sm_inv:
  "(c, s0) = New_sm h json cfg now \<Longrightarrow> reachable (sm_threads c) s0 s ps tr \<Longrightarrow> sm_inv c s"
  using monitor.invariant [of h json cfg now s ps tr] by (metis fst_conv snd_conv)

section \<open>Properties\<close>

text \<open>C7. Refinement. Whatever sequence of messages the monitor serves from its start-up state, it
  ends in the mode and with the configured policies that the reference monitor computes from the
  same messages: only the policy administrator changes the table, only the emergency component or
  the administrator switches the mode, and policies changed while ISOLATED take effect later.\<close>

theorem monitor_refines_gate:
  assumes "(c, s0) = New_sm h json cfg now"
  shows "gate_of (serve c E ms s0) = fold (gate_step c) ms (gate_of s0)"
proof -
  have "sm_inv c s0" using New_sm_inv [of h json cfg now] assms by (metis fst_conv snd_conv)
  then show ?thesis by (rule serve_gate)
qed

definition demo_msg :: "string \<Rightarrow> string \<Rightarrow> gmap \<Rightarrow> gmap" where
  "demo_msg sender action payload =
     [(''action'', GStr action), (''sender'', GStr sender), (''payload'', GMap payload)]"

definition demo_policy :: gmap where
  "demo_policy = [(''sender'', GStr ''autopilot''), (''topic'', GStr ''t''), (''action'', GStr ''SET_TARGET'')]"

theorem monitor_refines_gate_witness:
  "gate_of (serve demo_cfg demo_env
       [demo_msg ''emergency'' ''ISOLATION_START'' [], demo_msg ''admin'' ''set_policy'' demo_policy,
        demo_msg ''motors'' ''clear_policies'' []] demo_sm) =
     \<lparr>gIsolated = True, gTable = {key ''autopilot'' ''t'' ''SET_TARGET''}\<rparr>"
proof -
  have a: "policyAdmin demo_cfg = ''admin''"
    by (simp add: demo_cfg_def New_sm_def demo_host_def Let_def TrimSpace_def is_space_def)
  have g: "gate_of demo_sm = \<lparr>gIsolated = False, gTable = {}\<rparr>"
    by (simp add: demo_sm_def New_sm_def gate_of_def newInitialSafetyState_def Let_def expandPolicies_def
        demo_host_def parsePolicies_def ReplaceAll.simps clonePolicyMap_def)
  show ?thesis
    by (simp add: monitor_refines_gate [OF demo_New] g gate_step_def demo_msg_def demo_policy_def
        get_str_def named_policy_def get_map_def getStr_def str_def is_admin_def a may_switch_def
        TrimSpace_def is_space_def)
qed

text \<open>C4. The proxy forwards exactly what the gate lets through. In any reachable state, serving a
  proxy publication or a proxy request sends one message, the re-signed one to the named target,
  when the payload names a target and the (sender, topic, action) triple is in the effective
  table, and sends nothing otherwise; neither changes mode or policies.\<close>

theorem proxy_forwards_exactly:
  assumes "(c, s0) = New_sm h json cfg now" and "reachable (sm_threads c) s0 s ps tr"
  shows "outputs E (handleProxyPublish c m) s = gate_forwards c m (gate_of s) \<and>
         outputs E (handleProxyRequest c m) s = gate_forwards c m (gate_of s) \<and>
         gate_of (final E (handleProxyPublish c m) s) = gate_of s \<and>
         gate_of (final E (handleProxyRequest c m) s) = gate_of s"
  using proxy_handlers_run [OF reachable_sm_inv [OF assms]] by simp

definition demo_proxy :: "string \<Rightarrow> string \<Rightarrow> gmap" where
  "demo_proxy topic action =
     demo_msg ''emergency'' ''proxy_publish''
       [(''target'', GMap [(''topic'', GStr topic), (''action'', GStr action)])]"

lemma demo_isolated_reachable:
  "\<exists>ps tr. reachable (sm_threads demo_cfg) demo_sm demo_isolated ps tr"
proof -
  have "final demo_env (demo_dispatch demo_isolate) demo_sm = demo_isolated"
    by (simp add: demo_isolated_def final_def demo_dispatch_isolate run_bind split: prod.splits)
  then show ?thesis using final_reachable [OF demo_dispatch_thread, of demo_sm demo_env demo_isolate] by auto
qed

lemma demo_motors_topic: "BrokerTopicFor (smConfig demo_cfg) ''motors'' = ''v1.deliverydron.Delivery001.motors''"
  by (simp add: demo_cfg_def New_sm_def Let_def BrokerTopicFor_def TopicPrefix_def FromEnv_def
      demo_host_def TrimSpace_def is_space_def EqualFold_def ToLower_def lower_char_def BrokerCredentials_def)

lemma demo_forwards:
  "gate_forwards demo_cfg (demo_proxy ''v1.deliverydron.Delivery001.motors'' ''LAND'') (gate_of demo_isolated) =
     [(''v1.deliverydron.Delivery001.motors'', forward_msg demo_cfg ''LAND'' [])]"
  "gate_forwards demo_cfg (demo_proxy ''v1.deliverydron.Delivery001.motors'' ''SET_TARGET'') (gate_of demo_isolated) = []"
proof -
  have g: "gIsolated (gate_of demo_isolated)" by (simp add: gate_of_def demo_isolated_mode)
  note defs = gate_forwards_def demo_proxy_def demo_msg_def get_map_def extractTarget_def getStr_def
    str_def TrimSpace_def is_space_def g gate_allows_def proxy_sender_def get_str_def
    emergencyPolicies_def demo_motors_topic nilmap_def Let_def
  show "gate_forwards demo_cfg (demo_proxy ''v1.deliverydron.Delivery001.motors'' ''LAND'') (gate_of demo_isolated) =
     [(''v1.deliverydron.Delivery001.motors'', forward_msg demo_cfg ''LAND'' [])]"
    by (simp add: defs)
  show "gate_forwards demo_cfg (demo_proxy ''v1.deliverydron.Delivery001.motors'' ''SET_TARGET'') (gate_of demo_isolated) = []"
    by (simp add: defs)
qed

theorem proxy_forwards_exactly_witness:
  "outputs demo_env (handleProxyPublish demo_cfg (demo_proxy ''v1.deliverydron.Delivery001.motors'' ''LAND''))
     demo_isolated = [(''v1.deliverydron.Delivery001.motors'', forward_msg demo_cfg ''LAND'' [])] \<and>
   outputs demo_env (handleProxyPublish demo_cfg (demo_proxy ''v1.deliverydron.Delivery001.motors'' ''SET_TARGET''))
     demo_isolated = []"
proof -
  obtain ps tr where r: "reachable (sm_threads demo_cfg) demo_sm demo_isolated ps tr"
    using demo_isolated_reachable by blast
  show ?thesis by (simp add: proxy_forwards_exactly [OF demo_New r] demo_forwards)
qed

text \<open>C8. While ISOLATED, whatever a client asks the proxy to send, in any reachable state, leaves
  the monitor only if the client is the emergency component and the target is one of the six
  recovery operations (read the position, land, close the cargo bay, journal, ask for the
  isolation status, end the isolation).\<close>

theorem isolated_gate:
  assumes "(c, s0) = New_sm h json cfg now" and "reachable (sm_threads c) s0 s ps tr"
    and "Mode (safetyState s) = ModeIsolated"
    and "(t, f) \<in> set (outputs E (handleProxyPublish c m) s) \<union> set (outputs E (handleProxyRequest c m) s)"
  shows "get_str m ''sender'' = ''emergency'' \<and>
     (\<exists>(nm, a) \<in> {(''navigation'', ''get_state''), (''motors'', ''LAND''), (''cargo'', ''CLOSE''),
        (''journal'', ''LOG_EVENT''), (''security_monitor'', ''isolation_status''),
        (''security_monitor'', ''ISOLATION_END'')}. t = BrokerTopicFor cfg nm \<and> get_str f ''action'' = a)"
proof -
  have c: "smConfig c = cfg" using assms(1) by (simp add: New_sm_def Let_def)
  have "(t, f) \<in> set (gate_forwards c m (gate_of s))"
    using assms(4) proxy_handlers_run [OF reachable_sm_inv [OF assms(1,2)]] by simp
  then obtain a d where f: "f = forward_msg c a d" and al: "gate_allows c (gate_of s) (key (proxy_sender m) t a)"
    by (auto simp: gate_forwards_def Let_def split: option.splits if_splits)
  have "key (proxy_sender m) t a \<in> set (emergencyPolicies c)"
    using al assms(3) by (simp add: gate_allows_def gate_of_def)
  then show ?thesis
    by (auto simp: emergencyPolicies_def Let_def c f forward_msg_def get_str_def proxy_sender_def orElse_def
        split: if_splits)
qed

theorem isolated_gate_witness:
  "get_str (demo_proxy ''v1.deliverydron.Delivery001.motors'' ''LAND'') ''sender'' = ''emergency''"
proof -
  let ?t = "''v1.deliverydron.Delivery001.motors''"
  obtain ps tr where r: "reachable (sm_threads demo_cfg) demo_sm demo_isolated ps tr"
    using demo_isolated_reachable by blast
  have "(?t, forward_msg demo_cfg ''LAND'' []) \<in>
      set (outputs demo_env (handleProxyPublish demo_cfg (demo_proxy ?t ''LAND'')) demo_isolated)"
    by (simp add: proxy_handlers_run [OF reachable_sm_inv [OF demo_New r]] demo_forwards)
  with isolated_gate [OF demo_New r demo_isolated_mode] show ?thesis by blast
qed

text \<open>C33. Isolation round trip. From any NORMAL state, ISOLATION_START followed by ISOLATION_END
  (both by an authorised sender) brings back exactly the configured policies, counts the version
  up by two and keeps the time of the activation.\<close>

theorem isolation_round_trip:
  assumes "sm_inv c s" and "Mode (safetyState s) = ModeNormal"
    and "may_switch c m" and "may_switch c m'"
  shows "let s1 = final E (handleIsolationStart c m) s; s2 = final E' (handleIsolationEnd c m') s1 in
     policies s1 = emergencyPolicies c \<and> Mode (safetyState s2) = ModeNormal \<and>
     set (policies s2) = set (policies s) \<and> normalPolicies s2 = normalPolicies s \<and>
     Version (safetyState s2) = Version (safetyState s) + 2 \<and>
     ActivatedAt (safetyState s2) = ActivatedAt (safetyState s1)"
  using assms
  by (auto simp: handleIsolationStart_def handleIsolationEnd_def may_switch_iff final_def Let_def
      enterIsolatedLocked_def enterNormalLocked_def case_prod_beta sm_inv_def logModeTransitionLocked_def)

theorem isolation_round_trip_witness:
  "Version (safetyState (final demo_env (handleIsolationEnd demo_cfg demo_isolate) demo_isolated)) = 3"
proof -
  have "Mode (safetyState demo_sm) = ModeNormal" "Version (safetyState demo_sm) = 1"
    by (simp_all add: demo_sm_def New_sm_def newInitialSafetyState_def Let_def)
  moreover have "sm_inv demo_cfg demo_sm"
    using New_sm_inv [of demo_host "\<lambda>_. None" "FromEnv demo_host" 1] by (simp add: demo_cfg_def demo_sm_def)
  moreover have "may_switch demo_cfg demo_isolate" by (simp add: may_switch_def demo_isolate_def get_str_def)
  ultimately show ?thesis
    using isolation_round_trip [of demo_cfg demo_sm demo_isolate demo_isolate demo_env demo_env]
    by (simp add: Let_def demo_isolated_def)
qed

end
