(* ===== verification/Motors.thy ===== *)
theory Motors
  imports Component_Base
begin

text \<open>
  Package \<^verbatim>\<open>motors\<close> (\<^verbatim>\<open>motors/src/motors.go\<close>): the actuator that turns targets into SITL
  velocity commands. \<open>motors_cfg\<close> holds the fields set by \<^verbatim>\<open>New\<close>, \<open>motors_state\<close> those guarded by
  \<^verbatim>\<open>m.mu\<close>. \<^verbatim>\<open>math.Sin\<close> and \<^verbatim>\<open>math.Cos\<close> are a \<open>libm\<close> argument.
\<close>

section \<open>Data\<close>

definition ModeIDLE :: string where "ModeIDLE = ''IDLE''"
definition ModeTRACKING :: string where "ModeTRACKING = ''TRACKING''"
definition ModeLANDING :: string where "ModeLANDING = ''LANDING''"
definition defaultSITLDroneID :: string where "defaultSITLDroneID = ''drone_001''"
definition sitlLandVz :: float64 where "sitlLandVz = Fin (- 1 / 2)"

text \<open>The regular expression \<^verbatim>\<open>^drone_[0-9]{3,4}$\<close>.\<close>

definition sitlDroneIDPattern :: "string \<Rightarrow> bool" where
  "sitlDroneIDPattern s \<longleftrightarrow>
     HasPrefix s ''drone_'' \<and> list_all is_digit (drop 6 s) \<and> length (drop 6 s) \<in> {3, 4}"

record motors_cfg =
  motBase :: BaseComponent
  sitlTopic :: string
  sitlMode :: string
  droneID :: string
  tempC :: float64

record motors_state = base_state +
  motMode :: string
  lastTarget :: "gmap option"
  lastCmdTs :: float64

section \<open>Operations\<close>

definition New_motors :: "host \<Rightarrow> Config \<Rightarrow> motors_cfg \<times> motors_state" where
  "New_motors h cfg =
     (let d = orElse (TrimSpace (Getenv h ''SITL_DRONE_ID'')) defaultSITLDroneID in
      (\<lparr>motBase = newBase cfg ''motors'',
        sitlTopic = orElse (TrimSpace (Getenv h ''SITL_COMMANDS_TOPIC'')) ''sitl.commands'',
        sitlMode = orElse (TrimSpace (ToLower (Getenv h ''SITL_MODE''))) ''mock'',
        droneID = (if sitlDroneIDPattern d then d else defaultSITLDroneID),
        tempC = env_float h ''MOTORS_TEMPERATURE_C_DEFAULT'' (\<lambda>_. True) (Fin 25)\<rparr>,
       \<lparr>running = False, motMode = ModeIDLE, lastTarget = None, lastCmdTs = Fin 0\<rparr>))"

fun toFloat :: "gval \<Rightarrow> float64 option" where
  "toFloat (GFloat x) = Some x"
| "toFloat (GFloat32 x) = Some x"
| "toFloat (GInt w) = Some (i64 w)"
| "toFloat (GInt32 w) = Some (i32 w)"
| "toFloat (GInt64 w) = Some (i64 w)"
| "toFloat _ = None"

definition floatFromMap :: "gmap \<Rightarrow> string \<Rightarrow> float64 option" where
  "floatFromMap m k = (case map_of m k of None \<Rightarrow> None | Some v \<Rightarrow> toFloat v)"

definition clamp :: "float64 \<Rightarrow> float64 \<Rightarrow> float64 \<Rightarrow> float64" where
  "clamp v lo hi = (if flt v lo then lo else if fgt v hi then hi else v)"

fun sanitize_keys :: "gmap \<Rightarrow> string list \<Rightarrow> gmap \<Rightarrow> string + gmap" where
  "sanitize_keys payload [] target = Inr target"
| "sanitize_keys payload (k # ks) target =
     (case map_of payload k of
        None \<Rightarrow> sanitize_keys payload ks target
      | Some v \<Rightarrow> (case toFloat v of
          None \<Rightarrow> Inl (''invalid_'' @ k)
        | Some _ \<Rightarrow> sanitize_keys payload ks (put k v target)))"

definition target_keys :: "string list" where
  "target_keys =
     [''heading_deg'', ''ground_speed_mps'', ''alt_m'', ''vx'', ''vy'', ''vz'', ''lat'', ''lon'']"

definition sanitizeTarget :: "gmap \<Rightarrow> string + gmap" where
  "sanitizeTarget payload =
     (case sanitize_keys payload target_keys [] of
        Inl e \<Rightarrow> Inl e
      | Inr target \<Rightarrow>
          let finish = (\<lambda>t. if t = [] then Inl ''empty_target'' else Inr t) in
          case map_of payload ''drop'' of
            None \<Rightarrow> finish target
          | Some (GBool b) \<Rightarrow> finish (put ''drop'' (GBool b) target)
          | Some _ \<Rightarrow> Inl ''invalid_drop'')"

definition sitl_cmd :: "string \<Rightarrow> float64 \<Rightarrow> float64 \<Rightarrow> float64 \<Rightarrow> float64 \<Rightarrow> gmap" where
  "sitl_cmd d vx vy vz hdg =
     [(''drone_id'', GStr d), (''vx'', GFloat vx), (''vy'', GFloat vy), (''vz'', GFloat vz),
      (''mag_heading'', GFloat hdg)]"

definition landSITLCommand :: "string \<Rightarrow> gmap" where
  "landSITLCommand d = sitl_cmd d (Fin 0) (Fin 0) sitlLandVz (Fin 0)"

definition maxHeading :: float64 where
  "maxHeading = round64 (3599 / 10)"

definition orZero :: "float64 option \<Rightarrow> float64" where
  "orZero x = (case x of None \<Rightarrow> Fin 0 | Some v \<Rightarrow> v)"

text \<open>The error result of \<^verbatim>\<open>targetToSITLCommand\<close> is always nil.\<close>

definition targetToSITLCommand :: "libm \<Rightarrow> string \<Rightarrow> gmap \<Rightarrow> gmap" where
  "targetToSITLCommand L d target =
     (let vx = floatFromMap target ''vx''; vy = floatFromMap target ''vy'';
          vz = floatFromMap target ''vz''; heading = floatFromMap target ''heading_deg'';
          speed = floatFromMap target ''ground_speed_mps'';
          (vx', vy') =
            (case (vx, vy, heading, speed) of
               (None, None, Some hdg, Some sp) \<Rightarrow>
                 let rad = fdiv (fmul hdg fpi) (Fin 180)
                 in (Some (fmul sp (m_sin L rad)), Some (fmul sp (m_cos L rad)))
             | _ \<Rightarrow> (vx, vy))
      in sitl_cmd d (clamp (orZero vx') (Fin (-50)) (Fin 50)) (clamp (orZero vy') (Fin (-50)) (Fin 50))
           (clamp (orZero vz) (Fin (-10)) (Fin 10)) (clamp (orZero heading) (Fin 0) maxHeading))"

definition emitSITL :: "motors_cfg \<Rightarrow> gmap \<Rightarrow> (motors_state, unit) prog" where
  "emitSITL c cmd = Pub (sitlTopic c) cmd (\<lambda>_. Ret ())"

definition handleSetTarget :: "libm \<Rightarrow> motors_cfg \<Rightarrow> motors_state handler" where
  "handleSetTarget L c m =
     (if \<not> IsTrustedSender m ''security_monitor'' then noReply
      else case get_map m ''payload'' of
        None \<Rightarrow> reply [(''ok'', GBool False), (''error'', GStr ''invalid_payload'')]
      | Some payload \<Rightarrow> (case sanitizeTarget payload of
          Inl e \<Rightarrow> reply [(''ok'', GBool False), (''error'', GStr e)]
        | Inr target \<Rightarrow>
            Now (\<lambda>now. modify (\<lambda>s. s\<lparr>lastTarget := Some target, motMode := ModeTRACKING,
                                   lastCmdTs := seconds now\<rparr>)
              (andThen (emitSITL c (targetToSITLCommand L (droneID c) target))
                (reply [(''ok'', GBool True), (''mode'', GStr ModeTRACKING)])))))"

definition handleLand :: "motors_cfg \<Rightarrow> motors_state handler" where
  "handleLand c m =
     (if \<not> IsTrustedSender m ''security_monitor'' then noReply
      else Now (\<lambda>now. modify (\<lambda>s. s\<lparr>motMode := ModeLANDING, lastCmdTs := seconds now\<rparr>)
        (andThen (emitSITL c (landSITLCommand (droneID c)))
          (reply [(''ok'', GBool True), (''mode'', GStr ModeLANDING)]))))"

definition handleGetState_motors :: "motors_cfg \<Rightarrow> motors_state handler" where
  "handleGetState_motors c _ = readState (\<lambda>s.
     reply [(''mode'', GStr (motMode s)), (''last_target'', map_val (lastTarget s)),
            (''last_cmd_ts'', GFloat (lastCmdTs s)), (''temperature_c'', GFloat (tempC c)),
            (''sitl_mode'', GStr (sitlMode c)), (''sitl_drone_id'', GStr (droneID c))])"

definition motors_registerHandlers :: "libm \<Rightarrow> motors_cfg \<Rightarrow> (string \<times> motors_state handler) list" where
  "motors_registerHandlers L c =
     [(''SET_TARGET'', handleSetTarget L c), (''LAND'', handleLand c),
      (''get_state'', handleGetState_motors c)]"

definition motors_dispatch :: "libm \<Rightarrow> motors_cfg \<Rightarrow> gmap \<Rightarrow> (motors_state, unit) prog" where
  "motors_dispatch L c = handleMessage (motBase c) (registered (motBase c) (motors_registerHandlers L c))"

section \<open>Contract\<close>

definition target_entry :: "string \<times> gval \<Rightarrow> bool" where
  "target_entry p \<longleftrightarrow> (fst p \<in> set target_keys \<and> toFloat (snd p) \<noteq> None) \<or>
     (fst p = ''drop'' \<and> (\<exists>b. snd p = GBool b))"

definition motors_inv :: "motors_state \<Rightarrow> bool" where
  "motors_inv s \<longleftrightarrow>
     motMode s \<in> {ModeIDLE, ModeTRACKING, ModeLANDING} \<and>
     (motMode s = ModeTRACKING \<longrightarrow> lastTarget s \<noteq> None) \<and>
     (\<forall>t. lastTarget s = Some t \<longrightarrow> t \<noteq> [] \<and> list_all target_entry t)"

text \<open>A value in an interval, unless it is NaN.\<close>

definition inRange :: "gmap \<Rightarrow> string \<Rightarrow> float64 \<Rightarrow> float64 \<Rightarrow> bool" where
  "inRange m k lo hi \<longleftrightarrow> (\<exists>v. get_float64 m k = Some v \<and> (v = NaN \<or> fle lo v \<and> fle v hi))"

definition sitl_ok :: "gmap \<Rightarrow> bool" where
  "sitl_ok m \<longleftrightarrow> sitlDroneIDPattern (get_str m ''drone_id'') \<and>
     inRange m ''vx'' (Fin (-50)) (Fin 50) \<and> inRange m ''vy'' (Fin (-50)) (Fin 50) \<and>
     inRange m ''vz'' (Fin (-10)) (Fin 10) \<and> inRange m ''mag_heading'' (Fin 0) maxHeading"

definition motors_out :: "motors_cfg \<Rightarrow> string \<Rightarrow> gmap \<Rightarrow> bool" where
  "motors_out c t m \<longleftrightarrow> get_str m ''action'' = ''response'' \<or> (t = sitlTopic c \<and> sitl_ok m)"

lemma clamp_range: "fle lo hi \<Longrightarrow> clamp v lo hi = NaN \<or> fle lo (clamp v lo hi) \<and> fle (clamp v lo hi) hi"
  by (cases v; cases lo; cases hi) (auto simp: clamp_def fgt_def fle_def feq_def)

lemma maxHeading_val: "maxHeading = Fin (3165713878692659 / 8796093022208)"
  unfolding maxHeading_def by code_simp

lemma fle_maxHeading [simp]: "fle (Fin 0) maxHeading"
  by (simp add: maxHeading_val)

lemma sitl_ok_cmd:
  assumes "sitlDroneIDPattern d" "vx = NaN \<or> fle (Fin (-50)) vx \<and> fle vx (Fin 50)"
    "vy = NaN \<or> fle (Fin (-50)) vy \<and> fle vy (Fin 50)" "vz = NaN \<or> fle (Fin (-10)) vz \<and> fle vz (Fin 10)"
    "h = NaN \<or> fle (Fin 0) h \<and> fle h maxHeading"
  shows "sitl_ok (sitl_cmd d vx vy vz h)"
  using assms by (simp add: sitl_ok_def inRange_def sitl_cmd_def get_str_def get_float64_def)

lemma sitl_ok_target: "sitlDroneIDPattern d \<Longrightarrow> sitl_ok (targetToSITLCommand L d t)"
  unfolding targetToSITLCommand_def Let_def case_prod_beta
  by (intro sitl_ok_cmd clamp_range) simp_all

lemma sitl_ok_land: "sitlDroneIDPattern d \<Longrightarrow> sitl_ok (landSITLCommand d)"
  unfolding landSITLCommand_def by (intro sitl_ok_cmd) (simp_all add: sitlLandVz_def)

lemma sanitize_keys_sound:
  assumes "sanitize_keys payload ks acc = Inr t"
    and "\<forall>(k, v) \<in> set acc. k \<in> K \<and> toFloat v \<noteq> None" and "set ks \<subseteq> K"
  shows "\<forall>(k, v) \<in> set t. k \<in> K \<and> toFloat v \<noteq> None"
  using assms
proof (induction payload ks acc rule: sanitize_keys.induct)
  case (2 payload k ks target)
  show ?case
  proof (cases "map_of payload k")
    case None
    with 2 show ?thesis by simp
  next
    case (Some v)
    with 2 have "toFloat v \<noteq> None" by (auto split: option.splits)
    moreover have "\<forall>(x, y) \<in> set (put k v target). x \<in> K \<and> toFloat y \<noteq> None"
      using 2(4,5) \<open>toFloat v \<noteq> None\<close> set_put_subset [of k v target] by fastforce
    ultimately show ?thesis using Some 2 by (auto split: option.splits)
  qed
qed simp

lemma sanitizeTarget_drop:
  assumes "sanitizeTarget payload = Inr t" "sanitize_keys payload target_keys [] = Inr u"
  shows "t \<noteq> [] \<and> (t = u \<or> (\<exists>b. t = put ''drop'' (GBool b) u))"
proof (cases "map_of payload ''drop''")
  case None
  with assms show ?thesis by (simp add: sanitizeTarget_def split: if_splits)
next
  case (Some v)
  with assms show ?thesis by (cases v) (auto simp: sanitizeTarget_def)
qed

lemma sanitizeTarget_sound:
  assumes "sanitizeTarget payload = Inr t"
  shows "t \<noteq> [] \<and> list_all target_entry t"
proof -
  obtain u where u: "sanitize_keys payload target_keys [] = Inr u"
    using assms by (auto simp: sanitizeTarget_def split: sum.splits)
  have "\<forall>(k, v) \<in> set u. k \<in> set target_keys \<and> toFloat v \<noteq> None"
    by (rule sanitize_keys_sound [OF u]) auto
  then have "\<forall>p \<in> set u. target_entry p" by (auto simp: target_entry_def)
  moreover have "target_entry (''drop'', GBool b)" for b by (simp add: target_entry_def)
  ultimately show ?thesis
    using sanitizeTarget_drop [OF assms u] set_put_subset [of "''drop''" _ u]
    unfolding list_all_iff by blast
qed

lemma motors_sat:
  assumes "sitlDroneIDPattern (droneID c)"
  shows "sat motors_inv (\<lambda>_ _. True) (motors_out c) anyResult (motors_dispatch L c m)"
  unfolding motors_dispatch_def
proof (rule sat_registered)
  fix a h m assume "(a, h) \<in> set (motors_registerHandlers L c)"
  then consider "h = handleSetTarget L c" | "h = handleLand c" | "h = handleGetState_motors c"
    by (auto simp: motors_registerHandlers_def)
  then show "sat motors_inv (\<lambda>_ _. True) (motors_out c) anyResult (h m)"
  proof cases
    case 1
    then show ?thesis
      by (auto simp: handleSetTarget_def emitSITL_def motors_out_def sitl_ok_target assms motors_inv_def
          dest: sanitizeTarget_sound split: option.splits sum.splits)
  next
    case 2
    then show ?thesis
      by (auto simp: handleLand_def emitSITL_def motors_out_def sitl_ok_land assms motors_inv_def
          ModeTRACKING_def ModeLANDING_def)
  next
    case 3
    then show ?thesis by (simp add: handleGetState_motors_def)
  qed
qed (simp_all add: motors_out_def)

lemma New_motors_pattern: "sitlDroneIDPattern (droneID (fst (New_motors h cfg)))"
  by (simp add: New_motors_def Let_def sitlDroneIDPattern_def defaultSITLDroneID_def HasPrefix_def
      is_digit_def)

lemma New_motors_inv: "motors_inv (snd (New_motors h cfg))"
  by (simp add: New_motors_def Let_def motors_inv_def ModeIDLE_def ModeTRACKING_def)

interpretation motors: goroutines "range (motors_dispatch L (fst (New_motors h cfg)))"
    "snd (New_motors h cfg)" motors_inv "\<lambda>_ _. True" "motors_out (fst (New_motors h cfg))" for L h cfg
  by unfold_locales (auto simp: New_motors_inv New_motors_pattern motors_sat)

interpretation motors_cmds: commanded_component "motBase c" "motors_registerHandlers L c"
    "{''SET_TARGET'', ''LAND''}" "{''security_monitor''}" for c L
  by unfold_locales (auto simp: motors_registerHandlers_def handleSetTarget_def handleLand_def handleGetState_motors_def)

lemma wire_inRange:
  assumes "wire_map m = Some m'" "inRange m k lo hi"
  shows "\<exists>q. get_float64 m' k = Some (Fin q) \<and> fle lo (Fin q) \<and> fle (Fin q) hi"
proof -
  obtain v where v: "map_of m k = Some (GFloat v)" "v = NaN \<or> fle lo v \<and> fle v hi"
    using assms(2) by (auto simp: inRange_def get_float64_def split: option.splits gval.splits)
  have "map_of m' k \<noteq> None" using wire_map_keys [OF assms(1)] v(1)
    by (metis map_of_eq_None_iff list.set_map option.distinct(1))
  then have "is_fin v" "map_of m' k = Some (GFloat v)"
    using wire_map_lookup [OF assms(1), of k] v(1) by (auto split: if_splits)
  then show ?thesis using v(2) by (cases v) (auto simp: get_float64_def)
qed

section \<open>Properties\<close>

text \<open>C28. Every command the motors put on the bus, under any schedule of handler calls for arbitrary
  messages, goes to the SITL topic and, once encoded for the broker, names a drone id of the
  SITL format and carries finite values inside the SITL envelope: horizontal speeds within 50,
  vertical speed within 10, heading from 0 to 359.9.\<close>

theorem motors_sitl_envelope:
  assumes "(c, s0) = New_motors h cfg" and "reachable (range (motors_dispatch L c)) s0 s ps tr"
    and "(t, m) \<in> set (sent tr)" and "get_str m ''action'' \<noteq> ''response''" and "wire_map m = Some m'"
  shows "t = sitlTopic c \<and> sitlDroneIDPattern (get_str m ''drone_id'') \<and>
    (\<exists>vx vy vz hdg. get_float64 m' ''vx'' = Some (Fin vx) \<and> get_float64 m' ''vy'' = Some (Fin vy) \<and>
       get_float64 m' ''vz'' = Some (Fin vz) \<and> get_float64 m' ''mag_heading'' = Some (Fin hdg) \<and>
       \<bar>vx\<bar> \<le> 50 \<and> \<bar>vy\<bar> \<le> 50 \<and> \<bar>vz\<bar> \<le> 10 \<and> 0 \<le> hdg \<and> hdg < 360)"
proof -
  from assms(1) have eqs: "c = fst (New_motors h cfg)" "s0 = snd (New_motors h cfg)"
    by (metis fst_conv) (metis assms(1) snd_conv)
  with assms(2,3) have "motors_out c t m" using motors.only_sent [of L h cfg s ps tr t m] by simp
  with assms(4) have ok: "t = sitlTopic c" "sitl_ok m" by (auto simp: motors_out_def)
  then obtain vx vy vz hdg where "get_float64 m' ''vx'' = Some (Fin vx)" "-50 \<le> vx" "vx \<le> 50"
      "get_float64 m' ''vy'' = Some (Fin vy)" "-50 \<le> vy" "vy \<le> 50"
      "get_float64 m' ''vz'' = Some (Fin vz)" "-10 \<le> vz" "vz \<le> 10"
      "get_float64 m' ''mag_heading'' = Some (Fin hdg)" "0 \<le> hdg" "fle (Fin hdg) maxHeading"
    using wire_inRange [OF assms(5)] unfolding sitl_ok_def by (metis fle_Fin)
  then show ?thesis using ok by (auto simp: maxHeading_val sitl_ok_def)
qed

definition demo_motors :: "motors_cfg \<times> motors_state" where
  "demo_motors = New_motors demo_host (FromEnv demo_host)"

definition demo_land :: gmap where
  "demo_land = [(''action'', GStr ''LAND''), (''sender'', GStr ''security_monitor'')]"

lemma motors_land_run:
  "map_of (registered (motBase c) (motors_registerHandlers L c)) ''LAND'' = Some (handleLand c)"
  by (rule map_of_registered) (simp_all add: motors_registerHandlers_def)

lemma demo_land_run:
  "run demo_env (motors_dispatch L c demo_land) s [] =
     ((), s\<lparr>motMode := ModeLANDING, lastCmdTs := seconds 5\<rparr>,
      [Clock 5, Published (sitlTopic c) (landSITLCommand (droneID c)) None])"
  by (simp add: motors_dispatch_def handleMessage_def demo_land_def get_str_def motors_land_run
      handleLand_def IsTrustedSender_iff emitSITL_def demo_env_def Let_def)

theorem motors_sitl_envelope_witness:
  "\<exists>vx. get_float64 (landSITLCommand (droneID (fst demo_motors))) ''vx'' = Some (Fin vx) \<and> \<bar>vx\<bar> \<le> 50"
proof -
  let ?c = "fst demo_motors" and ?s = "snd demo_motors" and ?m = "landSITLCommand (droneID (fst demo_motors))"
  have n: "(?c, ?s) = New_motors demo_host (FromEnv demo_host)" by (simp add: demo_motors_def)
  from run_reachable_range [where f = "motors_dispatch demo_libm ?c", OF demo_land_run]
  have r: "reachable (range (motors_dispatch demo_libm ?c)) ?s (?s\<lparr>motMode := ModeLANDING, lastCmdTs := seconds 5\<rparr>)
      [Ret ()] [Clock 5, Published (sitlTopic ?c) ?m None]" by simp
  have w: "wire_map ?m = Some ?m"
    by (simp add: landSITLCommand_def sitl_cmd_def sitlLandVz_def)
  have "get_str ?m ''action'' \<noteq> ''response''" by (simp add: landSITLCommand_def sitl_cmd_def get_str_def)
  from motors_sitl_envelope [OF n r _ this w] show ?thesis by auto
qed

text \<open>The behaviour of SET\_TARGET and LAND on every branch: a sender other than the security
  monitor is ignored without a reply; a target is stored, the mode becomes TRACKING and exactly one
  SITL command is published when the payload is a map whose known fields are numbers (and
  \<open>drop\<close> a boolean) and at least one is present; otherwise an error is returned and nothing
  changes; LAND always switches to LANDING and publishes the landing command.\<close>

theorem motors_commands:
  "run E (handleSetTarget L c m) s [] =
     (if get_str m ''sender'' \<noteq> ''security_monitor'' then (Inr None, s, [])
      else case get_map m ''payload'' of
        None \<Rightarrow> (Inr (Some [(''ok'', GBool False), (''error'', GStr ''invalid_payload'')]), s, [])
      | Some p \<Rightarrow> (case sanitizeTarget p of
          Inl e \<Rightarrow> (Inr (Some [(''ok'', GBool False), (''error'', GStr e)]), s, [])
        | Inr t \<Rightarrow>
            let now = on_now E []; cmd = targetToSITLCommand L (droneID c) t in
            (Inr (Some [(''ok'', GBool True), (''mode'', GStr ModeTRACKING)]),
             s\<lparr>lastTarget := Some t, motMode := ModeTRACKING, lastCmdTs := seconds now\<rparr>,
             [Clock now, Published (sitlTopic c) cmd (on_pub E [Clock now] (sitlTopic c) cmd)]))) \<and>
   run E (handleLand c m) s [] =
     (if get_str m ''sender'' \<noteq> ''security_monitor'' then (Inr None, s, [])
      else let now = on_now E []; cmd = landSITLCommand (droneID c) in
        (Inr (Some [(''ok'', GBool True), (''mode'', GStr ModeLANDING)]),
         s\<lparr>motMode := ModeLANDING, lastCmdTs := seconds now\<rparr>,
         [Clock now, Published (sitlTopic c) cmd (on_pub E [Clock now] (sitlTopic c) cmd)]))"
  by (simp add: handleSetTarget_def handleLand_def IsTrustedSender_iff emitSITL_def Let_def
      split: option.splits sum.splits)

text \<open>C29. In every reachable state the motors are IDLE, TRACKING or LANDING; they are TRACKING only with
  a stored target, and a stored target consists of numeric fields of the known names and a
  boolean \<open>drop\<close> only.\<close>

theorem motors_reachable_state:
  assumes "(c, s0) = New_motors h cfg" and "reachable (range (motors_dispatch L c)) s0 s ps tr"
  shows "motors_inv s"
  using assms motors.invariant [of L h cfg s ps tr] by (metis fst_conv snd_conv)

theorem motors_reachable_state_witness:
  "motors_inv ((snd demo_motors)\<lparr>motMode := ModeLANDING, lastCmdTs := seconds 5\<rparr>)"
proof -
  let ?c = "fst demo_motors" and ?s = "snd demo_motors"
  have n: "(?c, ?s) = New_motors demo_host (FromEnv demo_host)" by (simp add: demo_motors_def)
  have f: "final demo_env (motors_dispatch demo_libm ?c demo_land) ?s =
      ?s\<lparr>motMode := ModeLANDING, lastCmdTs := seconds 5\<rparr>"
    by (simp add: final_def demo_land_run)
  show ?thesis
    using final_reachable_range [of "motors_dispatch demo_libm ?c" ?s demo_env demo_land]
      motors_reachable_state [OF n] by (auto simp: f)
qed

end
