(* ===== verification/Cargo.thy ===== *)
theory Cargo
  imports Component_Base
begin

text \<open>
  Package \<^verbatim>\<open>cargo\<close> (\<^verbatim>\<open>cargo/src/cargo.go\<close>): the cargo bay door, opened and closed on behalf of the
  security monitor only; every change of the door is journalled through the monitor's proxy.
\<close>

section \<open>Data and operations\<close>

definition StateClosed :: string where "StateClosed = ''CLOSED''"
definition StateOpen :: string where "StateOpen = ''OPEN''"

record cargo_cfg =
  cargoBase :: BaseComponent
  cargoAudit :: AuditLogger

record cargo_state = base_state +
  door :: string
  lastChangeTs :: float64

definition New_cargo :: "host \<Rightarrow> Config \<Rightarrow> int \<Rightarrow> cargo_cfg \<times> cargo_state" where
  "New_cargo h cfg now =
     (\<lparr>cargoBase = newBase cfg ''cargo'',
       cargoAudit = \<lparr>alProxy = \<lparr>pxSender = ComponentID cfg, pxMonitor = secTopic h cfg, pxTimeout = Fin 5\<rparr>,
                     alJournal = BrokerTopicFor cfg ''journal'', alSource = ''cargo''\<rparr>\<rparr>,
      \<lparr>running = False, door = StateClosed, lastChangeTs = seconds now\<rparr>)"

definition logStateChange :: "cargo_cfg \<Rightarrow> string \<Rightarrow> string \<Rightarrow> (cargo_state, unit) prog" where
  "logStateChange c old new =
     logToJournal (cargoAudit c) ''CARGO_STATE_CHANGED''
       [(''old_state'', GStr old), (''new_state'', GStr new)]"

definition setState :: "cargo_cfg \<Rightarrow> string \<Rightarrow> (cargo_state, unit) prog" where
  "setState c newState =
     Now (\<lambda>now. Atom (\<lambda>s. s\<lparr>door := newState, lastChangeTs := seconds now\<rparr>) (\<lambda>s.
       if door s \<noteq> newState then logStateChange c (door s) newState else Ret ()))"

definition replyDoor :: "(cargo_state, hres) prog" where
  "replyDoor = readState (\<lambda>s. reply [(''ok'', GBool True), (''state'', GStr (door s))])"

definition handleOpen :: "cargo_cfg \<Rightarrow> cargo_state handler" where
  "handleOpen c m =
     (if \<not> IsTrustedSender m ''security_monitor'' then noReply
      else andThen (setState c StateOpen) replyDoor)"

definition handleClose :: "cargo_cfg \<Rightarrow> cargo_state handler" where
  "handleClose c m =
     (if \<not> IsTrustedSender m ''security_monitor'' then noReply
      else andThen (setState c StateClosed) replyDoor)"

definition handleGetState_cargo :: "cargo_state handler" where
  "handleGetState_cargo _ = readState (\<lambda>s.
     reply [(''state'', GStr (door s)), (''last_change_ts'', GFloat (lastChangeTs s))])"

definition cargo_registerHandlers :: "cargo_cfg \<Rightarrow> (string \<times> cargo_state handler) list" where
  "cargo_registerHandlers c =
     [(''OPEN'', handleOpen c), (''CLOSE'', handleClose c), (''get_state'', handleGetState_cargo)]"

definition cargo_dispatch :: "cargo_cfg \<Rightarrow> gmap \<Rightarrow> (cargo_state, unit) prog" where
  "cargo_dispatch c = handleMessage (cargoBase c) (registered (cargoBase c) (cargo_registerHandlers c))"

section \<open>Contract\<close>

definition cargo_inv :: "cargo_state \<Rightarrow> bool" where
  "cargo_inv s \<longleftrightarrow> door s = StateClosed \<or> door s = StateOpen"

text \<open>The journal entry of a change, as it leaves for the monitor.\<close>

definition door_entry :: "cargo_cfg \<Rightarrow> string \<Rightarrow> string \<Rightarrow> string \<times> gmap" where
  "door_entry c old new =
     (let a = cargoAudit c; p = alProxy a in
      (pxMonitor p, proxy_msg p ''proxy_publish'' (alJournal a) ''LOG_EVENT''
         [(''event'', GStr ''CARGO_STATE_CHANGED''), (''source'', GStr (alSource a)),
          (''details'', GMap [(''old_state'', GStr old), (''new_state'', GStr new)])]))"

definition cargo_out :: "cargo_cfg \<Rightarrow> string \<Rightarrow> gmap \<Rightarrow> bool" where
  "cargo_out c t m \<longleftrightarrow> get_str m ''action'' = ''response'' \<or>
     (t, m) \<in> {door_entry c StateClosed StateOpen, door_entry c StateOpen StateClosed}"

lemma states_distinct [simp]: "StateClosed \<noteq> StateOpen" "StateOpen \<noteq> StateClosed"
  by (simp_all add: StateClosed_def StateOpen_def)

lemma cargo_sat: "sat cargo_inv (\<lambda>_ _. True) (cargo_out c) anyResult (cargo_dispatch c m)"
  unfolding cargo_dispatch_def
  by (rule sat_registered)
     (auto simp: cargo_registerHandlers_def handleOpen_def handleClose_def handleGetState_cargo_def
       setState_def replyDoor_def logStateChange_def cargo_inv_def cargo_out_def door_entry_def Let_def
       intro!: sat_andThen)

interpretation cargo: goroutines "range (cargo_dispatch (fst (New_cargo h cfg now)))"
    "snd (New_cargo h cfg now)" cargo_inv "\<lambda>_ _. True" "cargo_out (fst (New_cargo h cfg now))" for h cfg now
  by unfold_locales (auto simp: cargo_sat, simp add: New_cargo_def cargo_inv_def)

interpretation cargo_cmds: commanded_component "cargoBase c" "cargo_registerHandlers c"
    "{''OPEN'', ''CLOSE''}" "{''security_monitor''}" for c
  by unfold_locales (auto simp: cargo_registerHandlers_def handleOpen_def handleClose_def handleGetState_cargo_def replyDoor_def)

lemma run_setState:
  "fst (snd (run E (setState c st) s tr)) = s\<lparr>door := st, lastChangeTs := seconds (on_now E tr)\<rparr>"
  "sent (snd (snd (run E (setState c st) s tr))) =
     sent tr @ (if door s \<noteq> st then [door_entry c (door s) st] else [])"
  by (simp_all add: setState_def logStateChange_def logToJournal_def LogEvent_def ProxyPublishAsync_def
      door_entry_def Let_def)

section \<open>Properties\<close>

text \<open>The door command: OPEN (CLOSE) from the security monitor leaves the door OPEN (CLOSED)
  whatever it was, answers with that state, and sends one journal entry naming the old and the new
  state exactly when the door moved; from anyone else it does nothing.\<close>

theorem cargo_door:
  assumes "h \<in> {(handleOpen c, StateOpen), (handleClose c, StateClosed)}"
  shows "(if get_str m ''sender'' = ''security_monitor''
     then door (final E (fst h m) s) = snd h \<and>
          result E (fst h m) s = Inr (Some [(''ok'', GBool True), (''state'', GStr (snd h))]) \<and>
          outputs E (fst h m) s = (if door s \<noteq> snd h then [door_entry c (door s) (snd h)] else [])
     else run E (fst h m) s [] = (Inr None, s, []))"
proof -
  have "let p = andThen (setState c st) replyDoor in door (final E p s) = st \<and>
      result E p s = Inr (Some [(''ok'', GBool True), (''state'', GStr st)]) \<and>
      outputs E p s = (if door s \<noteq> st then [door_entry c (door s) st] else [])" for st
    using run_setState [of E c st s "[]"]
    by (auto simp: Let_def run_views replyDoor_def split: prod.splits)
  then show ?thesis using assms by (auto simp: Let_def handleOpen_def handleClose_def IsTrustedSender_iff)
qed

definition demo_cargo :: "cargo_cfg \<times> cargo_state" where
  "demo_cargo = New_cargo demo_host (FromEnv demo_host) 7"

theorem cargo_door_witness:
  "door (final demo_env (handleOpen (fst demo_cargo) [(''sender'', GStr ''security_monitor'')]) (snd demo_cargo)) =
     StateOpen"
  using cargo_door [of "(handleOpen (fst demo_cargo), StateOpen)" "fst demo_cargo"
      "[(''sender'', GStr ''security_monitor'')]" demo_env "snd demo_cargo"]
  by (simp add: get_str_def)

end
