(* ===== verification/Drone_System.thy ===== *)
theory Drone_System
  imports Monitor_Gate Motors Cargo
begin

text \<open>
  The composition. The security monitor, the motors and the cargo bay run as processes on one broker, each with
  any number of goroutines in flight, interleaved at every effect; everything else on the broker is the world,
  which may send any messages to any topics, but not under the monitor's name. (The other components keep
  this rule; the theory \<open>Full_System\<close> puts each of them in the place of the world.)

  The broker is a set of messages: it may reorder, delay and duplicate. A message arrives as
  its JSON image; a request carries a correlation id and a reply topic chosen by the bus. The
  answer of a request is any value. \<open>visited\<close> is a history variable: the states the monitor has been in.
\<close>

section \<open>Processes\<close>

type_synonym 's proc = "'s \<times> ('s, unit) prog list"

inductive proc_step :: "('s, unit) prog set \<Rightarrow> 's proc \<Rightarrow> event list \<Rightarrow> 's proc \<Rightarrow> bool"
  for H :: "('s, unit) prog set" where
  arrive: "p \<in> H \<Longrightarrow> proc_step H (s, ps) [] (s, p # ps)"
| advance: "i < length ps \<Longrightarrow> pstep s (ps ! i) l s' p' \<Longrightarrow> proc_step H (s, ps) l (s', ps[i := p'])"

inductive_cases proc_stepE: "proc_step H x l y"

text \<open>What one effect puts on the broker.\<close>

fun on_wire :: "event \<Rightarrow> (string \<times> gmap) set" where
  "on_wire (Published t m e) = {(t, m') |m'. wire_map m = Some m'}"
| "on_wire (Requested t m r) = {(t, m') |m' cid rt.
     wire_map (put ''reply_to'' (GStr rt) (put ''correlation_id'' (GStr cid) m)) = Some m'}"
| "on_wire (Clock n) = {}"

section \<open>The system\<close>

record sys_cfg =
  cfgMonitor :: sm_cfg
  cfgMotors :: motors_cfg
  cfgCargo :: cargo_cfg
  cfgLibm :: libm

record sys =
  sysMonitor :: "sm_state proc"
  sysMotors :: "motors_state proc"
  sysCargo :: "cargo_state proc"
  flight :: "(string \<times> gmap) set"
  visited :: "sm_state set"

definition monitorTopic :: "sys_cfg \<Rightarrow> string" where "monitorTopic c = bcTopic (smBase (cfgMonitor c))"
definition motorsTopic :: "sys_cfg \<Rightarrow> string" where "motorsTopic c = bcTopic (motBase (cfgMotors c))"
definition cargoTopic :: "sys_cfg \<Rightarrow> string" where "cargoTopic c = bcTopic (cargoBase (cfgCargo c))"

definition inbox :: "sys \<Rightarrow> string \<Rightarrow> gmap set" where
  "inbox d t = {m. (t, m) \<in> flight d}"

definition emit :: "event list \<Rightarrow> sys \<Rightarrow> sys" where
  "emit l d = d\<lparr>flight := flight d \<union> \<Union> (on_wire ` set l)\<rparr>"

inductive sys_step :: "sys_cfg \<Rightarrow> sys \<Rightarrow> sys \<Rightarrow> bool" for c :: sys_cfg where
  monitor: "proc_step (sm_dispatch (cfgMonitor c) ` inbox d (monitorTopic c) \<union> {checkHeartbeatTimeout (cfgMonitor c)})
      (sysMonitor d) l p' \<Longrightarrow>
    sys_step c d (emit l (d\<lparr>sysMonitor := p', visited := insert (fst p') (visited d)\<rparr>))"
| motors: "proc_step (motors_dispatch (cfgLibm c) (cfgMotors c) ` inbox d (motorsTopic c)) (sysMotors d) l p' \<Longrightarrow>
    sys_step c d (emit l (d\<lparr>sysMotors := p'\<rparr>))"
| cargo: "proc_step (cargo_dispatch (cfgCargo c) ` inbox d (cargoTopic c)) (sysCargo d) l p' \<Longrightarrow>
    sys_step c d (emit l (d\<lparr>sysCargo := p'\<rparr>))"
| world: "(\<And>t m. (t, m) \<in> M \<Longrightarrow> get_str m ''sender'' \<noteq> ''security_monitor'') \<Longrightarrow>
    sys_step c d (d\<lparr>flight := flight d \<union> M\<rparr>)"

inductive_cases sys_stepE: "sys_step c d d'"

definition sys_start :: "sm_state \<Rightarrow> motors_state \<Rightarrow> cargo_state \<Rightarrow> sys" where
  "sys_start sm mot car =
     \<lparr>sysMonitor = (sm, []), sysMotors = (mot, []), sysCargo = (car, []), flight = {}, visited = {sm}\<rparr>"

text \<open>A deployment: the three components as \<^verbatim>\<open>New\<close> creates them, under the ids of the compose file.\<close>

definition deployment :: "sys_cfg \<Rightarrow> sys \<Rightarrow> bool" where
  "deployment c d0 \<longleftrightarrow> (\<exists>h json cfg now h2 cfg2 h3 cfg3 now3 sm mot car.
     (cfgMonitor c, sm) = New_sm h json cfg now \<and> (cfgMotors c, mot) = New_motors h2 cfg2 \<and>
     (cfgCargo c, car) = New_cargo h3 cfg3 now3 \<and> ComponentID cfg2 = ''motors'' \<and> ComponentID cfg3 = ''cargo'' \<and>
     d0 = sys_start sm mot car)"

section \<open>What the monitor vouches for\<close>

text \<open>Messages the monitor sends on its own account: replies and the journal entry of a mode change.\<close>

definition housekeeping :: "sm_cfg \<Rightarrow> string \<Rightarrow> gmap \<Rightarrow> bool" where
  "housekeeping c t m \<longleftrightarrow> get_str m ''action'' = ''response'' \<or>
     (t = smJournalTopic c \<and> get_str m ''action'' = ''LOG_EVENT'')"

definition granted :: "sm_cfg \<Rightarrow> gmap set \<Rightarrow> sm_state set \<Rightarrow> string \<Rightarrow> gmap \<Rightarrow> bool" where
  "granted c inb V t m \<longleftrightarrow> housekeeping c t m \<or>
     (\<exists>m0 \<in> inb. \<exists>s \<in> V. gate_allows c (gate_of s) (key (proxy_sender m0) t (get_str m ''action'')))"

abbreviation vouched :: "sm_cfg \<Rightarrow> gmap set \<Rightarrow> sm_state set \<Rightarrow> (sm_state, 'a) prog \<Rightarrow> bool" where
  "vouched c inb \<equiv> hsat (sm_inv c) (granted c inb)"

lemma granted_mono: "V \<subseteq> W \<Longrightarrow> inb \<subseteq> inb' \<Longrightarrow> granted c inb V t m \<Longrightarrow> granted c inb' W t m"
  by (auto simp: granted_def)

lemma vouched_mono: "vouched c inb V p \<Longrightarrow> V \<subseteq> W \<Longrightarrow> inb \<subseteq> inb' \<Longrightarrow> vouched c inb' W p"
  by (erule hsat_mono) (auto intro: granted_mono)

lemma housekeeping_response [simp]: "housekeeping c t (CreateResponse n i p who ok e)"
  by (simp add: housekeeping_def)

abbreviation quiet :: "sm_cfg \<Rightarrow> (sm_state, 'a) prog \<Rightarrow> bool" where
  "quiet c p \<equiv> sat (sm_inv c) sm_guar (housekeeping c) anyResult p"

lemma quiet_vouched: "quiet c p \<Longrightarrow> vouched c inb V p"
  by (erule sat_hsat) (simp add: granted_def)

lemma quiet_basics [simp]: "quiet c (logModeTransitionLocked c st)" "quiet c (recordSenderSeen x)"
  by (simp_all add: logModeTransitionLocked_def housekeeping_def recordSenderSeen_def Let_def sm_steps get_str_def)

lemma quiet_handlers:
  "quiet c (handleSetPolicy c m)" "quiet c (handleRemovePolicy c m)" "quiet c (handleClearPolicies c m)"
  "quiet c (handleListPolicies c m)" "quiet c (handleIsolationStart c m)" "quiet c (handleIsolationEnd c m)"
  "quiet c (handleIsolationStatus m)" "quiet c (handleSafetyHeartbeat m)"
  by (auto simp: handleSetPolicy_def handleRemovePolicy_def handleClearPolicies_def handleListPolicies_def
      handleIsolationStart_def handleIsolationEnd_def handleIsolationStatus_def handleSafetyHeartbeat_def Let_def sm_steps
      split: option.splits prod.splits intro!: sat_andThen)

lemma quiet_watchdog: "quiet c (checkHeartbeatTimeout c)"
  by (simp add: checkHeartbeatTimeout_def sm_steps split: prod.splits)

text \<open>The proxy looks at the policies and then sends: what it sends was allowed in the state it looked at.\<close>

lemma vouched_proxy:
  assumes "m \<in> inb"
  shows "vouched c inb V (handleProxyPublish c m)" "vouched c inb V (handleProxyRequest c m)"
proof -
  have g: "granted c inb (insert s W) t (forward_msg c a d)" if "sm_inv c s" "allowed s (proxy_sender m) t a" for s W t a d
    using that assms allowed_gate [OF that(1), of "proxy_sender m" t a]
    by (auto simp: granted_def forward_msg_def get_str_def)
  show "vouched c inb V (handleProxyPublish c m)"
    unfolding handleProxyPublish_def Let_def andThen_def
    by (rule hsat_bind, rule quiet_vouched) (auto simp: readState_def g reply_def split: option.splits prod.splits)
  show "vouched c inb V (handleProxyRequest c m)"
    unfolding handleProxyRequest_def Let_def andThen_def
    by (rule hsat_bind, rule quiet_vouched) (auto simp: readState_def g reply_def split: option.splits prod.splits sum.splits)
qed

lemma vouched_handleMessage:
  assumes "\<And>h. map_of hs (get_str m ''action'') = Some h \<Longrightarrow> vouched c inb V (h m)"
  shows "vouched c inb V (handleMessage (smBase c) hs m)"
proof (cases "map_of hs (get_str m ''action'')")
  case None
  have "quiet c (handleMessage (smBase c) hs m)"
    using None by (auto simp: handleMessage_def Let_def intro!: sat_bind_any sat_Respond)
  then show ?thesis by (rule quiet_vouched)
next
  case (Some h)
  have q: "quiet c (if get_str m ''reply_to'' = [] then Ret ()
      else case r of Inl err \<Rightarrow> bind (Respond m [] (bcID (smBase c)) False err) (\<lambda>_. Ret ())
        | Inr None \<Rightarrow> Ret ()
        | Inr (Some payload) \<Rightarrow> Now (\<lambda>now. Pub (get_str m ''reply_to'')
            (CreateResponse now (get_str m ''correlation_id'') payload (bcID (smBase c)) True []) (\<lambda>_. Ret ())))" for r
    by (auto split: sum.splits option.splits intro!: sat_bind_any sat_Respond)
  show ?thesis
    using Some assms [OF Some] by (auto simp: handleMessage_def Let_def intro!: hsat_bind quiet_vouched [OF q])
qed

lemma vouched_dispatch:
  assumes "m \<in> inb"
  shows "vouched c inb V (sm_dispatch c m)"
  unfolding sm_dispatch_def
proof (rule vouched_handleMessage)
  fix h assume "map_of (registered (smBase c) (sm_registerHandlers c)) (get_str m ''action'') = Some h"
  then have "(get_str m ''action'', h) \<in> set (registered (smBase c) (sm_registerHandlers c))" by (rule map_of_SomeD)
  then show "vouched c inb V (h m)"
    by (cases rule: registered_cases)
       (auto simp: sm_registerHandlers_def vouched_proxy [OF assms] quiet_vouched quiet_handlers
         handlePing_def handleGetStatus_def)
qed

section \<open>The invariant of the system\<close>

text \<open>A command the monitor has passed on for a client that was allowed to give it.\<close>

definition authorised :: "sys_cfg \<Rightarrow> sys \<Rightarrow> string \<Rightarrow> string \<Rightarrow> bool" where
  "authorised c d t a \<longleftrightarrow> (\<exists>m0 s. (monitorTopic c, m0) \<in> flight d \<and> s \<in> visited d \<and>
     gate_allows (cfgMonitor c) (gate_of s) (key (proxy_sender m0) t a))"

definition genuine :: "sys_cfg \<Rightarrow> sys \<Rightarrow> string \<times> gmap \<Rightarrow> bool" where
  "genuine c d = (\<lambda>(t, m). get_str m ''sender'' = ''security_monitor'' \<longrightarrow>
     get_str m ''action'' \<in> {''response'', ''LOG_EVENT''} \<or> authorised c d t (get_str m ''action''))"

text \<open>Nothing but the monitor sends in the monitor's name.\<close>

abbreviation modest :: "('s, 'a) prog \<Rightarrow> bool" where
  "modest p \<equiv> sends (\<lambda>t m. get_str m ''sender'' \<noteq> ''security_monitor'') p"

text \<open>A goroutine of an actuator leaves the state alone, or it serves a command of the monitor.\<close>

definition driven :: "sys \<Rightarrow> string \<Rightarrow> string set \<Rightarrow> ('s, unit) prog \<Rightarrow> bool" where
  "driven d t cmds p \<longleftrightarrow> keeps (\<lambda>s. s) p \<or>
     (\<exists>m. (t, m) \<in> flight d \<and> get_str m ''sender'' = ''security_monitor'' \<and> get_str m ''action'' \<in> cmds)"

definition sys_inv :: "sys_cfg \<Rightarrow> sys \<Rightarrow> bool" where
  "sys_inv c d \<longleftrightarrow>
     fst (sysMonitor d) \<in> visited d \<and> (\<forall>s \<in> visited d. sm_inv (cfgMonitor c) s) \<and>
     (\<forall>p \<in> set (snd (sysMonitor d)). sm_sat (cfgMonitor c) p \<and>
        vouched (cfgMonitor c) (inbox d (monitorTopic c)) (visited d) p) \<and>
     (\<forall>p \<in> set (snd (sysMotors d)). modest p \<and> driven d (motorsTopic c) {''SET_TARGET'', ''LAND''} p) \<and>
     (\<forall>p \<in> set (snd (sysCargo d)). modest p \<and> driven d (cargoTopic c) {''OPEN'', ''CLOSE''} p) \<and>
     (\<forall>x \<in> flight d. genuine c d x)"

lemma get_str_put [simp]: "get_str (put k v m) x = (if x = k then (case v of GStr s \<Rightarrow> s | _ \<Rightarrow> []) else get_str m x)"
  by (simp add: get_str_def)

lemma on_wire_text:
  assumes "(t, m') \<in> on_wire e"
  obtains m where "(t, m) \<in> set (sent [e])"
    "get_str m' ''sender'' = get_str m ''sender''" "get_str m' ''action'' = get_str m ''action''"
  using assms by (cases e) (auto simp: get_str_wire [of _ m'])

lemma sent_single: "e \<in> set l \<Longrightarrow> set (sent [e]) \<subseteq> set (sent l)"
  by (induction l rule: sent.induct) auto

lemma proc_step_goroutines:
  assumes "proc_step H (s, ps) l (s', ps')"
    and "\<And>p. p \<in> H \<Longrightarrow> P p" and "\<And>p. p \<in> set ps \<Longrightarrow> P p"
    and "\<And>p s' l p'. P p \<Longrightarrow> pstep s p l s' p' \<Longrightarrow> P p' \<and> (\<forall>(t, m) \<in> set (sent l). Q t m) \<and> R s'"
    and "R s"
  shows "(\<forall>p \<in> set ps'. P p) \<and> (\<forall>(t, m) \<in> set (sent l). Q t m) \<and> R s'"
  using assms(1)
proof (cases rule: proc_step.cases)
  case (arrive p)
  then show ?thesis using assms(2,3,5) by auto
next
  case (advance i p')
  then have "P (ps ! i)" using assms(3) by simp
  from assms(4) [OF this advance(3)] advance assms(3) show ?thesis
    by (auto dest: set_update_subset_insert [THEN subsetD])
qed

lemma flight_emit [simp]: "flight (emit l d) = flight d \<union> \<Union> (on_wire ` set l)"
  by (simp add: emit_def)

lemma emit_sel [simp]: "sysMonitor (emit l d) = sysMonitor d" "sysMotors (emit l d) = sysMotors d"
  "sysCargo (emit l d) = sysCargo d" "visited (emit l d) = visited d"
  by (simp_all add: emit_def)

lemma authorised_mono:
  "authorised c d t a \<Longrightarrow> flight d \<subseteq> flight d' \<Longrightarrow> visited d \<subseteq> visited d' \<Longrightarrow> authorised c d' t a"
  by (auto simp: authorised_def)

lemma genuine_mono: "genuine c d x \<Longrightarrow> flight d \<subseteq> flight d' \<Longrightarrow> visited d \<subseteq> visited d' \<Longrightarrow> genuine c d' x"
  by (auto simp: genuine_def intro: authorised_mono)

lemma driven_mono: "driven d t cmds p \<Longrightarrow> flight d \<subseteq> flight d' \<Longrightarrow> driven d' t cmds p"
  by (auto simp: driven_def)

lemma driven_pstep: "driven d t cmds p \<Longrightarrow> pstep s p l s' p' \<Longrightarrow> driven d t cmds p' \<and>
   (s' \<noteq> s \<longrightarrow> (\<exists>m. (t, m) \<in> flight d \<and> get_str m ''sender'' = ''security_monitor'' \<and> get_str m ''action'' \<in> cmds))"
  using sat_pstep [of s p l s' p' "\<lambda>_. True" "\<lambda>s s'. s' = s" anyMessage anyResult]
  by (auto simp: driven_def)

lemma motors_modest: "bcID (motBase c) \<noteq> ''security_monitor'' \<Longrightarrow> modest (motors_dispatch L c m)"
  unfolding motors_dispatch_def
  by (rule sat_registered)
     (auto simp: motors_registerHandlers_def handleSetTarget_def handleLand_def handleGetState_motors_def emitSITL_def
       landSITLCommand_def targetToSITLCommand_def sitl_cmd_def get_str_def CreateResponse_def Let_def
       split: option.splits sum.splits)

lemma cargo_modest:
  "bcID (cargoBase c) \<noteq> ''security_monitor'' \<Longrightarrow> pxSender (alProxy (cargoAudit c)) \<noteq> ''security_monitor'' \<Longrightarrow>
     modest (cargo_dispatch c m)"
  unfolding cargo_dispatch_def
  by (rule sat_registered)
     (auto simp: cargo_registerHandlers_def handleOpen_def handleClose_def handleGetState_cargo_def setState_def
       replyDoor_def logStateChange_def proxy_msg_def get_str_def CreateResponse_def intro!: sat_andThen)

text \<open>One step of an actuator process: its goroutines stay well-behaved, what it puts on the broker is not in
  the monitor's name, and its state moves only when a command of the monitor is there.\<close>

lemma actuator_step:
  fixes x :: "'s proc"
  assumes "proc_step (f ` inbox d t) x l x'"
    and "\<And>m. modest (f m)" and "\<And>m. get_str m ''action'' \<notin> cmds \<or> get_str m ''sender'' \<noteq> ''security_monitor'' \<Longrightarrow> keeps (\<lambda>s. s) (f m)"
    and "\<forall>p \<in> set (snd x). modest p \<and> driven d t cmds p"
  shows "(\<forall>p \<in> set (snd x'). modest p \<and> driven d t cmds p) \<and>
    (\<forall>(t, m) \<in> set (sent l). get_str m ''sender'' \<noteq> ''security_monitor'') \<and>
    (fst x' = fst x \<or> (\<exists>m. (t, m) \<in> flight d \<and> get_str m ''sender'' = ''security_monitor'' \<and> get_str m ''action'' \<in> cmds))"
proof -
  obtain s ps s' ps' where x: "x = (s, ps)" "x' = (s', ps')" by (cases x, cases x')
  let ?R = "\<lambda>s'. s' = s \<or> (\<exists>m. (t, m) \<in> flight d \<and> get_str m ''sender'' = ''security_monitor'' \<and> get_str m ''action'' \<in> cmds)"
  have "(\<forall>p \<in> set ps'. modest p \<and> driven d t cmds p) \<and>
    (\<forall>(t, m) \<in> set (sent l). get_str m ''sender'' \<noteq> ''security_monitor'') \<and> ?R s'"
  proof (rule proc_step_goroutines [OF assms(1) [unfolded x]])
    fix p assume "p \<in> f ` inbox d t"
    then obtain m where "p = f m" "(t, m) \<in> flight d" by (auto simp: inbox_def)
    then show "modest p \<and> driven d t cmds p"
      using assms(2,3) by (auto simp: driven_def)
  next
    fix p assume "p \<in> set ps"
    then show "modest p \<and> driven d t cmds p" using assms(4) x by simp
  next
    fix p s' l p' assume "modest p \<and> driven d t cmds p" "pstep s p l s' p'"
    then show "(modest p' \<and> driven d t cmds p') \<and> (\<forall>(t, m) \<in> set (sent l). get_str m ''sender'' \<noteq> ''security_monitor'') \<and> ?R s'"
      using sat_pstep [of s p l s' p' "\<lambda>_. True" "\<lambda>_ _. True"] driven_pstep [of d t cmds p s l s' p'] by blast
  qed simp
  then show ?thesis by (simp add: x)
qed

lemma monitor_step:
  assumes "proc_step (sm_dispatch c ` inb \<union> {checkHeartbeatTimeout c}) x l x'"
    and "fst x \<in> V" and "\<forall>s \<in> V. sm_inv c s"
    and "\<forall>p \<in> set (snd x). sm_sat c p \<and> vouched c inb V p"
  shows "(\<forall>p \<in> set (snd x'). sm_sat c p \<and> vouched c inb V p) \<and> (\<forall>(t, m) \<in> set (sent l). granted c inb V t m) \<and>
    sm_inv c (fst x')"
proof -
  obtain s ps s' ps' where x: "x = (s, ps)" "x' = (s', ps')" by (cases x, cases x')
  have s: "s \<in> V" "sm_inv c s" using assms(2,3) x by auto
  have "(\<forall>p \<in> set ps'. sm_sat c p \<and> vouched c inb V p) \<and> (\<forall>(t, m) \<in> set (sent l). granted c inb V t m) \<and> sm_inv c s'"
  proof (rule proc_step_goroutines [OF assms(1) [unfolded x]])
    fix p assume "p \<in> sm_dispatch c ` inb \<union> {checkHeartbeatTimeout c}"
    then show "sm_sat c p \<and> vouched c inb V p"
      by (auto simp: sm_dispatch_def [symmetric] vouched_dispatch sm_sat_watchdog quiet_vouched quiet_watchdog
          sm_sat_dispatch [folded sm_dispatch_def])
  next
    fix p s' l p' assume "sm_sat c p \<and> vouched c inb V p" "pstep s p l s' p'"
    then show "(sm_sat c p' \<and> vouched c inb V p') \<and> (\<forall>(t, m) \<in> set (sent l). granted c inb V t m) \<and> sm_inv c s'"
      using sat_pstep [of s p l s' p' "sm_inv c"] hsat_pstep [of s p l s' p' "sm_inv c" "granted c inb" V] s by blast
  qed (use assms(4) x s in auto)
  then show ?thesis by (simp add: x)
qed

definition actuators_modest :: "sys_cfg \<Rightarrow> bool" where
  "actuators_modest c \<longleftrightarrow> bcID (motBase (cfgMotors c)) \<noteq> ''security_monitor'' \<and>
     bcID (cargoBase (cfgCargo c)) \<noteq> ''security_monitor'' \<and> pxSender (alProxy (cargoAudit (cfgCargo c))) \<noteq> ''security_monitor''"

text \<open>The two actuator steps, with the facts about this system filled in.\<close>

lemma motors_step:
  assumes "actuators_modest c" "sys_inv c d"
    and "proc_step (motors_dispatch (cfgLibm c) (cfgMotors c) ` inbox d (motorsTopic c)) (sysMotors d) l x'"
  shows "(\<forall>p \<in> set (snd x'). modest p \<and> driven d (motorsTopic c) {''SET_TARGET'', ''LAND''} p) \<and>
    (\<forall>(t, m) \<in> set (sent l). get_str m ''sender'' \<noteq> ''security_monitor'') \<and>
    (fst x' = fst (sysMotors d) \<or> (\<exists>m. (motorsTopic c, m) \<in> flight d \<and> get_str m ''sender'' = ''security_monitor'' \<and>
       get_str m ''action'' \<in> {''SET_TARGET'', ''LAND''}))"
  by (rule actuator_step [OF assms(3)])
     (use assms(1,2) in \<open>auto simp: actuators_modest_def sys_inv_def motors_modest
        intro!: motors_cmds.dispatch_inert [folded motors_dispatch_def]\<close>)

lemma cargo_step:
  assumes "actuators_modest c" "sys_inv c d"
    and "proc_step (cargo_dispatch (cfgCargo c) ` inbox d (cargoTopic c)) (sysCargo d) l x'"
  shows "(\<forall>p \<in> set (snd x'). modest p \<and> driven d (cargoTopic c) {''OPEN'', ''CLOSE''} p) \<and>
    (\<forall>(t, m) \<in> set (sent l). get_str m ''sender'' \<noteq> ''security_monitor'') \<and>
    (fst x' = fst (sysCargo d) \<or> (\<exists>m. (cargoTopic c, m) \<in> flight d \<and> get_str m ''sender'' = ''security_monitor'' \<and>
       get_str m ''action'' \<in> {''OPEN'', ''CLOSE''}))"
  by (rule actuator_step [OF assms(3)])
     (use assms(1,2) in \<open>auto simp: actuators_modest_def sys_inv_def cargo_modest
        intro!: cargo_cmds.dispatch_inert [folded cargo_dispatch_def]\<close>)

lemma genuine_foreign:
  assumes "\<forall>(t, m) \<in> set (sent l). get_str m ''sender'' \<noteq> ''security_monitor''" "x \<in> on_wire e" "e \<in> set l"
  shows "genuine c d x"
proof -
  obtain t m' where x: "x = (t, m')" by (cases x)
  obtain m where "(t, m) \<in> set (sent [e])" "get_str m' ''sender'' = get_str m ''sender''"
    using assms(2) x by (metis on_wire_text)
  then have "get_str m' ''sender'' \<noteq> ''security_monitor''" using assms(1,3) sent_single [of e l] by auto
  then show ?thesis by (simp add: genuine_def x)
qed

lemma genuine_granted:
  assumes "\<forall>(t, m) \<in> set (sent l). granted (cfgMonitor c) (inbox d (monitorTopic c)) (visited d) t m" "x \<in> on_wire e" "e \<in> set l"
  shows "genuine c d x"
proof -
  obtain t m' where x: "x = (t, m')" by (cases x)
  obtain m where m: "(t, m) \<in> set (sent [e])" "get_str m' ''action'' = get_str m ''action''"
    using assms(2) x by (metis on_wire_text)
  then have "granted (cfgMonitor c) (inbox d (monitorTopic c)) (visited d) t m" using assms(1,3) sent_single [of e l] by auto
  then show ?thesis
    using m(2) by (auto simp: genuine_def x granted_def housekeeping_def authorised_def inbox_def)
qed

text \<open>The broker and the history only grow, so a step need only account for what it adds.\<close>

lemma sys_inv_extend:
  assumes sub: "flight d \<subseteq> flight d'" "visited d \<subseteq> visited d'"
    and msgs: "\<And>x. x \<in> flight d' \<Longrightarrow> genuine c d x"
    and seen: "fst (sysMonitor d') \<in> visited d'" "\<forall>s \<in> visited d'. sm_inv (cfgMonitor c) s"
    and mon: "\<forall>p \<in> set (snd (sysMonitor d')). sm_sat (cfgMonitor c) p \<and>
        vouched (cfgMonitor c) (inbox d (monitorTopic c)) (visited d) p"
    and mot: "\<forall>p \<in> set (snd (sysMotors d')). modest p \<and> driven d (motorsTopic c) {''SET_TARGET'', ''LAND''} p"
    and car: "\<forall>p \<in> set (snd (sysCargo d')). modest p \<and> driven d (cargoTopic c) {''OPEN'', ''CLOSE''} p"
  shows "sys_inv c d'"
proof -
  have "inbox d (monitorTopic c) \<subseteq> inbox d' (monitorTopic c)" using sub(1) by (auto simp: inbox_def)
  then have "vouched (cfgMonitor c) (inbox d' (monitorTopic c)) (visited d') p" if "p \<in> set (snd (sysMonitor d'))" for p
    using mon that sub(2) by (meson vouched_mono)
  moreover have "driven d' (motorsTopic c) {''SET_TARGET'', ''LAND''} p" if "p \<in> set (snd (sysMotors d'))" for p
    using mot that driven_mono [OF _ sub(1)] by blast
  moreover have "driven d' (cargoTopic c) {''OPEN'', ''CLOSE''} p" if "p \<in> set (snd (sysCargo d'))" for p
    using car that driven_mono [OF _ sub(1)] by blast
  ultimately show ?thesis
    using seen mon mot car genuine_mono [OF msgs sub] by (simp add: sys_inv_def)
qed

lemma sys_inv_step:
  assumes "sys_step c d d'" "sys_inv c d" "actuators_modest c"
  shows "sys_inv c d'"
proof -
  have old: "fst (sysMonitor d) \<in> visited d" "\<forall>s \<in> visited d. sm_inv (cfgMonitor c) s"
    "\<forall>p \<in> set (snd (sysMonitor d)). sm_sat (cfgMonitor c) p \<and>
        vouched (cfgMonitor c) (inbox d (monitorTopic c)) (visited d) p"
    "\<forall>p \<in> set (snd (sysMotors d)). modest p \<and> driven d (motorsTopic c) {''SET_TARGET'', ''LAND''} p"
    "\<forall>p \<in> set (snd (sysCargo d)). modest p \<and> driven d (cargoTopic c) {''OPEN'', ''CLOSE''} p"
    "\<And>x. x \<in> flight d \<Longrightarrow> genuine c d x"
    using assms(2) by (simp_all add: sys_inv_def)
  show ?thesis
    using assms(1)
  proof (cases rule: sys_step.cases)
    case (monitor l p')
    note st = monitor_step [OF monitor(2) old(1-3)]
    show ?thesis
    proof (rule sys_inv_extend [of d])
      show "genuine c d x" if "x \<in> flight d'" for x
        using that monitor(1) old(6) [of x] genuine_granted [of l c d x] st by (cases x) auto
    qed (use monitor(1) old st in auto)
  next
    case (motors l p')
    note st = motors_step [OF assms(3,2) motors(2)]
    show ?thesis
    proof (rule sys_inv_extend [of d])
      show "genuine c d x" if "x \<in> flight d'" for x
        using that motors(1) old(6) [of x] genuine_foreign [of l x] st by (cases x) auto
    qed (use motors(1) old st in auto)
  next
    case (cargo l p')
    note st = cargo_step [OF assms(3,2) cargo(2)]
    show ?thesis
    proof (rule sys_inv_extend [of d])
      show "genuine c d x" if "x \<in> flight d'" for x
        using that cargo(1) old(6) [of x] genuine_foreign [of l x] st by (cases x) auto
    qed (use cargo(1) old st in auto)
  next
    case (world M)
    show ?thesis
    proof (rule sys_inv_extend [of d])
      show "genuine c d x" if "x \<in> flight d'" for x
        using that world(1) world(2) [of "fst x" "snd x"] old(6) [of x] by (cases x) (auto simp: genuine_def)
    qed (use world(1) old in auto)
  qed
qed

lemma deployment_start:
  assumes "deployment c d0"
  shows "sys_inv c d0 \<and> actuators_modest c"
proof -
  obtain h json cfg now h2 cfg2 h3 cfg3 now3 sm mot car where
    n: "(cfgMonitor c, sm) = New_sm h json cfg now" "(cfgMotors c, mot) = New_motors h2 cfg2"
      "(cfgCargo c, car) = New_cargo h3 cfg3 now3" "ComponentID cfg2 = ''motors''" "ComponentID cfg3 = ''cargo''"
    and d0: "d0 = sys_start sm mot car" using assms by (auto simp: deployment_def)
  have "sm_inv (cfgMonitor c) sm" using New_sm_inv [of h json cfg now] n(1) by (metis fst_conv snd_conv)
  moreover have "actuators_modest c"
    using n(2-5) by (simp add: actuators_modest_def New_motors_def New_cargo_def newBase_def Let_def)
  ultimately show ?thesis by (simp add: sys_inv_def d0 sys_start_def)
qed

lemma system_inv:
  assumes "deployment c d0" "(sys_step c)\<^sup>*\<^sup>* d0 d"
  shows "sys_inv c d"
  using assms(2) by (induction rule: rtranclp_induct) (use deployment_start [OF assms(1)] sys_inv_step in blast)+

end
