(* ===== verification/Emergency.thy ===== *)
theory Emergency
  imports Component_Base
begin

text \<open>
  Package \<^verbatim>\<open>emergency\<close> (\<^verbatim>\<open>emergency/src\<close>): the emergency protocol (\<^verbatim>\<open>emergency.go\<close>), the DronePort
  configuration and response unwrapping (\<^verbatim>\<open>droneport.go\<close>) and the DronePort session
  (\<^verbatim>\<open>droneport_client.go\<close>). The fields set by \<^verbatim>\<open>New\<close> are \<open>em_cfg\<close>; \<open>em_state\<close> holds the fields
  guarded by \<^verbatim>\<open>dpMu\<close> and the unguarded flag \<^verbatim>\<open>active\<close>, each access to which is a step of its own.
\<close>

section \<open>Data\<close>

record droneportConfig =
  dpTopic :: string
  dpOrchestrator :: string
  dpDroneID :: string
  mockSuccess :: bool
  droneModel :: string
  landingBattery :: float64
  minBatteryTakeoff :: float64
  chargePollIntervalSec :: float64
  chargeTimeoutSec :: float64

record em_cfg =
  emBase :: BaseComponent
  emMonitor :: string
  emMotors :: string
  emCargo :: string
  emProxy :: ProxyClient
  emAudit :: AuditLogger
  droneport :: droneportConfig

record em_state = base_state +
  active :: bool
  droneportPhase :: string
  droneportPortID :: string
  droneportLastError :: string
  droneportLastMissionID :: string
  droneportChargeWaitAt :: "int option"

definition DroneportPhaseDisabled :: string where "DroneportPhaseDisabled = ''DISABLED''"
definition DroneportPhaseNotRegistered :: string where "DroneportPhaseNotRegistered = ''NOT_REGISTERED''"
definition DroneportPhaseCharging :: string where "DroneportPhaseCharging = ''CHARGING''"
definition DroneportPhaseReady :: string where "DroneportPhaseReady = ''READY''"
definition DroneportPhaseDeparted :: string where "DroneportPhaseDeparted = ''DEPARTED''"

lemmas phase_defs = DroneportPhaseDisabled_def DroneportPhaseNotRegistered_def
  DroneportPhaseCharging_def DroneportPhaseReady_def DroneportPhaseDeparted_def

datatype preflightResult = preflightOK | preflightPending | preflightDenied

section \<open>droneport.go\<close>

definition parseBoolEnvDroneport :: "string \<Rightarrow> bool" where
  "parseBoolEnvDroneport raw \<longleftrightarrow> ToLower (TrimSpace raw) \<in> {''1'', ''true'', ''yes'', ''on''}"

definition loadDroneportConfig :: "host \<Rightarrow> string \<Rightarrow> droneportConfig" where
  "loadDroneportConfig h instanceID =
     \<lparr>dpTopic = orElse (TrimSpace (Getenv h ''DRONEPORT_TOPIC'')) (TrimSpace (Getenv h ''DRONEPORT_EXTERNAL_TOPIC'')),
      dpOrchestrator = orElse (TrimSpace (Getenv h ''DRONEPORT_ORCHESTRATOR_TOPIC'')) ''v1.drone_port.1.orchestrator'',
      dpDroneID = orElse (orElse (TrimSpace (Getenv h ''DRONEPORT_DRONE_ID'')) (TrimSpace instanceID)) ''drone_001'',
      mockSuccess = parseBoolEnvDroneport (Getenv h ''EMERGENCY_DRONEPORT_MOCK_SUCCESS''),
      droneModel = orElse (TrimSpace (Getenv h ''DRONEPORT_DRONE_MODEL'')) ''deliverydron'',
      landingBattery = env_float h ''DRONEPORT_LANDING_BATTERY_DEFAULT'' (\<lambda>v. fge v (Fin 0)) (Fin 95),
      minBatteryTakeoff = env_float h ''DRONEPORT_MIN_BATTERY_TAKEOFF'' positive (Fin 61),
      chargePollIntervalSec = env_float h ''DRONEPORT_CHARGE_POLL_INTERVAL_S'' positive (Fin 1),
      chargeTimeoutSec = env_float h ''DRONEPORT_CHARGE_TIMEOUT_S'' positive (Fin 120)\<rparr>"

text \<open>\<open>x, ok := m[k].(map[string]interface{})\<close>: a nil map of that type passes the assertion.\<close>

definition map_ok :: "gmap \<Rightarrow> string \<Rightarrow> gmap option option" where
  "map_ok m k =
     (case map_of m k of Some (GMap n) \<Rightarrow> Some (Some n) | Some GNilMap \<Rightarrow> Some None | _ \<Rightarrow> None)"

text \<open>A body that decides: it has an error, or one of the keys a DronePort answer consists of.\<close>

definition decisive :: "gmap \<Rightarrow> bool" where
  "decisive m \<longleftrightarrow> not_nil m ''error'' \<or>
     has_key m ''approved'' \<or> has_key m ''port_id'' \<or> has_key m ''battery'' \<or> has_key m ''drones''"

definition decisive_payload :: "gmap \<Rightarrow> bool" where
  "decisive_payload m \<longleftrightarrow> not_nil m ''error'' \<or>
     not_nil m ''approved'' \<or> not_nil m ''port_id'' \<or> not_nil m ''battery'' \<or> not_nil m ''drones''"

fun unwrap_loop :: "nat \<Rightarrow> gmap option \<Rightarrow> gmap option" where
  "unwrap_loop 0 cur = cur"
| "unwrap_loop (Suc i) None = None"
| "unwrap_loop (Suc i) (Some cur) =
     (if decisive cur then Some cur
      else case map_ok cur ''payload'' of
        Some pl \<Rightarrow>
          if decisive_payload (nilmap pl) then pl
          else (case map_ok cur ''target_response'' of
            Some tr \<Rightarrow> unwrap_loop i tr
          | None \<Rightarrow> (case map_ok (nilmap pl) ''target_response'' of
              Some tr \<Rightarrow> unwrap_loop i tr
            | None \<Rightarrow> Some cur))
      | None \<Rightarrow> (case map_ok cur ''target_response'' of
          Some tr \<Rightarrow> unwrap_loop i tr
        | None \<Rightarrow> Some cur))"

definition unwrapDroneportBody :: "gmap option \<Rightarrow> gmap option" where
  "unwrapDroneportBody resp = unwrap_loop 6 resp"

section \<open>droneport\_client.go: reading answers\<close>

definition droneportApproved :: "gmap option \<Rightarrow> bool" where
  "droneportApproved body =
     (case body of None \<Rightarrow> False | Some b \<Rightarrow> \<not> not_nil b ''error'' \<and> get_bool b ''approved'')"

definition droneportLandingOK :: "gmap option \<Rightarrow> bool" where
  "droneportLandingOK resp =
     (case unwrapDroneportBody resp of
        None \<Rightarrow> False
      | Some b \<Rightarrow> \<not> not_nil b ''error'' \<and> (droneportApproved (Some b) \<or> has_key b ''port_id''))"

definition droneportTakeoffOK :: "gmap option \<Rightarrow> bool" where
  "droneportTakeoffOK resp =
     (case unwrapDroneportBody resp of
        None \<Rightarrow> False
      | Some b \<Rightarrow> \<not> not_nil b ''error'' \<and>
          (if droneportApproved (Some b) then has_key b ''battery''
           else has_key b ''port_id'' \<and> has_key b ''battery''))"

fun parseDroneportBattery :: "host \<Rightarrow> gval \<Rightarrow> float64 option" where
  "parseDroneportBattery h (GFloat x) = Some x"
| "parseDroneportBattery h (GFloat32 x) = Some x"
| "parseDroneportBattery h (GInt w) = Some (i64 w)"
| "parseDroneportBattery h (GInt64 w) = Some (i64 w)"
| "parseDroneportBattery h (GStr s) = (if s = [] \<or> s = ''unknown'' then None else ScanFloat h s)"
| "parseDroneportBattery h _ = None"

definition battery_at :: "host \<Rightarrow> gmap \<Rightarrow> string \<Rightarrow> float64 option" where
  "battery_at h m k = (case map_of m k of None \<Rightarrow> None | Some v \<Rightarrow> parseDroneportBattery h v)"

definition optionalLandingBattery :: "host \<Rightarrow> gmap option \<Rightarrow> float64 \<Rightarrow> float64 option" where
  "optionalLandingBattery h payload dflt =
     (case payload of
        None \<Rightarrow> None
      | Some p \<Rightarrow> (case battery_at h p ''battery'' of
          Some f \<Rightarrow> Some f
        | None \<Rightarrow> (case battery_at h p ''battery_pct'' of Some f \<Rightarrow> Some f | None \<Rightarrow> Some dflt)))"

fun find_ready :: "host \<Rightarrow> droneportConfig \<Rightarrow> gval list \<Rightarrow> bool \<times> float64" where
  "find_ready h d [] = (False, Fin 0)"
| "find_ready h d (GMap dm # ds) =
     (if get_str dm ''drone_id'' \<noteq> dpDroneID d then find_ready h d ds
      else case battery_at h dm ''battery'' of
        Some batt \<Rightarrow> if fgt batt (minBatteryTakeoff d) then (True, batt) else find_ready h d ds
      | None \<Rightarrow> find_ready h d ds)"
| "find_ready h d (_ # ds) = find_ready h d ds"

section \<open>droneport\_client.go: the session\<close>

definition setDroneportPhase :: "string \<Rightarrow> (em_state, unit) prog" where
  "setDroneportPhase ph = modify (\<lambda>s. s\<lparr>droneportPhase := ph\<rparr>) (Ret ())"

definition setDroneportError :: "string \<Rightarrow> (em_state, unit) prog" where
  "setDroneportError err = modify (\<lambda>s. s\<lparr>droneportLastError := err\<rparr>) (Ret ())"

definition callDroneport :: "em_cfg \<Rightarrow> string \<Rightarrow> string \<Rightarrow> gmap \<Rightarrow> (em_state, hres) prog" where
  "callDroneport c topic action payload =
     (if topic = [] then Ret (Inl ''droneport_disabled'') else ProxyRequest (emProxy c) topic action payload)"

definition isDroneReady :: "host \<Rightarrow> em_cfg \<Rightarrow> (em_state, string + bool \<times> float64) prog" where
  "isDroneReady h c =
     (let d = droneport c in
      if dpOrchestrator d = [] then Ret (Inl ''orchestrator_topic_unset'')
      else bind (callDroneport c (dpOrchestrator d) ''get_available_drones'' []) (\<lambda>r. case r of
        Inl e \<Rightarrow> Ret (Inl e)
      | Inr resp \<Rightarrow> (case unwrapDroneportBody resp of
          None \<Rightarrow> Ret (Inr (False, Fin 0))
        | Some body \<Rightarrow>
            if not_nil body ''error'' then Ret (Inr (False, Fin 0))
            else Ret (Inr (find_ready h d (get_list body ''drones''))))))"

definition denial :: "gmap option \<Rightarrow> string \<Rightarrow> string" where
  "denial resp dflt =
     (case unwrapDroneportBody resp of None \<Rightarrow> dflt | Some b \<Rightarrow> orElse (get_str b ''error'') dflt)"

definition runLanding :: "em_cfg \<Rightarrow> float64 \<Rightarrow> (em_state, bool \<times> string \<times> gmap option) prog" where
  "runLanding c battery =
     (let d = droneport c in
      if dpTopic d = [] then Ret (True, [], None)
      else bind (callDroneport c (dpTopic d) ''request_landing''
             [(''drone_id'', GStr (dpDroneID d)), (''model'', GStr (droneModel d)), (''battery'', GFloat battery)])
        (\<lambda>r. case r of
           Inl e \<Rightarrow> Ret (False, e, Some [(''error'', GStr e)])
         | Inr resp \<Rightarrow>
             if \<not> droneportLandingOK resp then Ret (False, denial resp ''landing_denied'', resp)
             else let portID = (case unwrapDroneportBody resp of None \<Rightarrow> [] | Some b \<Rightarrow> get_str b ''port_id'')
               in modify (\<lambda>s. s\<lparr>droneportPortID := portID, droneportPhase := DroneportPhaseCharging\<rparr>)
                    (Ret (True, [], resp))))"

text \<open>\<open>started.Add(time.Duration(chargeTimeoutSec) * time.Second)\<close>: the fraction is cut off first.\<close>

definition chargeDeadline :: "droneportConfig \<Rightarrow> int \<Rightarrow> int" where
  "chargeDeadline d started = started + wrap64 (trunc64 (chargeTimeoutSec d) * 1000000000)"

definition chargeStart :: "(em_state, int) prog" where
  "chargeStart = readState (\<lambda>s. case droneportChargeWaitAt s of
       Some t \<Rightarrow> Ret t
     | None \<Rightarrow> Now (\<lambda>now. modify (\<lambda>s. s\<lparr>droneportChargeWaitAt := Some now\<rparr>) (Now Ret)))"

text \<open>Returns an error, or whether the drone is ready and whether the wait timed out.\<close>

definition checkChargeReady :: "host \<Rightarrow> em_cfg \<Rightarrow> (em_state, string + bool \<times> bool) prog" where
  "checkChargeReady h c =
     bind chargeStart (\<lambda>started. bind (isDroneReady h c) (\<lambda>r. case r of
         Inl e \<Rightarrow> Ret (Inl e)
       | Inr (ready, _) \<Rightarrow>
           if ready then
             modify (\<lambda>s. s\<lparr>droneportPhase := DroneportPhaseReady, droneportChargeWaitAt := None\<rparr>)
               (Ret (Inr (True, False)))
           else Now (\<lambda>now.
             if chargeDeadline (droneport c) started < now then
               modify (\<lambda>s. s\<lparr>droneportChargeWaitAt := None\<rparr>) (Ret (Inr (False, True)))
             else Ret (Inr (False, False)))))"

definition runTakeoff :: "em_cfg \<Rightarrow> string \<Rightarrow> (em_state, bool \<times> string \<times> gmap option) prog" where
  "runTakeoff c missionID =
     (let d = droneport c in
      if dpTopic d = [] then Ret (True, [], None)
      else bind (callDroneport c (dpTopic d) ''request_takeoff''
             ([(''drone_id'', GStr (dpDroneID d))] @
              (if missionID \<noteq> [] then [(''mission_id'', GStr missionID)] else [])))
        (\<lambda>r. case r of
           Inl e \<Rightarrow> Ret (False, e, Some [(''error'', GStr e)])
         | Inr resp \<Rightarrow>
             if \<not> droneportTakeoffOK resp then Ret (False, denial resp ''takeoff_denied'', resp)
             else let pid = (case unwrapDroneportBody resp of None \<Rightarrow> [] | Some b \<Rightarrow> get_str b ''port_id'')
               in modify (\<lambda>s. s\<lparr>droneportPortID := orElse pid (droneportPortID s),
                              droneportPhase := DroneportPhaseDeparted, droneportLastError := []\<rparr>)
                    (Ret (True, [], resp))))"

definition mission_entry :: "string \<Rightarrow> gmap" where
  "mission_entry mid = [(''mission_id'', GStr mid)]"

text \<open>The last part of \<^verbatim>\<open>runPreflight\<close>: ask for the takeoff.\<close>

definition preflightTakeoff :: "em_cfg \<Rightarrow> string \<Rightarrow> (em_state, preflightResult \<times> gmap option) prog" where
  "preflightTakeoff c mid =
     bind (runTakeoff c mid) (\<lambda>(ok, errMsg, resp).
       if \<not> ok then
         andThen (setDroneportError errMsg)
          (andThen (logToJournal (emAudit c) ''DRONEPORT_TAKEOFF_DENIED''
              (mission_entry mid @ [(''error'', GStr errMsg), (''response'', map_val resp)]))
            (Ret (preflightDenied, Some [(''error'', GStr errMsg), (''response'', map_val resp)])))
       else andThen (logToJournal (emAudit c) ''DRONEPORT_TAKEOFF_APPROVED'' (mission_entry mid))
              (Ret (preflightOK, resp)))"

text \<open>The part before: wait for the charge to be complete.\<close>

definition preflightCharge :: "host \<Rightarrow> em_cfg \<Rightarrow> string \<Rightarrow> (em_state, preflightResult \<times> gmap option) prog" where
  "preflightCharge h c mid =
     bind (checkChargeReady h c) (\<lambda>r. case r of
       Inl e \<Rightarrow>
         andThen (setDroneportError e)
          (andThen (logToJournal (emAudit c) ''DRONEPORT_TAKEOFF_DENIED'' (mission_entry mid @ [(''error'', GStr e)]))
            (Ret (preflightDenied, Some [(''error'', GStr e)])))
     | Inr (readyNow, timedOut) \<Rightarrow>
         if timedOut then
           andThen (setDroneportError ''charge_timeout'')
            (andThen (logToJournal (emAudit c) ''DRONEPORT_CHARGE_TIMEOUT'' (mission_entry mid))
              (Ret (preflightDenied, Some [(''error'', GStr ''charge_timeout'')])))
         else if \<not> readyNow then Ret (preflightPending, Some [(''pending'', GBool True)])
         else preflightTakeoff c mid)"

text \<open>And the registration at the port when the drone is not charging yet.\<close>

definition preflightLanding ::
    "host \<Rightarrow> em_cfg \<Rightarrow> string \<Rightarrow> float64 option \<Rightarrow> (em_state, preflightResult \<times> gmap option) prog" where
  "preflightLanding h c mid lb =
     (let batt = (case lb of None \<Rightarrow> landingBattery (droneport c) | Some b \<Rightarrow> b) in
      andThen (setDroneportPhase DroneportPhaseNotRegistered)
       (bind (runLanding c batt) (\<lambda>(ok, errMsg, resp).
          if \<not> ok then
            andThen (setDroneportError errMsg)
             (andThen (logToJournal (emAudit c) ''DRONEPORT_LANDING_DENIED''
                 (mission_entry mid @ [(''error'', GStr errMsg), (''response'', map_val resp)]))
               (Ret (preflightDenied, Some [(''error'', GStr errMsg), (''response'', map_val resp)])))
          else
            andThen (logToJournal (emAudit c) ''DRONEPORT_LANDING_APPROVED''
                (mission_entry mid @ [(''battery'', GFloat batt)]))
             (andThen (setDroneportPhase DroneportPhaseCharging)
               (andThen (logToJournal (emAudit c) ''DRONEPORT_CHARGING_WAIT'' (mission_entry mid))
                 (preflightCharge h c mid))))))"

definition runPreflight ::
    "host \<Rightarrow> em_cfg \<Rightarrow> string \<Rightarrow> float64 option \<Rightarrow> (em_state, preflightResult \<times> gmap option) prog" where
  "runPreflight h c mid lb =
     (let d = droneport c in
      if dpTopic d = [] \<and> dpOrchestrator d = [] then
        andThen (setDroneportPhase DroneportPhaseDisabled) (Ret (preflightOK, None))
      else if mockSuccess d then
        andThen (logToJournal (emAudit c) ''DRONEPORT_TAKEOFF_APPROVED''
            (mission_entry mid @ [(''stub'', GBool True), (''reason'', GStr ''EMERGENCY_DRONEPORT_MOCK_SUCCESS'')]))
         (andThen (setDroneportPhase DroneportPhaseDeparted) (Ret (preflightOK, None)))
      else Atom (\<lambda>s. if droneportPhase s = DroneportPhaseDeparted then s
                     else s\<lparr>droneportLastMissionID := mid\<rparr>) (\<lambda>s.
        if droneportPhase s = DroneportPhaseDeparted \<and> droneportLastMissionID s = mid then
          Ret (preflightOK, Some [(''already_departed'', GBool True)])
        else if droneportPhase s = DroneportPhaseDeparted then
          andThen (setDroneportError ''already_departed'')
            (Ret (preflightDenied, Some [(''error'', GStr ''already_departed'')]))
        else bind (isDroneReady h c) (\<lambda>r. case r of
          Inl e \<Rightarrow>
            andThen (setDroneportError e)
             (andThen (logToJournal (emAudit c) ''DRONEPORT_TAKEOFF_DENIED'' (mission_entry mid @ [(''error'', GStr e)]))
               (Ret (preflightDenied, Some [(''error'', GStr e)])))
        | Inr (ready, _) \<Rightarrow>
            if \<not> ready then
              (if droneportPhase s \<noteq> DroneportPhaseCharging then preflightLanding h c mid lb
               else preflightCharge h c mid)
            else andThen (setDroneportPhase DroneportPhaseReady) (preflightTakeoff c mid))))"

definition runPostMissionLand ::
    "em_cfg \<Rightarrow> string \<Rightarrow> float64 option \<Rightarrow> (em_state, bool \<times> gmap option) prog" where
  "runPostMissionLand c mid lb =
     (let d = droneport c in
      if dpTopic d = [] then andThen (setDroneportPhase DroneportPhaseDisabled) (Ret (True, None))
      else if mockSuccess d then
        modify (\<lambda>s. s\<lparr>droneportPhase := DroneportPhaseCharging, droneportChargeWaitAt := None\<rparr>)
         (andThen (logToJournal (emAudit c) ''DRONEPORT_LAND_COMPLETE'' (mission_entry mid @ [(''stub'', GBool True)]))
           (Ret (True, None)))
      else
        let batt = (case lb of None \<Rightarrow> landingBattery d | Some b \<Rightarrow> b) in
        bind (runLanding c batt) (\<lambda>(ok, errMsg, resp).
          if \<not> ok then
            andThen (setDroneportError errMsg)
             (andThen (logToJournal (emAudit c) ''DRONEPORT_LANDING_DENIED''
                 (mission_entry mid @ [(''error'', GStr errMsg), (''response'', map_val resp)]))
               (Ret (False, Some [(''error'', GStr errMsg), (''response'', map_val resp)])))
          else
            modify (\<lambda>s. s\<lparr>droneportChargeWaitAt := None\<rparr>)
             (andThen (logToJournal (emAudit c) ''DRONEPORT_LAND_COMPLETE''
                 (mission_entry mid @ [(''battery'', GFloat batt)]))
               (Ret (True, resp)))))"

definition droneportStateSnapshot :: "em_state \<Rightarrow> gmap" where
  "droneportStateSnapshot s =
     [(''droneport_phase'', GStr (droneportPhase s)), (''droneport_port_id'', GStr (droneportPortID s)),
      (''droneport_last_error'', GStr (droneportLastError s))]"

section \<open>emergency.go\<close>

definition New_em :: "host \<Rightarrow> Config \<Rightarrow> em_cfg \<times> em_state" where
  "New_em h cfg =
     (let px = \<lparr>pxSender = ComponentID cfg, pxMonitor = secTopic h cfg, pxTimeout = Fin 5\<rparr>;
          d = loadDroneportConfig h (InstanceID cfg)
      in (\<lparr>emBase = newBase cfg ''emergency'', emMonitor = secTopic h cfg,
           emMotors = BrokerTopicFor cfg ''motors'', emCargo = BrokerTopicFor cfg ''cargo'', emProxy = px,
           emAudit = \<lparr>alProxy = px, alJournal = BrokerTopicFor cfg ''journal'', alSource = ''emergency''\<rparr>,
           droneport = d\<rparr>,
          \<lparr>running = False, active = False,
           droneportPhase = (if dpTopic d \<noteq> [] \<or> dpOrchestrator d \<noteq> [] then DroneportPhaseNotRegistered
                             else DroneportPhaseDisabled),
           droneportPortID = [], droneportLastError = [], droneportLastMissionID = [],
           droneportChargeWaitAt = None\<rparr>))"

definition error_key :: "gmap option \<Rightarrow> string \<Rightarrow> string" where
  "error_key extra dflt = (case extra of None \<Rightarrow> dflt | Some x \<Rightarrow> orElse (get_str x ''error'') dflt)"

definition handleDroneportTakeoff :: "host \<Rightarrow> em_cfg \<Rightarrow> em_state handler" where
  "handleDroneportTakeoff h c m =
     (if \<not> IsTrustedSender m ''security_monitor'' then noReply
      else case get_map m ''payload'' of
        None \<Rightarrow> reply [(''ok'', GBool False), (''error'', GStr ''invalid_payload'')]
      | Some p \<Rightarrow>
          bind (runPreflight h c (get_str p ''mission_id'')
                  (optionalLandingBattery h (Some p) (landingBattery (droneport c)))) (\<lambda>(r, extra). case r of
            preflightOK \<Rightarrow> reply [(''ok'', GBool True), (''extra'', map_val extra)]
          | preflightPending \<Rightarrow> reply [(''ok'', GBool False), (''pending'', GBool True)]
          | preflightDenied \<Rightarrow> reply [(''ok'', GBool False),
              (''error'', GStr (error_key extra ''droneport_denied'')), (''extra'', map_val extra)]))"

definition handleDroneportLand :: "host \<Rightarrow> em_cfg \<Rightarrow> em_state handler" where
  "handleDroneportLand h c m =
     (if \<not> IsTrustedSender m ''security_monitor'' \<and> \<not> IsTrustedSender m ''autopilot'' then noReply
      else case get_map m ''payload'' of
        None \<Rightarrow> reply [(''ok'', GBool False), (''error'', GStr ''invalid_payload'')]
      | Some p \<Rightarrow>
          bind (runPostMissionLand c (get_str p ''mission_id'')
                  (optionalLandingBattery h (Some p) (landingBattery (droneport c)))) (\<lambda>(ok, extra).
            if \<not> ok then reply [(''ok'', GBool False), (''error'', GStr (error_key extra ''droneport_land_denied''))]
            else reply [(''ok'', GBool True)]))"

definition handleDroneportEvent :: "em_cfg \<Rightarrow> em_state handler" where
  "handleDroneportEvent c m =
     (if \<not> IsTrustedSender m ''droneport'' \<and> \<not> IsTrustedSender m ''security_monitor'' then noReply
      else case get_map m ''payload'' of
        None \<Rightarrow> reply [(''ok'', GBool False), (''error'', GStr ''invalid_payload'')]
      | Some p \<Rightarrow> andThen (logToJournal (emAudit c) ''DRONEPORT_EVENT_RECEIVED'' p) (reply [(''ok'', GBool True)]))"

definition isolation_msg :: "em_cfg \<Rightarrow> string \<Rightarrow> gmap" where
  "isolation_msg c mid =
     [(''action'', GStr ''ISOLATION_START''), (''sender'', GStr (bcID (emBase c))),
      (''payload'', GMap [(''reason'', GStr ''LIMITER_EMERGENCY''), (''mission_id'', GStr mid)])]"

definition setActive :: "bool \<Rightarrow> (em_state, 'a) prog \<Rightarrow> (em_state, 'a) prog" where
  "setActive b p = modify (\<lambda>s. s\<lparr>active := b\<rparr>) p"

definition failed :: "string \<Rightarrow> (em_state, hres) prog" where
  "failed e = setActive False (reply [(''ok'', GBool False), (''error'', GStr e)])"

definition handleLimiterEvent :: "em_cfg \<Rightarrow> em_state handler" where
  "handleLimiterEvent c m =
     (if \<not> IsTrustedSender m ''security_monitor'' \<and> \<not> IsTrustedSender m ''limiter'' then noReply
      else case get_map m ''payload'' of
        None \<Rightarrow> reply [(''ok'', GBool False), (''ignored'', GBool True)]
      | Some p \<Rightarrow>
          if get_str p ''event'' \<noteq> ''EMERGENCY_LAND_REQUIRED'' then
            reply [(''ok'', GBool False), (''ignored'', GBool True)]
          else let mid = get_str p ''mission_id''; details = nilmap (get_map p ''details'') in
            setActive True
             (Pub (emMonitor c) (isolation_msg c mid) (\<lambda>e1.
                if e1 \<noteq> None then failed ''isolation_start_failed''
                else bind (ProxyPublishAsync (emProxy c) (emCargo c) ''CLOSE'' [(''reason'', GStr ''emergency'')]) (\<lambda>e2.
                  if e2 \<noteq> None then failed ''cargo_close_failed''
                  else bind (ProxyPublishAsync (emProxy c) (emMotors c) ''LAND''
                               [(''mode'', GStr ''AUTO_LAND''), (''reason'', GStr ''emergency'')]) (\<lambda>e3.
                    if e3 \<noteq> None then failed ''motors_land_failed''
                    else bind (LogEvent (emAudit c) ''EMERGENCY_PROTOCOL_STARTED''
                                 [(''mission_id'', GStr mid), (''details'', GMap details)]) (\<lambda>e4.
                      if e4 \<noteq> None then failed ''journal_log_failed''
                      else reply [(''ok'', GBool True)]))))))"

definition handleGetState_em :: "em_state handler" where
  "handleGetState_em _ = readState (\<lambda>s. readState (\<lambda>s'.
     reply (put_all (droneportStateSnapshot s') [(''active'', GBool (active s))])))"

definition em_registerHandlers :: "host \<Rightarrow> em_cfg \<Rightarrow> (string \<times> em_state handler) list" where
  "em_registerHandlers h c =
     [(''limiter_event'', handleLimiterEvent c), (''droneport_takeoff'', handleDroneportTakeoff h c),
      (''droneport_land'', handleDroneportLand h c), (''droneport_event'', handleDroneportEvent c),
      (''get_state'', handleGetState_em)]"

definition em_dispatch :: "host \<Rightarrow> em_cfg \<Rightarrow> gmap \<Rightarrow> (em_state, unit) prog" where
  "em_dispatch h c = handleMessage (emBase c) (registered (emBase c) (em_registerHandlers h c))"

end
