(* ===== verification/Emergency_Protocol.thy ===== *)
theory Emergency_Protocol
  imports Emergency
begin

text \<open>
  Correctness of the emergency component: its contract under every schedule, the order and the
  failure handling of the emergency protocol, the DronePort session and the unwrapping of nested
  answers.
\<close>

section \<open>Contract\<close>

definition em_inv :: "em_state \<Rightarrow> bool" where
  "em_inv s \<longleftrightarrow> droneportPhase s \<in> {DroneportPhaseDisabled, DroneportPhaseNotRegistered,
     DroneportPhaseCharging, DroneportPhaseReady, DroneportPhaseDeparted}"

definition em_wired :: "em_cfg \<Rightarrow> bool" where
  "em_wired c \<longleftrightarrow> pxSender (emProxy c) = bcID (emBase c) \<and> pxMonitor (emProxy c) = emMonitor c \<and>
     alProxy (emAudit c) = emProxy c"

abbreviation em_sat :: "em_cfg \<Rightarrow> (em_state, 'a) prog \<Rightarrow> bool" where
  "em_sat c p \<equiv> sat em_inv (\<lambda>_ _. True) (via_monitor (bcID (emBase c)) (emMonitor c)) anyResult p"

lemma em_sat_basic [simp]:
  "ph \<in> {DroneportPhaseDisabled, DroneportPhaseNotRegistered, DroneportPhaseCharging, DroneportPhaseReady,
     DroneportPhaseDeparted} \<Longrightarrow> em_sat c (setDroneportPhase ph)"
  "em_sat c (setDroneportError e)"
  by (simp_all add: setDroneportPhase_def setDroneportError_def em_inv_def)

lemma em_sat_log:
  "em_wired c \<Longrightarrow> via_monitor (bcID (emBase c)) (emMonitor c) (pxMonitor (alProxy (emAudit c)))
     (proxy_msg (alProxy (emAudit c)) k t a d)"
  by (simp add: em_wired_def)

lemma em_sat_call: "em_wired c \<Longrightarrow> em_sat c (callDroneport c t a p)"
  by (auto simp: callDroneport_def em_wired_def intro!: sat_ProxyRequest)

lemma em_sat_ready: "em_wired c \<Longrightarrow> em_sat c (isDroneReady h c)"
  by (auto simp: isDroneReady_def Let_def em_sat_call split: sum.splits option.splits intro!: sat_bind_any)

lemma em_sat_landing: "em_wired c \<Longrightarrow> em_sat c (runLanding c b)"
  by (auto simp: runLanding_def Let_def em_sat_call em_inv_def split: sum.splits intro!: sat_bind_any)

lemma em_sat_takeoff: "em_wired c \<Longrightarrow> em_sat c (runTakeoff c mid)"
  by (auto simp: runTakeoff_def Let_def em_sat_call em_inv_def split: sum.splits intro!: sat_bind_any)

lemma em_sat_chargeStart: "em_sat c chargeStart"
  by (auto simp: chargeStart_def em_inv_def split: option.splits)

lemma em_sat_charge: "em_wired c \<Longrightarrow> em_sat c (checkChargeReady h c)"
  unfolding checkChargeReady_def
  by (auto simp: em_sat_chargeStart em_sat_ready em_inv_def split: sum.splits intro!: sat_bind_any)

lemma em_sat_preflightTakeoff: "em_wired c \<Longrightarrow> em_sat c (preflightTakeoff c mid)"
  unfolding preflightTakeoff_def
  by (auto simp: em_sat_takeoff em_sat_log intro!: sat_bind_any sat_andThen)

lemma em_sat_preflightCharge: "em_wired c \<Longrightarrow> em_sat c (preflightCharge h c mid)"
  unfolding preflightCharge_def
  by (auto simp: em_sat_charge em_sat_log em_sat_preflightTakeoff split: sum.splits
      intro!: sat_bind_any sat_andThen)

lemma em_sat_preflightLanding: "em_wired c \<Longrightarrow> em_sat c (preflightLanding h c mid lb)"
  unfolding preflightLanding_def Let_def
  by (auto simp: em_sat_landing em_sat_log em_sat_preflightCharge intro!: sat_bind_any sat_andThen)

lemma em_sat_preflight: "em_wired c \<Longrightarrow> em_sat c (runPreflight h c mid lb)"
  unfolding runPreflight_def Let_def
  by (auto simp: em_sat_ready em_sat_log em_sat_preflightTakeoff em_sat_preflightCharge
      em_sat_preflightLanding em_inv_def split: sum.splits intro!: sat_bind_any sat_andThen)

lemma em_sat_land: "em_wired c \<Longrightarrow> em_sat c (runPostMissionLand c mid lb)"
  unfolding runPostMissionLand_def Let_def
  by (auto simp: em_sat_landing em_sat_log em_inv_def intro!: sat_bind_any sat_andThen)

lemma em_sat_limiterEvent: "em_wired c \<Longrightarrow> em_sat c (handleLimiterEvent c m)"
  by (auto simp: handleLimiterEvent_def Let_def setActive_def failed_def em_inv_def em_wired_def
      isolation_msg_def via_monitor_def get_str_def LogEvent_def ProxyPublishAsync_def proxy_msg_def
      split: option.splits)

lemma em_sat_handlers:
  assumes "em_wired c" "(a, h) \<in> set (em_registerHandlers host c)"
  shows "em_sat c (h m)"
proof -
  consider "h = handleLimiterEvent c" | "h = handleDroneportTakeoff host c" | "h = handleDroneportLand host c"
    | "h = handleDroneportEvent c" | "h = handleGetState_em"
    using assms(2) by (auto simp: em_registerHandlers_def)
  then show ?thesis
    by cases (auto simp: em_sat_limiterEvent assms(1) handleDroneportTakeoff_def handleDroneportLand_def
        handleDroneportEvent_def handleGetState_em_def em_sat_preflight em_sat_land em_sat_log
        split: option.splits preflightResult.splits intro!: sat_bind_any sat_andThen)
qed

lemma em_sat_dispatch: "em_wired c \<Longrightarrow> em_sat c (em_dispatch h c m)"
  unfolding em_dispatch_def by (rule sat_registered) (auto intro: em_sat_handlers)

lemma New_em_wired [simp]: "em_wired (fst (New_em h cfg))"
  by (simp add: New_em_def Let_def em_wired_def newBase_def)

lemma New_em_inv: "em_inv (snd (New_em h cfg))"
  by (simp add: New_em_def Let_def em_inv_def)

interpretation emergency: proxied_component "range (em_dispatch h (fst (New_em h cfg)))" "snd (New_em h cfg)"
    em_inv "\<lambda>_ _. True" "bcID (emBase (fst (New_em h cfg)))" "emMonitor (fst (New_em h cfg))" for h cfg
  by unfold_locales (auto simp: New_em_inv em_sat_dispatch)

interpretation em_takeoff: guarded_component "emBase c" "em_registerHandlers h c"
    "{''droneport_takeoff''}" "{''security_monitor''}" for h c
  by unfold_locales (auto simp: em_registerHandlers_def handleDroneportTakeoff_def)

interpretation em_events: guarded_component "emBase c" "em_registerHandlers h c"
    "{''limiter_event''}" "{''security_monitor'', ''limiter''}" for h c
  by unfold_locales (auto simp: em_registerHandlers_def handleLimiterEvent_def IsTrustedSender_iff)

section \<open>The protocol\<close>

text \<open>The four messages of the protocol, in order, and the error of the step that fails.\<close>

definition protocol :: "em_cfg \<Rightarrow> string \<Rightarrow> gmap \<Rightarrow> (string \<times> gmap) list" where
  "protocol c mid details =
     (let p = emProxy c; a = emAudit c in
      [(emMonitor c, isolation_msg c mid),
       (pxMonitor p, proxy_msg p ''proxy_publish'' (emCargo c) ''CLOSE'' [(''reason'', GStr ''emergency'')]),
       (pxMonitor p, proxy_msg p ''proxy_publish'' (emMotors c) ''LAND''
          [(''mode'', GStr ''AUTO_LAND''), (''reason'', GStr ''emergency'')]),
       (pxMonitor (alProxy a), proxy_msg (alProxy a) ''proxy_publish'' (alJournal a) ''LOG_EVENT''
          [(''event'', GStr ''EMERGENCY_PROTOCOL_STARTED''), (''source'', GStr (alSource a)),
           (''details'', GMap [(''mission_id'', GStr mid), (''details'', GMap details)])])])"

definition protocol_errors :: "string list" where
  "protocol_errors =
     [''isolation_start_failed'', ''cargo_close_failed'', ''motors_land_failed'', ''journal_log_failed'']"

text \<open>How many messages of a list the broker accepts before it refuses one.\<close>

fun accepted :: "env \<Rightarrow> event list \<Rightarrow> (string \<times> gmap) list \<Rightarrow> nat" where
  "accepted E tr [] = 0"
| "accepted E tr ((t, m) # ms) =
     (if on_pub E tr t m = None then Suc (accepted E (tr @ [Published t m None]) ms) else 0)"

definition emergency_event :: "gmap \<Rightarrow> string \<Rightarrow> gmap \<Rightarrow> bool" where
  "emergency_event m mid details \<longleftrightarrow>
     get_str m ''sender'' \<in> {''security_monitor'', ''limiter''} \<and>
     (\<exists>p. get_map m ''payload'' = Some p \<and> get_str p ''event'' = ''EMERGENCY_LAND_REQUIRED'' \<and>
        get_str p ''mission_id'' = mid \<and> nilmap (get_map p ''details'') = details)"

text \<open>C5. The emergency protocol. On EMERGENCY\_LAND\_REQUIRED from the limiter or through the
  monitor, the component sends in this order: ISOLATION\_START, close the cargo bay, land, journal.
  It stops at the first message the broker refuses, answers with the error of that step and is
  active afterwards exactly when all four were accepted.\<close>

theorem emergency_protocol:
  assumes "emergency_event m mid details"
  shows "let ms = protocol c mid details; n = accepted E [] ms in
     outputs E (handleLimiterEvent c m) s = take (Suc n) ms \<and>
     active (final E (handleLimiterEvent c m) s) = (n = 4) \<and>
     result E (handleLimiterEvent c m) s =
       Inr (Some (if n = 4 then [(''ok'', GBool True)]
                  else [(''ok'', GBool False), (''error'', GStr (protocol_errors ! n))]))"
proof -
  obtain p where "get_map m ''payload'' = Some p" "get_str p ''event'' = ''EMERGENCY_LAND_REQUIRED''"
    "get_str p ''mission_id'' = mid" "nilmap (get_map p ''details'') = details"
    "get_str m ''sender'' \<in> {''security_monitor'', ''limiter''}"
    using assms by (auto simp: emergency_event_def)
  then show ?thesis
    by (auto simp: handleLimiterEvent_def IsTrustedSender_iff Let_def run_views setActive_def failed_def
        ProxyPublishAsync_def LogEvent_def protocol_def protocol_errors_def)
qed

definition demo_emergency :: "em_cfg \<times> em_state" where
  "demo_emergency = New_em demo_host (FromEnv demo_host)"

definition demo_alarm :: gmap where
  "demo_alarm = [(''action'', GStr ''limiter_event''), (''sender'', GStr ''limiter''),
     (''payload'', GMap [(''event'', GStr ''EMERGENCY_LAND_REQUIRED''), (''mission_id'', GStr ''m1'')])]"

theorem emergency_protocol_witness:
  "outputs demo_env (handleLimiterEvent (fst demo_emergency) demo_alarm) (snd demo_emergency) =
     protocol (fst demo_emergency) ''m1'' [] \<and>
   active (final demo_env (handleLimiterEvent (fst demo_emergency) demo_alarm) (snd demo_emergency))"
proof -
  have e: "emergency_event demo_alarm ''m1'' []"
    by (simp add: emergency_event_def demo_alarm_def get_str_def get_map_def nilmap_def)
  have "accepted demo_env [] (protocol (fst demo_emergency) ''m1'' []) = 4"
    by (simp add: protocol_def demo_env_def Let_def)
  then show ?thesis
    using emergency_protocol [OF e, of "fst demo_emergency" demo_env "snd demo_emergency"]
    by (simp add: Let_def protocol_def)
qed

section \<open>The DronePort session\<close>

text \<open>The orchestrator reported this drone with more than the minimum charge.\<close>

definition reported_charged :: "host \<Rightarrow> em_cfg \<Rightarrow> event list \<Rightarrow> bool" where
  "reported_charged h c tr \<longleftrightarrow> (\<exists>r resp body.
     Requested (pxMonitor (emProxy c)) (proxy_msg (emProxy c) ''proxy_request''
       (dpOrchestrator (droneport c)) ''get_available_drones'' []) r \<in> set tr \<and>
     proxy_answer r = Inr resp \<and> unwrapDroneportBody resp = Some body \<and> \<not> not_nil body ''error'' \<and>
     fst (find_ready h (droneport c) (get_list body ''drones'')))"

text \<open>The port approved this drone's request to take off.\<close>

definition port_approved :: "em_cfg \<Rightarrow> string \<Rightarrow> event list \<Rightarrow> bool" where
  "port_approved c mid tr \<longleftrightarrow> (\<exists>r resp.
     Requested (pxMonitor (emProxy c)) (proxy_msg (emProxy c) ''proxy_request''
       (dpTopic (droneport c)) ''request_takeoff''
       ([(''drone_id'', GStr (dpDroneID (droneport c)))] @
        (if mid \<noteq> [] then [(''mission_id'', GStr mid)] else []))) r \<in> set tr \<and>
     proxy_answer r = Inr resp \<and> droneportTakeoffOK resp)"

lemma reported_charged_mono: "reported_charged h c tr \<Longrightarrow> set tr \<subseteq> set tr' \<Longrightarrow> reported_charged h c tr'"
  by (fastforce simp: reported_charged_def)

lemma run_isDroneReady:
  assumes "run E (isDroneReady h c) s tr = (Inr (True, b), s', tr')"
  shows "reported_charged h c tr'"
  using assms
  by (auto simp: isDroneReady_def callDroneport_def ProxyRequest_def Let_def reported_charged_def
      split: if_splits sum.splits option.splits)

lemma run_preflightTakeoff:
  assumes "run E (preflightTakeoff c mid) s tr = ((preflightOK, x), s', tr')" "dpTopic (droneport c) \<noteq> []"
  shows "droneportPhase s' = DroneportPhaseDeparted \<and> port_approved c mid tr'"
  using assms
  by (auto simp: preflightTakeoff_def runTakeoff_def callDroneport_def ProxyRequest_def Let_def
      port_approved_def logToJournal_def LogEvent_def ProxyPublishAsync_def setDroneportError_def
      split: if_splits sum.splits option.splits)

lemma run_checkChargeReady:
  assumes "run E (checkChargeReady h c) s tr = (Inr (True, t), s', tr')"
  shows "reported_charged h c tr'"
proof -
  obtain st s1 tr1 where 1: "run E chargeStart s tr = (st, s1, tr1)" by (metis prod_cases3)
  obtain r s2 tr2 where 2: "run E (isDroneReady h c) s1 tr1 = (r, s2, tr2)" by (metis prod_cases3)
  from assms obtain b where "r = Inr (True, b)" "tr' = tr2"
    by (auto simp: checkChargeReady_def run_bind 1 2 Let_def split: sum.splits if_splits)
  then show ?thesis using run_isDroneReady 2 by simp
qed

lemma run_preflightCharge:
  assumes "run E (preflightCharge h c mid) s tr = ((preflightOK, x), s', tr')" "dpTopic (droneport c) \<noteq> []"
  shows "droneportPhase s' = DroneportPhaseDeparted \<and> port_approved c mid tr' \<and> reported_charged h c tr'"
proof -
  obtain r s1 tr1 where 1: "run E (checkChargeReady h c) s tr = (r, s1, tr1)" by (metis prod_cases3)
  from assms(1) obtain t where r: "r = Inr (True, t)"
    and 2: "run E (preflightTakeoff c mid) s1 tr1 = ((preflightOK, x), s', tr')"
    by (auto simp: preflightCharge_def run_bind 1 setDroneportError_def logToJournal_def LogEvent_def
        ProxyPublishAsync_def Let_def split: sum.splits if_splits)
  show ?thesis
    using run_preflightTakeoff [OF 2 assms(2)] run_checkChargeReady [of E h c s tr t] 1 r
      reported_charged_mono run_extends [OF 2] by blast
qed

lemma run_preflightLanding:
  assumes "run E (preflightLanding h c mid lb) s tr = ((preflightOK, x), s', tr')" "dpTopic (droneport c) \<noteq> []"
  shows "droneportPhase s' = DroneportPhaseDeparted \<and> port_approved c mid tr' \<and> reported_charged h c tr'"
proof -
  let ?b = "case lb of None \<Rightarrow> landingBattery (droneport c) | Some b \<Rightarrow> b"
  let ?s = "s\<lparr>droneportPhase := DroneportPhaseNotRegistered\<rparr>"
  obtain ok err resp s1 tr1 where 1: "run E (runLanding c ?b) ?s tr = ((ok, err, resp), s1, tr1)"
    by (cases "run E (runLanding c ?b) ?s tr") auto
  from assms(1) obtain s2 tr2 where "run E (preflightCharge h c mid) s2 tr2 = ((preflightOK, x), s', tr')"
    by (auto simp: preflightLanding_def run_bind 1 Let_def setDroneportPhase_def setDroneportError_def
        logToJournal_def LogEvent_def ProxyPublishAsync_def split: if_splits)
  then show ?thesis using run_preflightCharge assms(2) by blast
qed

text \<open>C23. DronePort preflight is sound: when a port is configured and the stub is off, a drone that
  has not departed yet gets clearance only after the orchestrator reported it with more than the
  minimum charge and the port approved the takeoff of this mission; the session is then
  DEPARTED. Every other path denies or stays pending.\<close>

theorem preflight_sound:
  assumes "dpTopic (droneport c) \<noteq> []" and "\<not> mockSuccess (droneport c)"
    and "droneportPhase s \<noteq> DroneportPhaseDeparted"
    and "run E (runPreflight h c mid lb) s [] = ((preflightOK, x), s', tr)"
  shows "reported_charged h c tr \<and> port_approved c mid tr \<and> droneportPhase s' = DroneportPhaseDeparted"
proof -
  let ?s = "s\<lparr>droneportLastMissionID := mid\<rparr>"
  obtain r s1 tr1 where 1: "run E (isDroneReady h c) ?s [] = (r, s1, tr1)" by (metis prod_cases3)
  consider b s2 where "r = Inr (True, b)" "run E (preflightTakeoff c mid) s2 tr1 = ((preflightOK, x), s', tr)"
    | "run E (preflightLanding h c mid lb) s1 tr1 = ((preflightOK, x), s', tr)"
    | "run E (preflightCharge h c mid) s1 tr1 = ((preflightOK, x), s', tr)"
    using assms(4)
    by (auto simp: runPreflight_def assms(1-3) run_bind 1 Let_def setDroneportPhase_def setDroneportError_def
        logToJournal_def LogEvent_def ProxyPublishAsync_def split: if_splits sum.splits)
  then show ?thesis
  proof cases
    case 1
    then show ?thesis
      using run_preflightTakeoff [OF 1(2) assms(1)] run_isDroneReady [of E h c ?s "[]" b s1 tr1]
        \<open>run E (isDroneReady h c) ?s [] = (r, s1, tr1)\<close> reported_charged_mono run_extends [OF 1(2)] by blast
  next
    case 2
    then show ?thesis using run_preflightLanding assms(1) by blast
  next
    case 3
    then show ?thesis using run_preflightCharge assms(1) by blast
  qed
qed

definition demo_port_env :: env where
  "demo_port_env = demo_env\<lparr>on_req := (\<lambda>_ _ _. Inr [(''payload'', GMap [(''target_response'', GMap [(''payload'',
     GMap [(''drones'', GList [GMap [(''drone_id'', GStr ''d1''), (''battery'', GFloat (Fin 90))]]),
           (''approved'', GBool True), (''battery'', GFloat (Fin 90))])])])])\<rparr>"

definition demo_port :: em_cfg where
  "demo_port = (fst demo_emergency)\<lparr>droneport := \<lparr>dpTopic = ''dp'', dpOrchestrator = ''orch'', dpDroneID = ''d1'',
     mockSuccess = False, droneModel = ''m'', landingBattery = Fin 95, minBatteryTakeoff = Fin 61,
     chargePollIntervalSec = Fin 1, chargeTimeoutSec = Fin 120\<rparr>\<rparr>"

lemma demo_port_droneport:
  "droneport demo_port = \<lparr>dpTopic = ''dp'', dpOrchestrator = ''orch'', dpDroneID = ''d1'',
     mockSuccess = False, droneModel = ''m'', landingBattery = Fin 95, minBatteryTakeoff = Fin 61,
     chargePollIntervalSec = Fin 1, chargeTimeoutSec = Fin 120\<rparr>"
  by (simp add: demo_port_def)

theorem preflight_sound_witness:
  "\<exists>x s' tr. run demo_port_env (runPreflight demo_host demo_port ''m1'' None) (snd demo_emergency) [] =
     ((preflightOK, x), s', tr) \<and> droneportPhase s' = DroneportPhaseDeparted \<and> port_approved demo_port ''m1'' tr"
proof -
  have ph: "droneportPhase (snd demo_emergency) \<noteq> DroneportPhaseDeparted"
    by (simp add: demo_emergency_def New_em_def Let_def phase_defs)
  have "\<exists>x s' tr. run demo_port_env (runPreflight demo_host demo_port ''m1'' None) (snd demo_emergency) [] =
      ((preflightOK, x), s', tr)"
    using ph by (simp add: runPreflight_def demo_port_droneport isDroneReady_def callDroneport_def ProxyRequest_def
        demo_port_env_def demo_env_def proxy_answer_def get_map_def get_str_def get_list_def battery_at_def
        unwrapDroneportBody_def decisive_def not_nil_def has_key_def numeral_eq_Suc preflightTakeoff_def
        runTakeoff_def droneportTakeoffOK_def droneportApproved_def get_bool_def logToJournal_def
        LogEvent_def ProxyPublishAsync_def setDroneportPhase_def Let_def)
  then show ?thesis
    using preflight_sound [of demo_port "snd demo_emergency" demo_port_env demo_host "''m1''" None] ph
    by (auto simp: demo_port_droneport)
qed

section \<open>Nested answers\<close>

text \<open>The two envelopes an answer may come in: as the target response of a proxy answer, or as the
  payload of a message around such an answer.\<close>

definition envelop :: "bool \<Rightarrow> gmap \<Rightarrow> gmap" where
  "envelop plain body =
     (if plain then [(''target_response'', GMap body)]
      else [(''payload'', GMap [(''target_response'', GMap body)])])"

lemma envelop_open: "unwrap_loop (Suc i) (Some (envelop b body)) = unwrap_loop i (Some body)"
  by (simp add: envelop_def decisive_def decisive_payload_def not_nil_def has_key_def map_ok_def nilmap_def)

lemma unwrap_nested: "decisive body \<Longrightarrow> unwrap_loop (Suc (length bs + k)) (Some (foldr envelop bs body)) = Some body"
proof (induction bs)
  case (Cons b bs)
  then show ?case using envelop_open [of "Suc (length bs + k)" b "foldr envelop bs body"]
    by (simp del: unwrap_loop.simps)
qed simp

text \<open>Unwrapping finds the DronePort's answer: a body with an error, an approval, a port, a battery
  or a list of drones is found under up to five envelopes of either kind.\<close>

theorem unwrap_finds_body:
  assumes "decisive body" and "length bs \<le> 5"
  shows "unwrapDroneportBody (Some (foldr envelop bs body)) = Some body"
proof -
  have "unwrap_loop (Suc (length bs + (5 - length bs))) (Some (foldr envelop bs body)) = Some body"
    by (rule unwrap_nested [OF assms(1)])
  then show ?thesis using assms(2) by (simp add: unwrapDroneportBody_def)
qed

theorem unwrap_finds_body_witness:
  "unwrapDroneportBody (Some (envelop True (envelop False [(''port_id'', GStr ''p'')]))) = Some [(''port_id'', GStr ''p'')]"
  using unwrap_finds_body [of "[(''port_id'', GStr ''p'')]" "[True, False]"]
  by (simp add: decisive_def has_key_def)

text \<open>Without a configured DronePort topic the session still starts NOT\_REGISTERED, not DISABLED:
  the orchestrator topic has a default and is never empty.\<close>

theorem droneport_never_starts_disabled:
  "droneportPhase (snd (New_em h cfg)) = DroneportPhaseNotRegistered \<and>
   dpOrchestrator (droneport (fst (New_em h cfg))) \<noteq> []"
  by (simp add: New_em_def Let_def loadDroneportConfig_def)

end
