(* ===== verification/System_Safety.thy ===== *)
theory System_Safety
  imports Drone_System Emergency_Protocol
begin

text \<open>
  The core of the drone, monitor and actuators: the actuators move only by commands that the monitor's gate has let
  through, and the messages of the emergency protocol, once they are on the broker, can always be carried through the
  monitor to the actuators, from every state the core can be in. The locale \<open>hosted_process\<close> says once how a process of a
  larger system serves a message; each process of the drone interprets it.
\<close>

section \<open>Running a goroutine to its end\<close>

inductive psteps :: "'s \<Rightarrow> ('s, 'a) prog \<Rightarrow> event list \<Rightarrow> 's \<Rightarrow> ('s, 'a) prog \<Rightarrow> bool" where
  stop: "psteps s p [] s p"
| more: "pstep s p l s1 p1 \<Longrightarrow> psteps s1 p1 l' s' p' \<Longrightarrow> psteps s p (l @ l') s' p'"

lemma run_psteps: "run E p s tr = (a, s', tr') \<Longrightarrow> \<exists>new. tr' = tr @ new \<and> psteps s p new s' (Ret a)"
proof (induction p arbitrary: s tr)
  case (Ret x)
  then show ?case by (auto intro: psteps.stop)
next
  case (Atom u k)
  then show ?case using psteps.more [OF pstep.atom] by fastforce
next
  case (Pub t m k)
  let ?e = "on_pub E tr t m"
  from Pub obtain new where "tr' = (tr @ [Published t m ?e]) @ new" "psteps s (k ?e) new s' (Ret a)"
    by (fastforce simp: Let_def)
  then show ?case using psteps.more [OF pstep.pub [of s t m k ?e]] by fastforce
next
  case (Req t m x k)
  let ?e = "on_req E tr t m"
  from Req obtain new where "tr' = (tr @ [Requested t m ?e]) @ new" "psteps s (k ?e) new s' (Ret a)"
    by (fastforce simp: Let_def)
  then show ?case using psteps.more [OF pstep.req [of s t m x k ?e]] by fastforce
next
  case (Now k)
  let ?e = "on_now E tr"
  from Now obtain new where "tr' = (tr @ [Clock ?e]) @ new" "psteps s (k ?e) new s' (Ret a)"
    by (fastforce simp: Let_def)
  then show ?case using psteps.more [OF pstep.now [of s k ?e]] by fastforce
qed

text \<open>A system in which a process runs: \<open>R\<close> are its steps, \<open>sel\<close> reads the process, \<open>frame\<close> the parts that its
  steps leave alone, \<open>fl\<close> the messages on the broker, and \<open>H\<close> the programs the process may start.\<close>

locale hosted_process =
  fixes R :: "'d \<Rightarrow> 'd \<Rightarrow> bool" and sel :: "'d \<Rightarrow> 's proc" and frame :: "'d \<Rightarrow> 'f"
    and fl :: "'d \<Rightarrow> (string \<times> gmap) set" and H :: "'d \<Rightarrow> ('s, unit) prog set"
  assumes hosted: "proc_step (H d) (sel d) l x' \<Longrightarrow>
    \<exists>d'. R d d' \<and> sel d' = x' \<and> frame d' = frame d \<and> fl d' = fl d \<union> \<Union> (on_wire ` set l)"
begin

lemma process_runs:
  assumes "psteps s p l s' p'" "sel d = (s, p # ps)"
  shows "\<exists>d'. R\<^sup>*\<^sup>* d d' \<and> sel d' = (s', p' # ps) \<and> frame d' = frame d \<and> fl d' = fl d \<union> \<Union> (on_wire ` set l)"
  using assms
proof (induction arbitrary: d rule: psteps.induct)
  case (stop s p)
  then show ?case by auto
next
  case (more s p l s1 p1 l' s' p')
  have "proc_step (H d) (sel d) l (s1, p1 # ps)"
    using proc_step.advance [of 0 "p # ps" s l s1 p1] more.prems more.hyps(1) by simp
  then obtain d1 where d1: "R d d1" "sel d1 = (s1, p1 # ps)" "frame d1 = frame d"
    "fl d1 = fl d \<union> \<Union> (on_wire ` set l)" using hosted by blast
  obtain d' where "R\<^sup>*\<^sup>* d1 d'" "sel d' = (s', p' # ps)" "frame d' = frame d1"
    "fl d' = fl d1 \<union> \<Union> (on_wire ` set l')" using more.IH [OF d1(2)] by blast
  then show ?case using d1 by (intro exI [of _ d']) (auto intro: converse_rtranclp_into_rtranclp)
qed

text \<open>The process starts a program and runs it to its end.\<close>

lemma serves:
  assumes "p \<in> H d"
  shows "\<exists>d'. R\<^sup>*\<^sup>* d d' \<and> fst (sel d') = final E p (fst (sel d)) \<and> frame d' = frame d \<and>
      fl d' = fl d \<union> \<Union> (on_wire ` set (snd (snd (run E p (fst (sel d)) []))))"
proof -
  obtain s ps where sp: "sel d = (s, ps)" by (cases "sel d")
  obtain a s' tr where run: "run E p s [] = (a, s', tr)" by (cases "run E p s []") auto
  then have ps: "psteps s p tr s' (Ret a)" using run_psteps [OF run] by auto
  have "proc_step (H d) (sel d) [] (s, p # ps)" using assms sp by (simp add: proc_step.arrive)
  then obtain d1 where d1: "R d d1" "sel d1 = (s, p # ps)" "frame d1 = frame d" "fl d1 = fl d"
    using hosted by fastforce
  obtain d' where "R\<^sup>*\<^sup>* d1 d'" "sel d' = (s', Ret a # ps)" "frame d' = frame d1" "fl d' = fl d1 \<union> \<Union> (on_wire ` set tr)"
    using process_runs [OF ps d1(2)] by blast
  then show ?thesis
    using d1 sp run by (intro exI [of _ d']) (auto simp: run_views intro: converse_rtranclp_into_rtranclp)
qed

end

interpretation monitor_process: hosted_process "sys_step c" sysMonitor "\<lambda>d. (sysMotors d, sysCargo d)" flight
    "\<lambda>d. sm_dispatch (cfgMonitor c) ` inbox d (monitorTopic c) \<union> {checkHeartbeatTimeout (cfgMonitor c)}" for c
  by unfold_locales (rule exI, rule conjI, erule sys_step.monitor, simp)

interpretation motors_process: hosted_process "sys_step c" sysMotors "\<lambda>d. (sysMonitor d, sysCargo d)" flight
    "\<lambda>d. motors_dispatch (cfgLibm c) (cfgMotors c) ` inbox d (motorsTopic c)" for c
  by unfold_locales (rule exI, rule conjI, erule sys_step.motors, simp)

interpretation cargo_process: hosted_process "sys_step c" sysCargo "\<lambda>d. (sysMonitor d, sysMotors d)" flight
    "\<lambda>d. cargo_dispatch (cfgCargo c) ` inbox d (cargoTopic c)" for c
  by unfold_locales (rule exI, rule conjI, erule sys_step.cargo, simp)

section \<open>The three processes serve their messages\<close>

lemma wire_map_put: "wire_map m \<noteq> None \<Longrightarrow> wire_map (put k (GStr x) m) \<noteq> None"
  by (induction m) (auto split: option.splits)

lemma on_wire_sent:
  assumes "(t, f) \<in> set (sent l)" "wire_map f \<noteq> None"
  shows "\<exists>f' \<in> {f'. (t, f') \<in> \<Union> (on_wire ` set l)}.
    get_str f' ''sender'' = get_str f ''sender'' \<and> get_str f' ''action'' = get_str f ''action''"
  using assms(1)
proof (induction l rule: sent.induct)
  case (2 t' m e l)
  obtain f' where "wire_map f = Some f'" using assms(2) by auto
  then have "(t, f) = (t', m) \<Longrightarrow> ?case" by (auto simp: get_str_wire [of f f'])
  then show ?case using 2 by auto
next
  case (3 t' m r l)
  obtain f' where f': "wire_map (put ''reply_to'' (GStr []) (put ''correlation_id'' (GStr []) f)) = Some f'"
    using wire_map_put [OF wire_map_put [OF assms(2)], of "''reply_to''" "[]" "''correlation_id''" "[]"] by auto
  then have "get_str f' ''sender'' = get_str f ''sender''" "get_str f' ''action'' = get_str f ''action''"
    by (simp_all add: get_str_wire)
  then have "(t, f) = (t', m) \<Longrightarrow> ?case" using f' by auto
  then show ?case using 3 by auto
qed auto

text \<open>A message with these two fields has arrived.\<close>

definition arrived :: "sys \<Rightarrow> string \<Rightarrow> string \<Rightarrow> string \<Rightarrow> bool" where
  "arrived d t sender action \<longleftrightarrow> (\<exists>m. (t, m) \<in> flight d \<and> get_str m ''sender'' = sender \<and> get_str m ''action'' = action)"

lemma monitor_serves:
  assumes "(monitorTopic c, m) \<in> flight d"
  shows "\<exists>d'. (sys_step c)\<^sup>*\<^sup>* d d' \<and> fst (sysMonitor d') = final E (sm_dispatch (cfgMonitor c) m) (fst (sysMonitor d)) \<and>
    sysMotors d' = sysMotors d \<and> sysCargo d' = sysCargo d \<and>
    flight d' = flight d \<union> \<Union> (on_wire ` set (snd (snd (run E (sm_dispatch (cfgMonitor c) m) (fst (sysMonitor d)) []))))"
  using monitor_process.serves [of "sm_dispatch (cfgMonitor c) m" c d E] assms by (auto simp: inbox_def)

lemma monitor_passes:
  assumes "(monitorTopic c, m) \<in> flight d"
  shows "\<exists>d'. (sys_step c)\<^sup>*\<^sup>* d d' \<and> fst (sysMonitor d') = final E (sm_dispatch (cfgMonitor c) m) (fst (sysMonitor d)) \<and>
    flight d \<subseteq> flight d' \<and>
    (\<forall>(t, f) \<in> set (outputs E (sm_dispatch (cfgMonitor c) m) (fst (sysMonitor d))). wire_map f \<noteq> None \<longrightarrow>
       arrived d' t (get_str f ''sender'') (get_str f ''action''))"
proof -
  obtain d' where "(sys_step c)\<^sup>*\<^sup>* d d'" "fst (sysMonitor d') = final E (sm_dispatch (cfgMonitor c) m) (fst (sysMonitor d))"
    and fl: "flight d' = flight d \<union> \<Union> (on_wire ` set (snd (snd (run E (sm_dispatch (cfgMonitor c) m) (fst (sysMonitor d)) []))))"
    using monitor_serves [OF assms, of E] by blast
  moreover have "arrived d' t (get_str f ''sender'') (get_str f ''action'')"
    if "(t, f) \<in> set (outputs E (sm_dispatch (cfgMonitor c) m) (fst (sysMonitor d)))" "wire_map f \<noteq> None" for t f
    using on_wire_sent [of t f] that fl by (fastforce simp: arrived_def outputs_def)
  ultimately show ?thesis by (intro exI [of _ d']) auto
qed

lemma motors_serves:
  assumes "(motorsTopic c, m) \<in> flight d"
  shows "\<exists>d'. (sys_step c)\<^sup>*\<^sup>* d d' \<and> sysMonitor d' = sysMonitor d \<and> sysCargo d' = sysCargo d \<and> flight d \<subseteq> flight d' \<and>
    fst (sysMotors d') = final E (motors_dispatch (cfgLibm c) (cfgMotors c) m) (fst (sysMotors d))"
  using motors_process.serves [of "motors_dispatch (cfgLibm c) (cfgMotors c) m" c d E] assms by (auto simp: inbox_def)

lemma cargo_serves:
  assumes "(cargoTopic c, m) \<in> flight d"
  shows "\<exists>d'. (sys_step c)\<^sup>*\<^sup>* d d' \<and> sysMonitor d' = sysMonitor d \<and> sysMotors d' = sysMotors d \<and> flight d \<subseteq> flight d' \<and>
    fst (sysCargo d') = final E (cargo_dispatch (cfgCargo c) m) (fst (sysCargo d))"
  using cargo_process.serves [of "cargo_dispatch (cfgCargo c) m" c d E] assms by (auto simp: inbox_def)

text \<open>What the two commands do, whoever reads the replies.\<close>

lemma motors_lands:
  assumes "get_str m ''sender'' = ''security_monitor''" "get_str m ''action'' = ''LAND''"
  shows "motMode (final E (motors_dispatch L c m) s) = ModeLANDING"
proof -
  have d: "distinct (map fst (motors_registerHandlers L c))" by (simp add: motors_registerHandlers_def)
  show ?thesis
    unfolding motors_dispatch_def final_registered [OF d]
    by (simp add: assms motors_registerHandlers_def handleLand_def IsTrustedSender_iff final_def emitSITL_def Let_def)
qed

lemma cargo_closes:
  assumes "get_str m ''sender'' = ''security_monitor''" "get_str m ''action'' = ''CLOSE''"
  shows "door (final E (cargo_dispatch c m) s) = StateClosed"
proof -
  have d: "distinct (map fst (cargo_registerHandlers c))" by (simp add: cargo_registerHandlers_def)
  show ?thesis
    unfolding cargo_dispatch_def final_registered [OF d]
    using run_setState(1) [of E c StateClosed s "[]"]
    by (auto simp: assms cargo_registerHandlers_def handleClose_def IsTrustedSender_iff final_def replyDoor_def
        split: prod.splits)
qed

section \<open>Through the monitor\<close>

lemma TrimSpace_topic:
  assumes "TrimSpace nm \<noteq> []"
  shows "TrimSpace (BrokerTopicFor c nm) = BrokerTopicFor c nm"
proof (rule TrimSpace_id)
  show "\<not> is_space (last (BrokerTopicFor c nm))"
    using assms TrimSpace_ends(2) [OF assms] by (simp add: BrokerTopicFor_def)
  have "\<not> is_space (hd (orElse (TrimSpace x) d))" if "\<not> is_space (hd d)" for x d
    using that TrimSpace_ends(1) [of x] by (simp add: orElse_def)
  then show "\<not> is_space (hd (BrokerTopicFor c nm))"
    using TrimSpace_ends(1) [of "TopicPrefixEnv c"]
    by (auto simp: BrokerTopicFor_def TopicPrefix_def Let_def is_space_def)
qed simp

lemma sm_dispatch_outputs:
  assumes "get_str m ''action'' = ''proxy_publish''" "(t, f) \<in> set (outputs E (handleProxyPublish c m) s)"
  shows "(t, f) \<in> set (outputs E (sm_dispatch c m) s)"
proof -
  have h: "map_of (registered (smBase c) (sm_registerHandlers c)) ''proxy_publish'' = Some (handleProxyPublish c)"
    by (rule map_of_registered) (simp_all add: sm_registerHandlers_def)
  obtain k where "sm_dispatch c m = bind (handleProxyPublish c m) k"
    using assms(1) h by (simp add: sm_dispatch_def handleMessage_def Let_def)
  moreover obtain a s' tr where run: "run E (handleProxyPublish c m) s [] = (a, s', tr)"
    by (cases "run E (handleProxyPublish c m) s []") auto
  moreover obtain new where "snd (snd (run E (k a) s' tr)) = tr @ new" using run_appends [of E "k a" s' tr] by auto
  ultimately show ?thesis using assms(2) by (simp add: outputs_def run_bind)
qed

text \<open>While ISOLATED, the recovery commands of the emergency component pass the gate.\<close>

lemma isolated_passes:
  assumes "sm_inv c s" "gIsolated (gate_of s)" "pxSender p = ''emergency''"
    and "key ''emergency'' (BrokerTopicFor (smConfig c) nm) a \<in> set (emergencyPolicies c)" "TrimSpace nm \<noteq> []" "TrimSpace a = a" "a \<noteq> []"
  shows "(BrokerTopicFor (smConfig c) nm, forward_msg c a d) \<in>
    set (outputs E (sm_dispatch c (proxy_msg p ''proxy_publish'' (BrokerTopicFor (smConfig c) nm) a d)) s)"
proof (rule sm_dispatch_outputs)
  let ?m = "proxy_msg p ''proxy_publish'' (BrokerTopicFor (smConfig c) nm) a d"
  show "get_str ?m ''action'' = ''proxy_publish''" by (simp add: proxy_msg_def get_str_def)
  have "gate_forwards c ?m (gate_of s) = [(BrokerTopicFor (smConfig c) nm, forward_msg c a d)]"
    using assms by (simp add: gate_forwards_def proxy_msg_def get_map_def extractTarget_def getStr_def str_def
        TrimSpace_topic proxy_sender_def get_str_def gate_allows_def nilmap_def Let_def)
  then show "(BrokerTopicFor (smConfig c) nm, forward_msg c a d) \<in> set (outputs E (handleProxyPublish c ?m) s)"
    using proxy_handlers_run(1) [OF assms(1), of E ?m] by simp
qed

lemma proxy_gate_step: "gate_step c (proxy_msg p ''proxy_publish'' t a d) g = g"
  by (simp add: gate_step_def proxy_msg_def get_str_def)

text \<open>The emergency component is wired to this system: same topics, under its own name.\<close>

definition wired_to :: "em_cfg \<Rightarrow> sys_cfg \<Rightarrow> bool" where
  "wired_to e c \<longleftrightarrow> bcID (emBase e) = ''emergency'' \<and> pxSender (emProxy e) = ''emergency'' \<and>
     emMonitor e = monitorTopic c \<and> pxMonitor (emProxy e) = monitorTopic c \<and>
     emMotors e = BrokerTopicFor (smConfig (cfgMonitor c)) ''motors'' \<and> motorsTopic c = emMotors e \<and>
     emCargo e = BrokerTopicFor (smConfig (cfgMonitor c)) ''cargo'' \<and> cargoTopic c = emCargo e"

definition published :: "(string \<times> gmap) list \<Rightarrow> sys \<Rightarrow> bool" where
  "published ms d \<longleftrightarrow> (\<forall>(t, m) \<in> set ms. on_wire (Published t m None) \<subseteq> flight d)"

text \<open>One recovery command: from an isolated state to one where it has arrived at its target.\<close>

lemma recovery_command:
  assumes "deployment c d0" "(sys_step c)\<^sup>*\<^sup>* d0 d" "gIsolated (gate_of (fst (sysMonitor d)))" "pxSender p = ''emergency''"
    and "(nm, a) \<in> {(''motors'', ''LAND''), (''cargo'', ''CLOSE'')}" "json_map data"
    and "t = BrokerTopicFor (smConfig (cfgMonitor c)) nm"
    and "(monitorTopic c, proxy_msg p ''proxy_publish'' t a data) \<in> flight d"
  shows "\<exists>d'. (sys_step c)\<^sup>*\<^sup>* d d' \<and> gIsolated (gate_of (fst (sysMonitor d'))) \<and> flight d \<subseteq> flight d' \<and>
    arrived d' t ''security_monitor'' a"
proof -
  let ?m = "proxy_msg p ''proxy_publish'' t a data" and ?c = "cfgMonitor c" and ?s = "fst (sysMonitor d)"
  have inv: "sm_inv ?c ?s" using system_inv [OF assms(1,2)] by (auto simp: sys_inv_def)
  have id: "bcID (smBase ?c) = ''security_monitor''"
    using assms(1) by (auto simp: deployment_def New_sm_def Let_def SecurityMonitorComponentID_def)
  have "wire_map (forward_msg ?c a data) \<noteq> None"
    using wire_json_map [OF assms(6)] by (simp add: forward_msg_def)
  moreover have "(t, forward_msg ?c a data) \<in> set (outputs demo_env (sm_dispatch ?c ?m) ?s)"
    using isolated_passes [OF inv assms(3,4), of nm a data demo_env] assms(5,7)
    by (auto simp: emergencyPolicies_def Let_def TrimSpace_def is_space_def)
  moreover obtain d' where d': "(sys_step c)\<^sup>*\<^sup>* d d'" "fst (sysMonitor d') = final demo_env (sm_dispatch ?c ?m) ?s"
    "flight d \<subseteq> flight d'" "\<forall>(t, f) \<in> set (outputs demo_env (sm_dispatch ?c ?m) ?s). wire_map f \<noteq> None \<longrightarrow>
       arrived d' t (get_str f ''sender'') (get_str f ''action'')"
    using monitor_passes [OF assms(8), of demo_env] by blast
  ultimately have "arrived d' t ''security_monitor'' a" by (fastforce simp: forward_msg_def get_str_def id)
  moreover have "gIsolated (gate_of (fst (sysMonitor d')))"
    using gate_dispatch [OF inv, of demo_env ?m] d'(2) assms(3) by (simp add: proxy_gate_step)
  ultimately show ?thesis using d' by blast
qed

lemma isolation_served:
  assumes "deployment c d0" "(sys_step c)\<^sup>*\<^sup>* d0 d" "(monitorTopic c, m) \<in> flight d"
    and "get_str m ''action'' = ''ISOLATION_START''" "get_str m ''sender'' = ''emergency''"
  shows "\<exists>d'. (sys_step c)\<^sup>*\<^sup>* d d' \<and> gIsolated (gate_of (fst (sysMonitor d'))) \<and> flight d \<subseteq> flight d'"
proof -
  let ?s = "fst (sysMonitor d)"
  have inv: "sm_inv (cfgMonitor c) ?s" using system_inv [OF assms(1,2)] by (auto simp: sys_inv_def)
  obtain d' where "(sys_step c)\<^sup>*\<^sup>* d d'" "fst (sysMonitor d') = final demo_env (sm_dispatch (cfgMonitor c) m) ?s" "flight d \<subseteq> flight d'"
    using monitor_passes [OF assms(3), of demo_env] by blast
  moreover have "gIsolated (gate_step (cfgMonitor c) m (gate_of ?s))"
    by (simp add: gate_step_def assms(4,5) may_switch_def)
  ultimately show ?thesis using gate_dispatch [OF inv, of demo_env m] by (intro exI [of _ d']) simp
qed

text \<open>The run of the protocol through the three processes.\<close>

lemma protocol_run:
  assumes "deployment c d0" and "(sys_step c)\<^sup>*\<^sup>* d0 d" and "wired_to e c" and "published (protocol e mid details) d"
  shows "\<exists>d'. (sys_step c)\<^sup>*\<^sup>* d d' \<and> Mode (safetyState (fst (sysMonitor d'))) = ModeIsolated \<and>
     door (fst (sysCargo d')) = StateClosed \<and> motMode (fst (sysMotors d')) = ModeLANDING"
proof -
  let ?p = "emProxy e" and ?R = "(sys_step c)\<^sup>*\<^sup>*"
  let ?close = "proxy_msg ?p ''proxy_publish'' (emCargo e) ''CLOSE'' [(''reason'', GStr ''emergency'')]"
  let ?land = "proxy_msg ?p ''proxy_publish'' (emMotors e) ''LAND'' [(''mode'', GStr ''AUTO_LAND''), (''reason'', GStr ''emergency'')]"
  have fl: "(monitorTopic c, isolation_msg e mid) \<in> flight d" "(monitorTopic c, ?close) \<in> flight d" "(monitorTopic c, ?land) \<in> flight d"
    using assms(3,4) by (auto simp: published_def protocol_def wired_to_def isolation_msg_def proxy_msg_def Let_def)
  note w = assms(3) [unfolded wired_to_def]
  obtain d1 where d1: "?R d d1" "gIsolated (gate_of (fst (sysMonitor d1)))" "flight d \<subseteq> flight d1"
    using isolation_served [OF assms(1,2) fl(1)] w by (auto simp: isolation_msg_def get_str_def)
  have r1: "?R d0 d1" using assms(2) d1(1) by simp
  obtain d2 where d2: "?R d1 d2" "gIsolated (gate_of (fst (sysMonitor d2)))" "flight d1 \<subseteq> flight d2"
      "arrived d2 (cargoTopic c) ''security_monitor'' ''CLOSE''"
    using recovery_command [OF assms(1) r1 d1(2), of ?p "''cargo''" "''CLOSE''" "[(''reason'', GStr ''emergency'')]" "emCargo e"]
      subsetD [OF d1(3) fl(2)] w by (auto simp: json_map_def)
  have r2: "?R d0 d2" using r1 d2(1) by simp
  obtain d3 where d3: "?R d2 d3" "gIsolated (gate_of (fst (sysMonitor d3)))" "flight d2 \<subseteq> flight d3"
      "arrived d3 (motorsTopic c) ''security_monitor'' ''LAND''"
    using recovery_command [OF assms(1) r2 d2(2), of ?p "''motors''" "''LAND''"
        "[(''mode'', GStr ''AUTO_LAND''), (''reason'', GStr ''emergency'')]" "emMotors e"]
      subsetD [OF d2(3) subsetD [OF d1(3) fl(3)]] w by (auto simp: json_map_def)
  obtain mc where mc: "(cargoTopic c, mc) \<in> flight d3" "get_str mc ''sender'' = ''security_monitor''" "get_str mc ''action'' = ''CLOSE''"
    using d2(4) d3(3) by (auto simp: arrived_def)
  obtain d4 where d4: "?R d3 d4" "sysMonitor d4 = sysMonitor d3" "sysMotors d4 = sysMotors d3" "flight d3 \<subseteq> flight d4"
      "door (fst (sysCargo d4)) = StateClosed"
    using cargo_serves [OF mc(1), of demo_env] cargo_closes [OF mc(2,3)] by metis
  obtain ml where ml: "(motorsTopic c, ml) \<in> flight d4" "get_str ml ''sender'' = ''security_monitor''" "get_str ml ''action'' = ''LAND''"
    using d3(4) d4(4) by (auto simp: arrived_def)
  obtain d5 where d5: "?R d4 d5" "sysMonitor d5 = sysMonitor d4" "sysCargo d5 = sysCargo d4" "motMode (fst (sysMotors d5)) = ModeLANDING"
    using motors_serves [OF ml(1), of demo_env] motors_lands [OF ml(2,3)] by metis
  have "?R d d5" using d1(1) d2(1) d3(1) d4(1) d5(1) by auto
  moreover have "Mode (safetyState (fst (sysMonitor d5))) = ModeIsolated" using d3(2) d4(2) d5(2) by (simp add: gate_of_def)
  ultimately show ?thesis using d4(5) d5(3,4) by (intro exI [of _ d5]) simp
qed

section \<open>Complete mediation\<close>

text \<open>In every execution of the deployed system, whatever the world sends and however the
  goroutines and the broker interleave, the state of the motors or of the cargo bay changes only when a
  matching command of the monitor is on the broker, and the monitor has passed that command on for a client
  whose (sender, topic, action) triple its gate allowed in a state the monitor was in.\<close>

lemma core_mediated:
  assumes "deployment c d0" and "(sys_step c)\<^sup>*\<^sup>* d0 d" and "sys_step c d d'"
  shows "(fst (sysMotors d') \<noteq> fst (sysMotors d) \<longrightarrow> (\<exists>a m0 s. a \<in> {''SET_TARGET'', ''LAND''} \<and>
       (monitorTopic c, m0) \<in> flight d \<and> s \<in> visited d \<and>
       gate_allows (cfgMonitor c) (gate_of s) (key (proxy_sender m0) (motorsTopic c) a))) \<and>
     (fst (sysCargo d') \<noteq> fst (sysCargo d) \<longrightarrow> (\<exists>a m0 s. a \<in> {''OPEN'', ''CLOSE''} \<and>
       (monitorTopic c, m0) \<in> flight d \<and> s \<in> visited d \<and>
       gate_allows (cfgMonitor c) (gate_of s) (key (proxy_sender m0) (cargoTopic c) a)))"
proof -
  note inv = system_inv [OF assms(1,2)]
  have am: "actuators_modest c" using deployment_start [OF assms(1)] by simp
  have auth: "\<exists>a m0 s. a \<in> cmds \<and> (monitorTopic c, m0) \<in> flight d \<and> s \<in> visited d \<and>
       gate_allows (cfgMonitor c) (gate_of s) (key (proxy_sender m0) t a)"
    if "\<exists>m. (t, m) \<in> flight d \<and> get_str m ''sender'' = ''security_monitor'' \<and> get_str m ''action'' \<in> cmds"
      and "''response'' \<notin> cmds" "''LOG_EVENT'' \<notin> cmds" for t cmds
  proof -
    from that(1) obtain m where m: "(t, m) \<in> flight d" "get_str m ''sender'' = ''security_monitor''" "get_str m ''action'' \<in> cmds"
      by blast
    have "genuine c d (t, m)" using inv m(1) by (simp add: sys_inv_def)
    then have "authorised c d t (get_str m ''action'')" using m(2,3) that(2,3) by (auto simp: genuine_def)
    then show ?thesis using m(3) unfolding authorised_def by blast
  qed
  have mot: "\<exists>m. (motorsTopic c, m) \<in> flight d \<and> get_str m ''sender'' = ''security_monitor'' \<and> get_str m ''action'' \<in> {''SET_TARGET'', ''LAND''}"
    if ne: "fst (sysMotors d') \<noteq> fst (sysMotors d)"
    using assms(3)
  proof (cases rule: sys_step.cases)
    case (motors l p')
    then show ?thesis using motors_step [OF am inv motors(2)] ne by simp
  qed (use ne in simp_all)
  have car: "\<exists>m. (cargoTopic c, m) \<in> flight d \<and> get_str m ''sender'' = ''security_monitor'' \<and> get_str m ''action'' \<in> {''OPEN'', ''CLOSE''}"
    if ne: "fst (sysCargo d') \<noteq> fst (sysCargo d)"
    using assms(3)
  proof (cases rule: sys_step.cases)
    case (cargo l p')
    then show ?thesis using cargo_step [OF am inv cargo(2)] ne by simp
  qed (use ne in simp_all)
  show ?thesis using auth [OF mot] auth [OF car] by simp
qed

section \<open>Sample settings\<close>

definition host_for :: "string \<Rightarrow> host" where
  "host_for nm = demo_host\<lparr>Getenv := (\<lambda>k. if k = ''COMPONENT_ID'' then nm else [])\<rparr>"

definition cfg_for :: "string \<Rightarrow> Config" where
  "cfg_for nm = FromEnv (host_for nm)"

lemma demo_topics: "BrokerTopicFor (cfg_for a) ''motors'' = ''v1.deliverydron.Delivery001.motors''"
  "BrokerTopicFor (cfg_for a) ''cargo'' = ''v1.deliverydron.Delivery001.cargo''"
  "BrokerTopicFor (cfg_for a) ''security_monitor'' = ''v1.deliverydron.Delivery001.security_monitor''"
  by (simp_all add: cfg_for_def BrokerTopicFor_def TopicPrefix_def FromEnv_def Let_def host_for_def TrimSpace_def is_space_def
      EqualFold_def ToLower_def lower_char_def BrokerCredentials_def)

lemma demo_own_topics: "nm \<noteq> [] \<Longrightarrow> ComponentTopic (cfg_for nm) = ''v1.deliverydron.Delivery001.'' @ TrimSpace nm"
  "ComponentID (cfg_for ''emergency'') = ''emergency''" "Getenv (host_for nm) ''SECURITY_MONITOR_TOPIC'' = []"
  by (simp_all add: cfg_for_def BrokerTopicFor_def TopicPrefix_def FromEnv_def Let_def host_for_def TrimSpace_def is_space_def
      EqualFold_def ToLower_def lower_char_def BrokerCredentials_def)

end
