(* ===== verification/Lifecycle.thy ===== *)
theory Lifecycle
  imports Message_Bus Monitor_Policies Navigation Delivery Limiter_Safety Autopilot_Safety Mission_Load Telemetry System_Safety
begin

text \<open>
  A component as a process: the interface \<^verbatim>\<open>bus.Bus\<close>, \<^verbatim>\<open>Start\<close> and \<^verbatim>\<open>Stop\<close> of the component base and of the components
  that run a loop (\<^verbatim>\<open>component/src/loop.go\<close>), and the twelve programs under \<^verbatim>\<open>cmd\<close>. A process runs its main function, the
  goroutines of its loops and the handlers of arriving messages, interleaved at every effect.
\<close>

section \<open>The bus interface\<close>

text \<open>The outcomes of the network and the two clock readings of the constructors.\<close>

record net =
  nwNow :: int
  nwNow2 :: int
  nwConn :: "string option"
  nwGroup :: "string option"

datatype 'h Bus = KafkaBus kafka_cfg "'h kafka_bus" | MqttBus mqtt_cfg "'h mqtt_bus"

fun openBus :: "adapter \<Rightarrow> 'h Bus" where
  "openBus (Kafka c) = KafkaBus c \<lparr>kHandlers = [], kProducer = False, kConsumes = None, kRunning = False\<rparr>"
| "openBus (Mqtt c) = MqttBus c \<lparr>mHandlers = [], mClient = None, mRunning = False\<rparr>"

text \<open>Neither adapter ever returns an error from \<^verbatim>\<open>Subscribe\<close>, \<^verbatim>\<open>Unsubscribe\<close> or \<^verbatim>\<open>Stop\<close>.\<close>

fun bus_Subscribe :: "string \<Rightarrow> 'h \<Rightarrow> 'h Bus \<Rightarrow> string option \<times> 'h Bus" where
  "bus_Subscribe t f (KafkaBus c b) = (None, KafkaBus c (kafka_Subscribe t f b))"
| "bus_Subscribe t f (MqttBus c b) = (None, MqttBus c (mqtt_Subscribe t f b))"

fun bus_Unsubscribe :: "string \<Rightarrow> 'h Bus \<Rightarrow> string option \<times> 'h Bus" where
  "bus_Unsubscribe t (KafkaBus c b) = (None, KafkaBus c (kafka_Unsubscribe t b))"
| "bus_Unsubscribe t (MqttBus c b) = (None, MqttBus c (mqtt_Unsubscribe t b))"

fun bus_Start :: "net \<Rightarrow> 'h Bus \<Rightarrow> string option \<times> 'h Bus" where
  "bus_Start n (KafkaBus c b) = map_prod id (KafkaBus c) (kafka_Start c (nwConn n) (nwGroup n) b)"
| "bus_Start n (MqttBus c b) = map_prod id (MqttBus c) (mqtt_Start c (nwConn n) b)"

fun bus_Stop :: "'h Bus \<Rightarrow> string option \<times> 'h Bus" where
  "bus_Stop (KafkaBus c b) = (None, KafkaBus c (kafka_Stop b))"
| "bus_Stop (MqttBus c b) = (None, MqttBus c (mqtt_Stop b))"

fun bus_running :: "'h Bus \<Rightarrow> bool" where
  "bus_running (KafkaBus c b) = kRunning b"
| "bus_running (MqttBus c b) = mRunning b"

text \<open>What a publication does to the adapter: it may have to connect first.\<close>

fun bus_Publish :: "net \<Rightarrow> string option \<Rightarrow> gmap \<Rightarrow> 'h Bus \<Rightarrow> 'h Bus" where
  "bus_Publish n e m (KafkaBus c b) = KafkaBus c (snd (publishJSON (nwConn n) e [] m b))"
| "bus_Publish n e m (MqttBus c b) = MqttBus c (snd (mqtt_Publish (nwConn n) e [] m b))"

text \<open>A request starts a bus that is not running.\<close>

definition bus_Request :: "net \<Rightarrow> gmap \<Rightarrow> 'h Bus \<Rightarrow> 'h Bus" where
  "bus_Request n m b =
     (if bus_running b then bus_Publish n None m b
      else case bus_Start n b of (Some _, b') \<Rightarrow> b' | (None, b') \<Rightarrow> bus_Publish n None m b')"

fun bus_used :: "net \<Rightarrow> event \<Rightarrow> 'h Bus \<Rightarrow> 'h Bus" where
  "bus_used n (Published t m e) b = bus_Publish n e m b"
| "bus_used n (Requested t m r) b = bus_Request n m b"
| "bus_used n (Clock k) b = b"

text \<open>The table of handlers, the topics the broker delivers, and the topic for answers.\<close>

fun bus_table :: "'h Bus \<Rightarrow> string \<rightharpoonup> 'h" where
  "bus_table (KafkaBus c b) = map_of (kHandlers b)"
| "bus_table (MqttBus c b) = map_of (mHandlers b)"

fun bus_hears :: "'h Bus \<Rightarrow> string set" where
  "bus_hears (KafkaBus c b) = (case kConsumes b of None \<Rightarrow> {} | Some ts \<Rightarrow> set ts)"
| "bus_hears (MqttBus c b) = (case mClient b of None \<Rightarrow> {} | Some cl \<Rightarrow> if clConnected cl then set (clTopics cl) else {})"

fun bus_replies :: "'h Bus \<Rightarrow> string" where
  "bus_replies (KafkaBus c b) = kReplyTopic c"
| "bus_replies (MqttBus c b) = mReplyTopic c"

text \<open>What a component relies on.\<close>

locale bus_interface =
  fixes subscribe :: "string \<Rightarrow> 'h \<Rightarrow> 'b \<Rightarrow> string option \<times> 'b"
    and unsubscribe :: "string \<Rightarrow> 'b \<Rightarrow> string option \<times> 'b"
    and start :: "net \<Rightarrow> 'b \<Rightarrow> string option \<times> 'b"
    and stop :: "'b \<Rightarrow> string option \<times> 'b"
    and up :: "'b \<Rightarrow> bool"
    and table :: "'b \<Rightarrow> string \<rightharpoonup> 'h"
    and hears :: "'b \<Rightarrow> string set"
    and replies :: "'b \<Rightarrow> string"
  assumes subscribe_law: "subscribe t f b = (e, b') \<Longrightarrow> e = None \<and> table b' = (table b)(t \<mapsto> f) \<and> up b' = up b \<and> replies b' = replies b"
    and unsubscribe_law: "unsubscribe t b = (e, b') \<Longrightarrow> e = None \<and> table b' = (table b)(t := None) \<and> up b' = up b"
    and start_law: "\<not> up b \<Longrightarrow> start n b = (e, b') \<Longrightarrow> e = None \<Longrightarrow>
        up b' \<and> table b' = table b \<and> replies b' = replies b \<and> (nwGroup n = None \<longrightarrow> insert (replies b) (dom (table b)) \<subseteq> hears b')"
    and start_error: "\<not> up b \<Longrightarrow> start n b = (Some x, b') \<Longrightarrow> nwConn n = Some x"
    and stop_law: "stop b = (e, b') \<Longrightarrow> e = None \<and> \<not> up b' \<and> table b' = table b \<and> (up b \<longrightarrow> hears b' = {})"
begin

lemma start_serves:
  assumes "\<not> up b" "subscribe t f b = (None, b1)" "start n b1 = (None, b2)"
  shows "up b2 \<and> table b2 t = Some f \<and> (nwGroup n = None \<longrightarrow> {t, replies b2} \<subseteq> hears b2)"
proof -
  have b1: "table b1 = (table b)(t \<mapsto> f)" "\<not> up b1" "replies b1 = replies b" using subscribe_law [OF assms(2)] assms(1) by auto
  then show ?thesis using start_law [OF b1(2) assms(3)] by auto
qed

lemma stop_silences:
  assumes "up b" "unsubscribe t b = (e, b1)" "stop b1 = (e', b2)"
  shows "e = None \<and> e' = None \<and> \<not> up b2 \<and> table b2 t = None \<and> hears b2 = {}"
  using unsubscribe_law [OF assms(2)] stop_law [OF assms(3)] assms(1) by auto

end

lemma subscribeClient_sel [simp]:
  "clTopics (subscribeClient t cl) = clTopics cl @ [t]" "clConnected (subscribeClient t cl) = clConnected cl"
  by (simp_all add: subscribeClient_def)

lemma fold_subscribeClient [simp]:
  "clTopics (fold subscribeClient ts cl) = clTopics cl @ ts" "clConnected (fold subscribeClient ts cl) = clConnected cl"
  by (induction ts arbitrary: cl) simp_all

lemma getClient_ok:
  "getClient conn b = (None, b') \<Longrightarrow> mHandlers b' = mHandlers b \<and> mRunning b' = mRunning b \<and> (\<exists>cl. mClient b' = Some cl \<and> clConnected cl)"
  by (auto simp: getClient_def split: option.splits if_splits)

lemma getClient_error: "getClient conn b = (Some x, b') \<Longrightarrow> conn = Some x \<and> b' = b"
  by (auto simp: getClient_def split: option.splits if_splits)

lemma getProducer_ok: "getProducer conn b = (None, b') \<Longrightarrow> kHandlers b' = kHandlers b \<and> kRunning b' = kRunning b \<and> kConsumes b' = kConsumes b"
  by (auto simp: getProducer_def split: option.splits if_splits)

lemma getProducer_error: "getProducer conn b = (Some x, b') \<Longrightarrow> conn = Some x \<and> b' = b"
  by (auto simp: getProducer_def split: option.splits if_splits)

lemmas connection = getClient_ok getClient_error getProducer_ok getProducer_error

lemma set_fst_dom: "fst ` set xs = dom (map_of xs)"
  by (rule dom_map_of_conv_image_fst [symmetric])

interpretation broker: bus_interface bus_Subscribe bus_Unsubscribe bus_Start bus_Stop bus_running bus_table bus_hears bus_replies
proof (unfold_locales, goal_cases)
  case (1 t f b e b')
  then show ?case by (cases b) (auto simp: kafka_Subscribe_def mqtt_Subscribe_def Let_def split: if_splits)
next
  case (2 t b e b')
  then show ?case by (cases b) (auto simp: kafka_Unsubscribe_def mqtt_Unsubscribe_def Let_def split: if_splits)
next
  case (3 b n e b')
  then show ?case
    by (cases b) (auto simp: kafka_Start_def mqtt_Start_def startConsumer_def getTopics_def set_fst_dom
        split: prod.splits option.splits dest!: getProducer_ok getClient_ok)
next
  case (4 b n x b')
  then show ?case
    by (cases b) (auto simp: kafka_Start_def mqtt_Start_def split: prod.splits option.splits dest!: getProducer_error getClient_error)
next
  case (5 b e b')
  then show ?case by (cases b) (auto simp: kafka_Stop_def mqtt_Stop_def split: if_splits)
qed

section \<open>Loops\<close>

text \<open>Where the goroutine of a loop stands: before the test of its condition, in a round, in the \<^verbatim>\<open>select\<close>, or returned.\<close>

datatype 's pc = Check | Work "('s, unit) prog" | Select | Gone

text \<open>
  \<^verbatim>\<open>RunControlLoop\<close> with the body of a round: \<open>ended\<close> says that the context has been cancelled. When both the
  timer and the context are ready, Go's \<^verbatim>\<open>select\<close> takes either.
\<close>

inductive RunControlLoop ::
    "('x base_state_scheme, unit) prog \<Rightarrow> bool \<Rightarrow> 'x base_state_scheme \<Rightarrow> 'x base_state_scheme pc \<Rightarrow> event list
      \<Rightarrow> 'x base_state_scheme \<Rightarrow> 'x base_state_scheme pc \<Rightarrow> bool"
  for body :: "('x base_state_scheme, unit) prog" and ended :: bool and s :: "'x base_state_scheme" where
  enter: "running s \<Longrightarrow> RunControlLoop body ended s Check [] s (Work body)"
| leave: "\<not> running s \<Longrightarrow> RunControlLoop body ended s Check [] s Gone"
| effect: "pstep s p l s' p' \<Longrightarrow> RunControlLoop body ended s (Work p) l s' (Work p')"
| round: "RunControlLoop body ended s (Work (Ret ())) [] s Select"
| cancelled: "ended \<Longrightarrow> RunControlLoop body ended s Select [] s Gone"
| timer: "RunControlLoop body ended s Select [] s Check"

text \<open>The watchdog of the security monitor waits first, and does not look at the flag.\<close>

inductive watchdogLoop ::
    "('s, unit) prog \<Rightarrow> bool \<Rightarrow> 's \<Rightarrow> 's pc \<Rightarrow> event list \<Rightarrow> 's \<Rightarrow> 's pc \<Rightarrow> bool"
  for body :: "('s, unit) prog" and ended :: bool and s :: 's where
  cancelled: "ended \<Longrightarrow> watchdogLoop body ended s Select [] s Gone"
| tick: "watchdogLoop body ended s Select [] s (Work body)"
| effect: "pstep s p l s' p' \<Longrightarrow> watchdogLoop body ended s (Work p) l s' (Work p')"
| round: "watchdogLoop body ended s (Work (Ret ())) [] s Select"

inductive_cases RunControlLoopE: "RunControlLoop body ended s q l s' q'"
inductive_cases watchdogLoopE: "watchdogLoop body ended s q l s' q'"
inductive_simps at_Check: "RunControlLoop body ended s Check l s' q"

datatype 's loop =
    ControlLoop (loopBody: "('s, unit) prog") (loopAt: "'s pc")
  | Watchdog (loopBody: "('s, unit) prog") (loopAt: "'s pc")

fun loop_step ::
    "bool \<Rightarrow> 'x base_state_scheme \<Rightarrow> 'x base_state_scheme loop \<Rightarrow> event list
      \<Rightarrow> 'x base_state_scheme \<Rightarrow> 'x base_state_scheme loop \<Rightarrow> bool" where
  "loop_step ended s (ControlLoop body q) l s' lp \<longleftrightarrow> (\<exists>q'. lp = ControlLoop body q' \<and> RunControlLoop body ended s q l s' q')"
| "loop_step ended s (Watchdog body q) l s' lp \<longleftrightarrow> (\<exists>q'. lp = Watchdog body q' \<and> watchdogLoop body ended s q l s' q')"

section \<open>Processes\<close>

text \<open>Where \<^verbatim>\<open>main\<close> stands after the start: waiting for a signal, before \<^verbatim>\<open>cancel()\<close>, before and inside \<^verbatim>\<open>Stop\<close>, at the end.\<close>

datatype main_pc = AwaitSignal | Signalled | CtxCancelled | FlagCleared | Unsubscribed | Stopped | Exited int

type_synonym 's dispatch = "gmap \<Rightarrow> ('s, unit) prog set"

record 's process =
  pState :: 's
  pTasks :: "('s, unit) prog list"
  pLoops :: "'s loop list"
  pTopic :: string
  pDispatch :: "'s dispatch"
  pBus :: "'s dispatch Bus"
  pCtx :: bool
  pMain :: main_pc

text \<open>A component with its bus, before \<^verbatim>\<open>Start\<close>. A handler may end in several ways where the operating system has a say.\<close>

definition newProcess :: "'s \<Rightarrow> string \<Rightarrow> 's dispatch \<Rightarrow> 's dispatch Bus \<Rightarrow> 's process" where
  "newProcess s topic d b =
     \<lparr>pState = s, pTasks = [], pLoops = [], pTopic = topic, pDispatch = d, pBus = b, pCtx = False, pMain = AwaitSignal\<rparr>"

definition base_Start :: "net \<Rightarrow> 'x base_state_scheme process \<Rightarrow> string option \<times> 'x base_state_scheme process" where
  "base_Start n p =
     (if running (pState p) then (None, p)
      else case bus_Subscribe (pTopic p) (pDispatch p) (pBus p) of
        (Some e, b) \<Rightarrow> (Some e, p\<lparr>pBus := b\<rparr>)
      | (None, b) \<Rightarrow> (case bus_Start n b of
          (Some e, b') \<Rightarrow> (Some e, p\<lparr>pBus := b'\<rparr>)
        | (None, b') \<Rightarrow> (None, p\<lparr>pBus := b', pState := (pState p)\<lparr>running := True\<rparr>\<rparr>)))"

definition spawnLoop :: "'s loop list \<Rightarrow> string option \<times> 's process \<Rightarrow> string option \<times> 's process" where
  "spawnLoop ls r = (case r of (Some e, p) \<Rightarrow> (Some e, p) | (None, p) \<Rightarrow> (None, p\<lparr>pLoops := pLoops p @ ls\<rparr>))"

definition lim_Start :: "libm \<Rightarrow> lim_cfg \<Rightarrow> net \<Rightarrow> lim_state process \<Rightarrow> string option \<times> lim_state process" where
  "lim_Start L c n p = spawnLoop [ControlLoop (lim_controlStep L c) Check] (base_Start n p)"

definition ap_Start :: "libm \<Rightarrow> ap_cfg \<Rightarrow> net \<Rightarrow> ap_state process \<Rightarrow> string option \<times> ap_state process" where
  "ap_Start L c n p = spawnLoop [ControlLoop (ap_controlStep L c) Check] (base_Start n p)"

definition tl_Start :: "tl_cfg \<Rightarrow> net \<Rightarrow> tl_state process \<Rightarrow> string option \<times> tl_state process" where
  "tl_Start c n p = spawnLoop [ControlLoop (pollOnce c) Check] (base_Start n p)"

definition sm_Start :: "sm_cfg \<Rightarrow> net \<Rightarrow> sm_state process \<Rightarrow> string option \<times> sm_state process" where
  "sm_Start c n p =
     spawnLoop (if heartbeatTimeout c > 0 then [Watchdog (checkHeartbeatTimeout c) Select] else []) (base_Start n p)"

text \<open>One step of \<^verbatim>\<open>main\<close> after the start: the signal, \<^verbatim>\<open>cancel()\<close>, the three actions of \<^verbatim>\<open>Stop\<close>, the exit.\<close>

fun base_Stop :: "'x base_state_scheme process \<Rightarrow> 'x base_state_scheme process" where
  "base_Stop p = (case pMain p of
      CtxCancelled \<Rightarrow> if \<not> running (pState p) then p\<lparr>pMain := Stopped\<rparr>
        else p\<lparr>pState := (pState p)\<lparr>running := False\<rparr>, pMain := FlagCleared\<rparr>
    | FlagCleared \<Rightarrow> p\<lparr>pBus := snd (bus_Unsubscribe (pTopic p) (pBus p)), pMain := Unsubscribed\<rparr>
    | Unsubscribed \<Rightarrow> p\<lparr>pBus := snd (bus_Stop (pBus p)), pMain := Stopped\<rparr>
    | _ \<Rightarrow> p)"

definition main_next :: "'x base_state_scheme process \<Rightarrow> 'x base_state_scheme process option" where
  "main_next p = (case pMain p of
      AwaitSignal \<Rightarrow> Some (p\<lparr>pMain := Signalled\<rparr>)
    | Signalled \<Rightarrow> Some (p\<lparr>pCtx := True, pMain := CtxCancelled\<rparr>)
    | Stopped \<Rightarrow> Some (p\<lparr>pMain := Exited 0\<rparr>)
    | Exited _ \<Rightarrow> None
    | _ \<Rightarrow> Some (base_Stop p))"

definition alive :: "'s process \<Rightarrow> bool" where
  "alive p \<longleftrightarrow> (\<forall>k. pMain p \<noteq> Exited k)"

datatype actor = Main | Handler | Loop nat

text \<open>A step of the process. The bus keeps its connection here; what a lost one does is a matter of theory \<open>Message_Bus\<close>.\<close>

inductive life_step :: "'x base_state_scheme process \<Rightarrow> actor \<Rightarrow> 'x base_state_scheme process \<Rightarrow> bool" where
  main: "main_next p = Some p' \<Longrightarrow> life_step p Main p'"
| deliver: "alive p \<Longrightarrow> t \<in> bus_hears (pBus p) \<Longrightarrow> bus_table (pBus p) t = Some d \<Longrightarrow> q \<in> d m \<Longrightarrow>
    life_step p Handler (p\<lparr>pTasks := q # pTasks p\<rparr>)"
| task: "alive p \<Longrightarrow> i < length (pTasks p) \<Longrightarrow> pstep (pState p) (pTasks p ! i) l s' q \<Longrightarrow>
    life_step p Handler (p\<lparr>pState := s', pTasks := (pTasks p)[i := q], pBus := fold (bus_used n) l (pBus p)\<rparr>)"
| loop: "alive p \<Longrightarrow> i < length (pLoops p) \<Longrightarrow> loop_step (pCtx p) (pState p) (pLoops p ! i) l s' lp \<Longrightarrow>
    life_step p (Loop i) (p\<lparr>pState := s', pLoops := (pLoops p)[i := lp], pBus := fold (bus_used n) l (pBus p)\<rparr>)"

inductive_cases life_stepE: "life_step p w p'"

abbreviation life_steps :: "'x base_state_scheme process \<Rightarrow> 'x base_state_scheme process \<Rightarrow> bool" where
  "life_steps \<equiv> (\<lambda>p p'. \<exists>w. life_step p w p')\<^sup>*\<^sup>*"

section \<open>The programs under cmd\<close>

text \<open>What the twelve main functions do up to the wait for a signal; \<^const>\<open>Inl\<close> is the text of \<^verbatim>\<open>log.Fatalf\<close>.\<close>

definition boot ::
    "string \<Rightarrow> host \<Rightarrow> net \<Rightarrow> (Config \<Rightarrow> 's dispatch Bus \<Rightarrow> 's process) \<Rightarrow> (Config \<Rightarrow> net \<Rightarrow> 's process \<Rightarrow> string option \<times> 's process)
      \<Rightarrow> string + 's process" where
  "boot fatal h n new start =
     (let cfg = FromEnv h in
      case bus_New (nwNow n) (nwNow2 n) cfg of
        Inl e \<Rightarrow> Inl (''bus: '' @ e)
      | Inr a \<Rightarrow> (case start cfg n (new cfg (openBus a)) of
          (Some e, _) \<Rightarrow> Inl (fatal @ e)
        | (None, p) \<Rightarrow> Inr p))"

definition motors_main :: "libm \<Rightarrow> host \<Rightarrow> net \<Rightarrow> string + motors_state process" where
  "motors_main L h n = boot ''start: '' h n
     (\<lambda>cfg. case New_motors h cfg of (c, s) \<Rightarrow> newProcess s (bcTopic (motBase c)) (\<lambda>m. {motors_dispatch L c m})) (\<lambda>_. base_Start)"

definition cargo_main :: "int \<Rightarrow> host \<Rightarrow> net \<Rightarrow> string + cargo_state process" where
  "cargo_main now h n = boot ''start: '' h n
     (\<lambda>cfg. case New_cargo h cfg now of (c, s) \<Rightarrow> newProcess s (bcTopic (cargoBase c)) (\<lambda>m. {cargo_dispatch c m})) (\<lambda>_. base_Start)"

definition navigation_main :: "host \<Rightarrow> net \<Rightarrow> string + nav_state process" where
  "navigation_main h n = boot ''start: '' h n
     (\<lambda>cfg. case New_nav cfg of (c, s) \<Rightarrow> newProcess s (bcTopic (navBase c)) (\<lambda>m. {nav_dispatch c m})) (\<lambda>_. base_Start)"

definition emergency_main :: "host \<Rightarrow> net \<Rightarrow> string + em_state process" where
  "emergency_main h n = boot ''start: '' h n
     (\<lambda>cfg. case New_em h cfg of (c, s) \<Rightarrow> newProcess s (bcTopic (emBase c)) (\<lambda>m. {em_dispatch h c m})) (\<lambda>_. base_Start)"

definition mission_handler_main :: "host \<Rightarrow> net \<Rightarrow> string + mh_state process" where
  "mission_handler_main h n = boot ''start: '' h n
     (\<lambda>cfg. case New_mh h cfg of (c, s) \<Rightarrow> newProcess s (bcTopic (mhBase c)) (\<lambda>m. {mh_dispatch h c m})) (\<lambda>_. base_Start)"

definition journal_main ::
    "(gval \<Rightarrow> string option) \<Rightarrow> (gval \<Rightarrow> bool) \<Rightarrow> host \<Rightarrow> net \<Rightarrow> string + jn_state process" where
  "journal_main json decodes h n = boot ''start: '' h n
     (\<lambda>cfg. case New_jn h cfg of (c, s) \<Rightarrow> newProcess s (bcTopic (jnBase c)) (\<lambda>m. {jn_dispatch json decodes c (w, m) |w. True}))
     (\<lambda>_. base_Start)"

definition limiter_main :: "libm \<Rightarrow> host \<Rightarrow> net \<Rightarrow> string + lim_state process" where
  "limiter_main L h n = boot ''start: '' h n
     (\<lambda>cfg. case New_lim h cfg of (c, s) \<Rightarrow> newProcess s (bcTopic (limBase c)) (\<lambda>m. {lim_dispatch c m}))
     (\<lambda>cfg. lim_Start L (fst (New_lim h cfg)))"

definition autopilot_main :: "libm \<Rightarrow> host \<Rightarrow> net \<Rightarrow> string + ap_state process" where
  "autopilot_main L h n = boot ''start: '' h n
     (\<lambda>cfg. case New_ap h cfg of (c, s) \<Rightarrow> newProcess s (bcTopic (apBase c)) (\<lambda>m. {ap_dispatch c m}))
     (\<lambda>cfg. ap_Start L (fst (New_ap h cfg)))"

definition telemetry_main :: "host \<Rightarrow> net \<Rightarrow> string + tl_state process" where
  "telemetry_main h n = boot ''start: '' h n
     (\<lambda>cfg. case New_tl h cfg of (c, s) \<Rightarrow> newProcess s (bcTopic (tlBase c)) (\<lambda>m. {tl_dispatch c m}))
     (\<lambda>cfg. tl_Start (fst (New_tl h cfg)))"

definition security_monitor_main ::
    "(string \<Rightarrow> gval list option) \<Rightarrow> int \<Rightarrow> host \<Rightarrow> net \<Rightarrow> string + sm_state process" where
  "security_monitor_main parse now h n = boot ''start: '' h n
     (\<lambda>cfg. case New_sm h parse cfg now of (c, s) \<Rightarrow> newProcess s (bcTopic (smBase c)) (\<lambda>m. {sm_dispatch c m}))
     (\<lambda>cfg. sm_Start (fst (New_sm h parse cfg now)))"

text \<open>The stub has the two built-in actions only.\<close>

definition stub_main :: "host \<Rightarrow> net \<Rightarrow> string + base_state process" where
  "stub_main h n = boot ''start: '' h n
     (\<lambda>cfg. let c = \<lparr>bcID = ComponentID cfg, bcType = orElse (Getenv h ''COMPONENT_TYPE'') (ComponentID cfg), bcTopic = ComponentTopic cfg\<rparr>
            in newProcess \<lparr>running = False\<rparr> (bcTopic c) (\<lambda>m. {handleMessage c (registered c []) m}))
     (\<lambda>_. base_Start)"

definition delivery_drone_main :: "host \<Rightarrow> net \<Rightarrow> string + drone_state process" where
  "delivery_drone_main h n = boot ''drone start: '' h n
     (\<lambda>cfg. case New_drone (ComponentID cfg) (ComponentID cfg) (ComponentTopic cfg) of
        (c, s) \<Rightarrow> newProcess s (bcTopic (drBase c)) (\<lambda>m. {drone_dispatch c m}))
     (\<lambda>_. base_Start)"

text \<open>The delivery drone also answers health checks, on the port of the configuration.\<close>

definition healthAddr :: "host \<Rightarrow> string" where
  "healthAddr h = '':'' @ HealthPort (FromEnv h)"

definition health :: "string \<Rightarrow> int \<times> string" where
  "health path = (if path = ''/health'' then (200, ''ok'') else (404, ''404 page not found'' @ [CHR 0x0A]))"

section \<open>The bus of a running process\<close>

lemma publish_keeps:
  "bus_table (bus_Publish n e m b) = bus_table b" "bus_running (bus_Publish n e m b) = bus_running b"
  "bus_replies (bus_Publish n e m b) = bus_replies b" "bus_hears b \<subseteq> bus_hears (bus_Publish n e m b)"
  by (cases b; auto simp: publishJSON_def mqtt_Publish_def getProducer_def getClient_def split: option.splits if_splits prod.splits)+

lemma start_keeps: "bus_table (snd (bus_Start n b)) = bus_table b"
  by (cases b) (auto simp: kafka_Start_def mqtt_Start_def startConsumer_def getProducer_def getClient_def split: option.splits)

lemma used_table [simp]: "bus_table (bus_used n e b) = bus_table b"
  using start_keeps [of n b] by (cases e) (auto simp: publish_keeps bus_Request_def split: prod.splits option.splits)

lemma used_running:
  assumes "bus_running b"
  shows "bus_running (bus_used n e b) \<and> bus_replies (bus_used n e b) = bus_replies b \<and> bus_hears b \<subseteq> bus_hears (bus_used n e b)"
  using assms by (cases e) (simp_all add: bus_Request_def publish_keeps)

lemma fold_used_table [simp]: "bus_table (fold (bus_used n) l b) = bus_table b"
  by (induction l arbitrary: b) auto

lemma fold_used_running:
  "bus_running b \<Longrightarrow> bus_running (fold (bus_used n) l b) \<and> bus_replies (fold (bus_used n) l b) = bus_replies b \<and>
     bus_hears b \<subseteq> bus_hears (fold (bus_used n) l b)"
proof (induction l arbitrary: b)
  case (Cons e l)
  then show ?case using used_running [OF Cons.prems, of n e] Cons.IH [of "bus_used n e b"] by auto
qed simp

definition serving :: "string \<Rightarrow> 's dispatch \<Rightarrow> 's process \<Rightarrow> bool" where
  "serving topic d p \<longleftrightarrow> bus_running (pBus p) \<and> bus_table (pBus p) topic = Some d \<and> {topic, bus_replies (pBus p)} \<subseteq> bus_hears (pBus p)"

lemma serving_used:
  "serving topic d p \<Longrightarrow> pBus p' = fold (bus_used n) l (pBus p) \<Longrightarrow> serving topic d p'"
  using fold_used_running [of "pBus p" n l] by (auto simp: serving_def)

lemma serving_step:
  assumes "life_step p w p'" "pMain p = AwaitSignal \<longrightarrow> serving topic d p" "pMain p' = AwaitSignal"
  shows "serving topic d p'"
  using assms(1)
proof (cases rule: life_step.cases)
  case main
  then show ?thesis using assms(3) by (auto simp: main_next_def split: main_pc.splits if_splits)
next
  case (deliver t d m q)
  then show ?thesis using assms(2,3) by (simp add: serving_def)
next
  case (task i l s' q n)
  then show ?thesis using assms(2,3) serving_used [of topic d p p' n l] by simp
next
  case (loop i l s' lp n)
  then show ?thesis using assms(2,3) serving_used [of topic d p p' n l] by simp
qed

lemma serving_until_signal:
  assumes "life_steps p0 p" "serving topic d p0"
  shows "pMain p = AwaitSignal \<longrightarrow> serving topic d p"
  using assms by (induction rule: rtranclp_induct) (auto intro: serving_step)

lemma bus_New_type: "bus_New k k' cfg = Inr a \<Longrightarrow> BrokerType cfg \<in> {''kafka'', ''mqtt''}"
  by (auto simp: bus_New_def split: if_splits)

lemma openBus_idle: "\<not> bus_running (openBus a)"
  by (cases a) auto

lemma fresh_conn: "bus_Start n (snd (bus_Subscribe t d (openBus a))) = (None, b') \<Longrightarrow> nwConn n = None"
  by (cases a) (auto simp: kafka_Subscribe_def mqtt_Subscribe_def kafka_Start_def mqtt_Start_def getProducer_def getClient_def live_def
      Let_def split: option.splits)

lemma base_Start_serves:
  assumes "base_Start n p = (e, p')" "\<not> running (pState p)" "pBus p = openBus a"
  shows "(\<forall>x. e = Some x \<longrightarrow> nwConn n = Some x) \<and>
    (e = None \<longrightarrow> nwConn n = None \<and> pMain p' = pMain p \<and> (nwGroup n = None \<longrightarrow> serving (pTopic p) (pDispatch p) p'))"
proof -
  obtain b1 where b1: "bus_Subscribe (pTopic p) (pDispatch p) (pBus p) = (None, b1)"
    using broker.subscribe_law by (metis surj_pair)
  obtain x b2 where b2: "bus_Start n b1 = (x, b2)" by force
  have down: "\<not> bus_running (pBus p)" "\<not> bus_running b1"
    using openBus_idle broker.subscribe_law [OF b1] assms(3) by auto
  show ?thesis
  proof (cases x)
    case None
    with b2 have b2: "bus_Start n b1 = (None, b2)" by simp
    have "nwConn n = None" using fresh_conn [of n "pTopic p" "pDispatch p" a b2] b1 b2 assms(3) by simp
    then show ?thesis
      using broker.start_serves [OF down(1) b1 b2] assms(1,2) b1 b2 by (auto simp: base_Start_def serving_def)
  next
    case (Some y)
    then show ?thesis using broker.start_error [OF down(2)] assms(1,2) b1 b2 by (auto simp: base_Start_def)
  qed
qed

text \<open>The outcome of a main function: it gives up with the reason, or the component is served until a signal arrives.\<close>

definition comes_up :: "string \<Rightarrow> host \<Rightarrow> net \<Rightarrow> 'x base_state_scheme dispatch \<Rightarrow> string + 'x base_state_scheme process \<Rightarrow> bool" where
  "comes_up fatal h n d r \<longleftrightarrow> (case r of
     Inl e \<Rightarrow> (\<exists>x. bus_New (nwNow n) (nwNow2 n) (FromEnv h) = Inl x \<and> e = ''bus: '' @ x) \<or> (\<exists>x. nwConn n = Some x \<and> e = fatal @ x)
   | Inr p0 \<Rightarrow> BrokerType (FromEnv h) \<in> {''kafka'', ''mqtt''} \<and> nwConn n = None \<and>
       (nwGroup n = None \<longrightarrow> (\<forall>p. life_steps p0 p \<and> pMain p = AwaitSignal \<longrightarrow> serving (ComponentTopic (FromEnv h)) d p)))"

text \<open>\<open>start\<close> is the base's \<^verbatim>\<open>Start\<close>, with loops spawned after it or not.\<close>

lemma boot_comes_up:
  assumes new: "\<And>b. new (FromEnv h) b = newProcess s (ComponentTopic (FromEnv h)) d b" "\<not> running s"
    and start: "\<And>p. start (FromEnv h) n p = spawnLoop ls (base_Start n p)"
  shows "comes_up fatal h n d (boot fatal h n new start)"
proof (cases "bus_New (nwNow n) (nwNow2 n) (FromEnv h)")
  case (Inl e)
  then show ?thesis by (simp add: comes_up_def boot_def)
next
  case (Inr a)
  let ?p = "newProcess s (ComponentTopic (FromEnv h)) d (openBus a)"
  obtain e p' where r: "base_Start n ?p = (e, p')" by force
  note S = base_Start_serves [OF r, of a]
  show ?thesis
  proof (cases e)
    case None
    let ?p0 = "p'\<lparr>pLoops := pLoops p' @ ls\<rparr>"
    have "boot fatal h n new start = Inr ?p0" using Inr r None by (simp add: boot_def new(1) start spawnLoop_def)
    moreover have "pMain p = AwaitSignal \<longrightarrow> serving (ComponentTopic (FromEnv h)) d p" if "life_steps ?p0 p" "nwGroup n = None" for p
      using serving_until_signal [OF that(1), of "ComponentTopic (FromEnv h)" d] S None new(2) that(2) by (simp add: newProcess_def serving_def)
    ultimately show ?thesis using S None new(2) bus_New_type [OF Inr] by (simp add: comes_up_def newProcess_def)
  next
    case (Some x)
    then show ?thesis using Inr r S new(2) by (auto simp: comes_up_def boot_def new(1) start spawnLoop_def newProcess_def)
  qed
qed

lemma orElse_nonempty: "d \<noteq> [] \<Longrightarrow> orElse s d \<noteq> []"
  by (simp add: orElse_def)

lemma BrokerTopicFor_nonempty: "BrokerTopicFor c nm \<noteq> []"
  by (simp add: BrokerTopicFor_def)

lemma ComponentTopic_set: "ComponentTopic (FromEnv h) \<noteq> []"
  by (simp add: FromEnv_def Let_def orElse_nonempty BrokerTopicFor_nonempty)

lemma orElse_own: "orElse (ComponentTopic (FromEnv h)) d = ComponentTopic (FromEnv h)"
  by (simp add: orElse_def ComponentTopic_set)

lemma newBase_topic: "bcTopic (newBase (FromEnv h) ty) = ComponentTopic (FromEnv h)"
  by (simp add: newBase_def orElse_own)

lemma New_topics:
  "bcTopic (motBase (fst (New_motors h (FromEnv k)))) = ComponentTopic (FromEnv k)"
  "bcTopic (cargoBase (fst (New_cargo h (FromEnv k) now))) = ComponentTopic (FromEnv k)"
  "bcTopic (navBase (fst (New_nav (FromEnv k)))) = ComponentTopic (FromEnv k)"
  "bcTopic (emBase (fst (New_em h (FromEnv k)))) = ComponentTopic (FromEnv k)"
  "bcTopic (mhBase (fst (New_mh h (FromEnv k)))) = ComponentTopic (FromEnv k)"
  "bcTopic (jnBase (fst (New_jn h (FromEnv k)))) = ComponentTopic (FromEnv k)"
  "bcTopic (limBase (fst (New_lim h (FromEnv k)))) = ComponentTopic (FromEnv k)"
  "bcTopic (apBase (fst (New_ap h (FromEnv k)))) = ComponentTopic (FromEnv k)"
  "bcTopic (tlBase (fst (New_tl h (FromEnv k)))) = ComponentTopic (FromEnv k)"
  "bcTopic (smBase (fst (New_sm h parse (FromEnv k) now))) = ComponentTopic (FromEnv k)"
  "bcTopic (drBase (fst (New_drone a b (ComponentTopic (FromEnv k))))) = ComponentTopic (FromEnv k)"
  by (simp_all add: New_motors_def New_cargo_def New_nav_def New_em_def New_mh_def New_jn_def New_lim_def New_ap_def New_tl_def New_sm_def
      New_drone_def Let_def newBase_topic orElse_own)

lemma New_idle:
  "\<not> running (snd (New_motors h cfg))" "\<not> running (snd (New_cargo h cfg now))" "\<not> running (snd (New_nav cfg))"
  "\<not> running (snd (New_em h cfg))" "\<not> running (snd (New_mh h cfg))" "\<not> running (snd (New_jn h cfg))"
  "\<not> running (snd (New_lim h cfg))" "\<not> running (snd (New_ap h cfg))" "\<not> running (snd (New_tl h cfg))"
  "\<not> running (snd (New_sm h parse cfg now))" "\<not> running (snd (New_drone a b t))"
  by (simp_all add: New_motors_def New_cargo_def New_nav_def New_em_def New_mh_def New_jn_def New_lim_def New_ap_def New_tl_def New_sm_def
      New_drone_def Let_def)

lemma spawn_none: "spawnLoop [] r = r"
  by (auto simp: spawnLoop_def split: prod.splits option.splits)

lemma boot_component:
  assumes "bcTopic (B (fst (N (FromEnv h)))) = ComponentTopic (FromEnv h)" "\<not> running (snd (N (FromEnv h)))"
    and "\<And>p. start (FromEnv h) n p = spawnLoop ls (base_Start n p)"
  shows "comes_up fatal h n (D (fst (N (FromEnv h))))
    (boot fatal h n (\<lambda>cfg. case N cfg of (c, s) \<Rightarrow> newProcess s (bcTopic (B c)) (D c)) start)"
  using assms by (intro boot_comes_up) (simp_all add: case_prod_beta)

lemma boot_plain:
  assumes "bcTopic (B (fst (N (FromEnv h)))) = ComponentTopic (FromEnv h)" "\<not> running (snd (N (FromEnv h)))"
  shows "comes_up fatal h n (D (fst (N (FromEnv h))))
    (boot fatal h n (\<lambda>cfg. case N cfg of (c, s) \<Rightarrow> newProcess s (bcTopic (B c)) (D c)) (\<lambda>_. base_Start))"
  using assms boot_component [where start = "\<lambda>_. base_Start" and ls = "[]"] by (simp add: spawn_none)

lemma plain_mains:
  "comes_up ''start: '' h n (\<lambda>m. {motors_dispatch L (fst (New_motors h (FromEnv h))) m}) (motors_main L h n)"
  "comes_up ''start: '' h n (\<lambda>m. {cargo_dispatch (fst (New_cargo h (FromEnv h) now)) m}) (cargo_main now h n)"
  "comes_up ''start: '' h n (\<lambda>m. {nav_dispatch (fst (New_nav (FromEnv h))) m}) (navigation_main h n)"
  "comes_up ''start: '' h n (\<lambda>m. {em_dispatch h (fst (New_em h (FromEnv h))) m}) (emergency_main h n)"
  "comes_up ''start: '' h n (\<lambda>m. {mh_dispatch h (fst (New_mh h (FromEnv h))) m}) (mission_handler_main h n)"
  "comes_up ''start: '' h n (\<lambda>m. {jn_dispatch json decodes (fst (New_jn h (FromEnv h))) (w, m) |w. True}) (journal_main json decodes h n)"
  "comes_up ''drone start: '' h n
     (\<lambda>m. {drone_dispatch (fst (New_drone (ComponentID (FromEnv h)) (ComponentID (FromEnv h)) (ComponentTopic (FromEnv h)))) m})
     (delivery_drone_main h n)"
  unfolding motors_main_def cargo_main_def navigation_main_def emergency_main_def mission_handler_main_def journal_main_def
    delivery_drone_main_def
  by (rule boot_plain; simp add: New_topics New_idle)+

lemma looping_mains:
  "comes_up ''start: '' h n (\<lambda>m. {lim_dispatch (fst (New_lim h (FromEnv h))) m}) (limiter_main L h n)"
  "comes_up ''start: '' h n (\<lambda>m. {ap_dispatch (fst (New_ap h (FromEnv h))) m}) (autopilot_main L h n)"
  "comes_up ''start: '' h n (\<lambda>m. {tl_dispatch (fst (New_tl h (FromEnv h))) m}) (telemetry_main h n)"
  "comes_up ''start: '' h n (\<lambda>m. {sm_dispatch (fst (New_sm h parse (FromEnv h) now)) m}) (security_monitor_main parse now h n)"
  unfolding limiter_main_def autopilot_main_def telemetry_main_def security_monitor_main_def lim_Start_def ap_Start_def tl_Start_def
    sm_Start_def
  by (rule boot_component [OF _ _ refl]; simp add: New_topics New_idle)+

lemma stub_comes_up:
  "\<exists>c. bcID c = ComponentID (FromEnv h) \<and> comes_up ''start: '' h n (\<lambda>m. {handleMessage c (registered c []) m}) (stub_main h n)"
proof -
  let ?c = "\<lparr>bcID = ComponentID (FromEnv h), bcType = orElse (Getenv h ''COMPONENT_TYPE'') (ComponentID (FromEnv h)),
    bcTopic = ComponentTopic (FromEnv h)\<rparr>"
  have "comes_up ''start: '' h n (\<lambda>m. {handleMessage ?c (registered ?c []) m}) (stub_main h n)"
    unfolding stub_main_def by (rule boot_comes_up [where s = "\<lparr>running = False\<rparr>" and ls = "[]"]) (simp_all add: spawn_none Let_def)
  then show ?thesis by (intro exI [of _ ?c]) simp
qed

section \<open>Winding down\<close>

text \<open>
  The contract under which a loop ends: every goroutine of the component keeps the flag of the component base,
  and the invariant does not read it.
\<close>

locale flag_contract =
  fixes I :: "'x base_state_scheme \<Rightarrow> bool"
    and G :: "'x base_state_scheme \<Rightarrow> 'x base_state_scheme \<Rightarrow> bool"
    and Q :: "string \<Rightarrow> gmap \<Rightarrow> bool"
  assumes keeps_flag: "G s s' \<Longrightarrow> running s' = running s"
    and flag_free: "I (s\<lparr>running := b\<rparr>) = I s"

definition past_flag :: "'s process \<Rightarrow> bool" where
  "past_flag p \<longleftrightarrow> pMain p \<in> {FlagCleared, Unsubscribed, Stopped} \<union> range Exited"

definition process_inv :: "(('x base_state_scheme, unit) prog \<Rightarrow> bool) \<Rightarrow> ('x base_state_scheme \<Rightarrow> bool) \<Rightarrow> 'x base_state_scheme process \<Rightarrow> bool" where
  "process_inv ok I p \<longleftrightarrow> I (pState p) \<and> (\<forall>q \<in> set (pTasks p). ok q) \<and>
     (\<forall>lp \<in> set (pLoops p). (\<exists>body q. lp = ControlLoop body q) \<and> ok (loopBody lp) \<and> (\<forall>q. loopAt lp = Work q \<longrightarrow> ok q)) \<and>
     (\<forall>t d m q. bus_table (pBus p) t = Some d \<longrightarrow> q \<in> d m \<longrightarrow> ok q) \<and>
     (past_flag p \<longrightarrow> \<not> running (pState p))"

lemma bus_table_stop: "bus_table (snd (bus_Stop b)) = bus_table b"
  using broker.stop_law [of b] by (cases "bus_Stop b") auto

lemma bus_table_unsubscribe: "bus_table (snd (bus_Unsubscribe t b)) = (bus_table b)(t := None)"
  using broker.unsubscribe_law [of t b] by (cases "bus_Unsubscribe t b") auto

text \<open>What one step of a control loop does to the loop.\<close>

lemma control_step:
  assumes "loop_step ended s (ControlLoop body q) l s' lp"
  obtains q' where "lp = ControlLoop body q'"
    "(s' = s \<and> (q' = Work body \<or> (\<forall>r. q' \<noteq> Work r))) \<or> (\<exists>r r'. q = Work r \<and> q' = Work r' \<and> pstep s r l s' r')"
  using assms by (auto elim!: RunControlLoopE)

context flag_contract
begin

lemma effect:
  assumes "pstep s p l s' p'" "sat I G Q anyResult p" "I s"
  shows "I s' \<and> sat I G Q anyResult p' \<and> running s' = running s"
  using sat_pstep [OF assms] keeps_flag by auto

lemma main_inv:
  assumes "process_inv (sat I G Q anyResult) I p" "main_next p = Some p'"
  shows "process_inv (sat I G Q anyResult) I p'"
  using assms by (auto simp: process_inv_def main_next_def past_flag_def flag_free bus_table_stop bus_table_unsubscribe
      split: main_pc.splits if_splits)

lemma task_inv:
  assumes inv: "process_inv (sat I G Q anyResult) I p" and i: "i < length (pTasks p)"
    and step: "pstep (pState p) (pTasks p ! i) l s' q"
  shows "process_inv (sat I G Q anyResult) I (p\<lparr>pState := s', pTasks := (pTasks p)[i := q], pBus := fold (bus_used n) l (pBus p)\<rparr>)"
proof -
  have "sat I G Q anyResult (pTasks p ! i)" "I (pState p)" using inv i by (auto simp: process_inv_def)
  from effect [OF step this] inv show ?thesis
    by (auto simp: process_inv_def past_flag_def dest!: set_update_subset_insert [THEN subsetD])
qed

lemma loop_inv:
  assumes inv: "process_inv (sat I G Q anyResult) I p" and i: "i < length (pLoops p)"
    and step: "loop_step (pCtx p) (pState p) (pLoops p ! i) l s' lp"
  shows "process_inv (sat I G Q anyResult) I (p\<lparr>pState := s', pLoops := (pLoops p)[i := lp], pBus := fold (bus_used n) l (pBus p)\<rparr>)"
proof -
  have "pLoops p ! i \<in> set (pLoops p)" using i by simp
  then obtain body q where q: "pLoops p ! i = ControlLoop body q" "sat I G Q anyResult body" "\<And>r. q = Work r \<Longrightarrow> sat I G Q anyResult r"
    using inv unfolding process_inv_def by (metis loop.sel(1,3))
  have I: "I (pState p)" using inv by (simp add: process_inv_def)
  obtain q' where q': "lp = ControlLoop body q'"
      "(s' = pState p \<and> (q' = Work body \<or> (\<forall>r. q' \<noteq> Work r))) \<or> (\<exists>r r'. q = Work r \<and> q' = Work r' \<and> pstep (pState p) r l s' r')"
    using step unfolding q(1) by (rule control_step)
  have "I s' \<and> running s' = running (pState p) \<and> (\<forall>r. q' = Work r \<longrightarrow> sat I G Q anyResult r)"
    using q'(2) effect [OF _ q(3) I] I q(2) by auto
  then show ?thesis using inv q'(1) q(2)
    by (auto simp: process_inv_def past_flag_def dest!: set_update_subset_insert [THEN subsetD])
qed

lemma life_inv:
  assumes "life_step p w p'" "process_inv (sat I G Q anyResult) I p"
  shows "process_inv (sat I G Q anyResult) I p'"
  using assms
proof (induction rule: life_step.induct)
  case (deliver p t d q m)
  then show ?case by (auto simp: process_inv_def past_flag_def)
qed (auto intro: main_inv task_inv loop_inv)

lemma lives_inv: "life_steps p p' \<Longrightarrow> process_inv (sat I G Q anyResult) I p \<Longrightarrow> process_inv (sat I G Q anyResult) I p'"
  by (induction rule: rtranclp_induct) (auto intro: life_inv)

end

text \<open>A step of a loop while the flag is cleared, in any state the other goroutines have left.\<close>

definition idle_step :: "'x base_state_scheme loop \<Rightarrow> 'x base_state_scheme loop \<Rightarrow> bool" where
  "idle_step lp' lp \<longleftrightarrow> (\<exists>ended s l s'. \<not> running s \<and> loop_step ended s lp l s' lp')"

lemma idle_stepE:
  assumes "idle_step lp (ControlLoop body q)"
  obtains ended s l s' q' where "lp = ControlLoop body q'" "\<not> running s" "RunControlLoop body ended s q l s' q'"
  using assms by (auto simp: idle_step_def)

lemma idle_Gone: "Wellfounded.accp idle_step (ControlLoop body Gone)"
  by (rule accpI) (auto elim!: idle_stepE RunControlLoopE)

lemma idle_Check: "Wellfounded.accp idle_step (ControlLoop body Check)"
  by (rule accpI) (auto simp: idle_Gone elim!: idle_stepE RunControlLoopE)

lemma idle_Select: "Wellfounded.accp idle_step (ControlLoop body Select)"
  by (rule accpI) (auto simp: idle_Gone idle_Check elim!: idle_stepE RunControlLoopE)

text \<open>A round is a finite program, whatever its requests and publications end in.\<close>

lemma idle_Work: "Wellfounded.accp idle_step (ControlLoop body (Work p))"
proof (induction p)
  case (Ret a)
  show ?case
    by (rule accpI) (auto simp: idle_Select elim!: idle_stepE RunControlLoopE pstep_RetE)
next
  case (Atom u k)
  show ?case
    by (rule accpI) (auto simp: Atom elim!: idle_stepE RunControlLoopE pstep_AtomE)
next
  case (Pub t m k)
  show ?case
    by (rule accpI) (auto simp: Pub elim!: idle_stepE RunControlLoopE pstep_PubE)
next
  case (Req t m d k)
  show ?case
    by (rule accpI) (auto simp: Req elim!: idle_stepE RunControlLoopE pstep_ReqE)
next
  case (Now k)
  show ?case
    by (rule accpI) (auto simp: Now elim!: idle_stepE RunControlLoopE pstep_NowE)
qed

lemma idle_ends: "Wellfounded.accp idle_step (ControlLoop body q)"
  by (cases q) (simp_all add: idle_Gone idle_Check idle_Select idle_Work)

lemma accp_irrefl: "Wellfounded.accp R x \<Longrightarrow> \<not> R x x"
  by (induction rule: accp.induct) blast

lemma settles:
  assumes "Wellfounded.accp R x" "g 0 = x" "\<And>k. g (Suc k) = g k \<or> R (g (Suc k)) (g k)"
  shows "\<exists>N. \<forall>k \<ge> N. g k = g N"
  using assms
proof (induction arbitrary: g rule: accp.induct)
  case (accI x)
  show ?case
  proof (cases "\<forall>k. g k = x")
    case False
    define k where "k = (LEAST k. g k \<noteq> x)"
    have k: "g k \<noteq> x" using False unfolding k_def by (metis (mono_tags, lifting) LeastI)
    then obtain j where j: "k = Suc j" using accI.prems(1) by (cases k) auto
    have "g j = x" using not_less_Least [of j "\<lambda>k. g k \<noteq> x"] j by (auto simp: k_def)
    then have "R (g k) x" using accI.prems(2) [of j] k j by auto
    then obtain N where "\<forall>i \<ge> N. g (i + k) = g (N + k)"
      using accI.IH [of "g k" "\<lambda>i. g (i + k)"] accI.prems(2) by auto
    note later = this
    have "g i = g (N + k)" if "N + k \<le> i" for i
      using later [rule_format, of "i - k"] that by simp
    then show ?thesis by blast
  qed auto
qed

text \<open>
  A process whose component no longer runs: \<^verbatim>\<open>main\<close> is never blocked, a loop that has not returned can always go
  on, a loop that looks at its condition returns, and no execution takes infinitely many steps of a loop.
\<close>

definition winds_down :: "'x base_state_scheme process \<Rightarrow> bool" where
  "winds_down p \<longleftrightarrow>
     (alive p \<longrightarrow> (\<exists>p'. life_step p Main p')) \<and>
     (\<forall>i < length (pLoops p). alive p \<and> loopAt (pLoops p ! i) \<noteq> Gone \<longrightarrow> (\<exists>p'. life_step p (Loop i) p')) \<and>
     (\<forall>i p'. life_step p (Loop i) p' \<and> loopAt (pLoops p ! i) = Check \<longrightarrow> loopAt (pLoops p' ! i) = Gone) \<and>
     (\<forall>f w i. f 0 = p \<and> (\<forall>k. life_step (f k) (w k) (f (Suc k))) \<longrightarrow> (\<exists>N. \<forall>k \<ge> N. w k \<noteq> Loop i))"

lemma main_enabled: "alive p \<Longrightarrow> \<exists>p'. life_step p Main p'"
  by (cases "pMain p") (auto simp: alive_def main_next_def intro!: life_step.main split: main_pc.splits)

lemma prog_enabled: "p \<noteq> Ret () \<Longrightarrow> \<exists>l s' p'. pstep s p l s' p'"
  by (cases p) (auto intro: pstep.intros)

lemma control_enabled: "q \<noteq> Gone \<Longrightarrow> \<exists>l s' q'. RunControlLoop body ended s q l s' q'"
proof (cases q)
  case (Work p)
  then show ?thesis using RunControlLoop.effect RunControlLoop.round prog_enabled [of p s] by metis
qed (use RunControlLoop.enter RunControlLoop.leave RunControlLoop.timer in blast)+

lemma past_flag_step: "life_step p w p' \<Longrightarrow> past_flag p \<Longrightarrow> past_flag p'"
  by (induction rule: life_step.induct) (auto simp: past_flag_def main_next_def split: main_pc.splits)

lemma loops_step:
  "life_step p w p' \<Longrightarrow> length (pLoops p') = length (pLoops p) \<and> (w \<noteq> Loop i \<longrightarrow> pLoops p' ! i = pLoops p ! i)"
  by (induction rule: life_step.induct) (auto simp: main_next_def nth_list_update split: main_pc.splits)

lemma execution_loops:
  assumes "\<And>k. life_step (f k) (w k) (f (Suc k))"
  shows "length (pLoops (f k)) = length (pLoops (f 0))"
proof (induction k)
  case (Suc k)
  then show ?case using loops_step [OF assms, of k] by simp
qed simp

lemma loop_stepE':
  assumes "life_step p (Loop i) p'"
  obtains l s' where "i < length (pLoops p)" "alive p" "loop_step (pCtx p) (pState p) (pLoops p ! i) l s' (pLoops p' ! i)"
  using assms by (auto elim!: life_stepE)

context flag_contract
begin

lemma execution_inv:
  assumes "process_inv (sat I G Q anyResult) I (f 0)" "past_flag (f 0)" "\<And>k. life_step (f k) (w k) (f (Suc k))"
  shows "process_inv (sat I G Q anyResult) I (f k) \<and> past_flag (f k)"
  using assms(1,2) by (induction k) (auto intro: life_inv [OF assms(3)] past_flag_step [OF assms(3)])

lemma loop_is_control:
  assumes "process_inv (sat I G Q anyResult) I p" "i < length (pLoops p)"
  obtains body q where "pLoops p ! i = ControlLoop body q"
  using assms nth_mem unfolding process_inv_def by blast

lemma loop_accp:
  assumes "process_inv (sat I G Q anyResult) I p" "i < length (pLoops p)"
  shows "Wellfounded.accp idle_step (pLoops p ! i)"
proof -
  obtain body q where "pLoops p ! i = ControlLoop body q" using assms by (rule loop_is_control)
  then show ?thesis by (simp only: idle_ends)
qed

lemma loop_idles:
  assumes "process_inv (sat I G Q anyResult) I p" "past_flag p" "life_step p (Loop i) p'"
  shows "i < length (pLoops p) \<and> idle_step (pLoops p' ! i) (pLoops p ! i)"
proof -
  obtain l s' where "i < length (pLoops p)" "loop_step (pCtx p) (pState p) (pLoops p ! i) l s' (pLoops p' ! i)"
    using assms(3) by (rule loop_stepE')
  moreover have "\<not> running (pState p)" using assms(1,2) unfolding process_inv_def by blast
  ultimately show ?thesis unfolding idle_step_def by blast
qed

lemma loop_steps_end:
  assumes inv: "process_inv (sat I G Q anyResult) I (f 0)" "past_flag (f 0)" and steps: "\<And>k. life_step (f k) (w k) (f (Suc k))"
  shows "\<exists>N. \<forall>k \<ge> N. w k \<noteq> Loop i"
proof (cases "\<exists>k. w k = Loop i")
  case True
  let ?g = "\<lambda>k. pLoops (f k) ! i"
  note K = execution_inv [of f w, OF inv steps]
  have idle: "i < length (pLoops (f k)) \<and> idle_step (?g (Suc k)) (?g k)" if "w k = Loop i" for k
  proof -
    have "life_step (f k) (Loop i) (f (Suc k))" using steps [of k] that by simp
    then show ?thesis by (rule loop_idles [OF conjunct1 [OF K [of k]] conjunct2 [OF K [of k]]])
  qed
  have size: "length (pLoops (f k)) = length (pLoops (f 0))" for k
    by (rule execution_loops [of f w, OF steps])
  then have i: "i < length (pLoops (f 0))" using True idle by metis
  have acc: "Wellfounded.accp idle_step (?g k)" for k
    by (rule loop_accp [OF conjunct1 [OF K [of k]]]) (simp only: size [of k] i)
  have moves: "?g (Suc k) = ?g k \<or> idle_step (?g (Suc k)) (?g k)" for k
    using idle [of k] loops_step [OF steps, of k i] by blast
  obtain N where N: "\<And>k. k \<ge> N \<Longrightarrow> ?g k = ?g N"
    using settles [of idle_step "?g 0" ?g, OF acc refl moves] by blast
  have "w k \<noteq> Loop i" if "k \<ge> N" for k
  proof
    assume "w k = Loop i"
    then have "idle_step (?g (Suc k)) (?g k)" using idle by blast
    moreover have "?g (Suc k) = ?g N" "?g k = ?g N" using N [of k] N [of "Suc k"] that by auto
    ultimately show False using accp_irrefl [OF acc [of N]] by simp
  qed
  then show ?thesis by blast
qed blast

lemma stopped_winds_down:
  assumes inv: "process_inv (sat I G Q anyResult) I p" and flag: "past_flag p"
  shows "winds_down p"
  unfolding winds_down_def
proof (intro conjI allI impI)
  fix i assume i: "i < length (pLoops p)" "alive p \<and> loopAt (pLoops p ! i) \<noteq> Gone"
  obtain body q where q: "pLoops p ! i = ControlLoop body q" using loop_is_control [OF inv i(1)] .
  then show "\<exists>p'. life_step p (Loop i) p'"
    using control_enabled [of q body "pCtx p" "pState p"] i life_step.loop [of p i] by fastforce
next
  fix i p' assume step: "life_step p (Loop i) p' \<and> loopAt (pLoops p ! i) = Check"
  then obtain l s' where l: "i < length (pLoops p)" "loop_step (pCtx p) (pState p) (pLoops p ! i) l s' (pLoops p' ! i)"
    using loop_stepE' by metis
  obtain body q where q: "pLoops p ! i = ControlLoop body q" using loop_is_control [OF inv l(1)] .
  have "\<not> running (pState p)" using inv flag by (simp add: process_inv_def)
  then show "loopAt (pLoops p' ! i) = Gone" using l(2) step by (auto simp: q at_Check)
qed (use main_enabled loop_steps_end inv flag in auto)

lemma boot_inv:
  assumes "boot fatal h n new start = Inr p0" "\<And>b. new (FromEnv h) b = newProcess s topic d b" "\<not> running s"
    and "\<And>p. start (FromEnv h) n p = spawnLoop [ControlLoop body Check] (base_Start n p)"
    and "I s" "sat I G Q anyResult body" "\<And>m q. q \<in> d m \<Longrightarrow> sat I G Q anyResult q"
  shows "process_inv (sat I G Q anyResult) I p0"
proof -
  obtain a where a: "spawnLoop [ControlLoop body Check] (base_Start n (newProcess s topic d (openBus a))) = (None, p0)"
    using assms(1) by (auto simp: boot_def Let_def assms(2,4) split: sum.splits prod.splits option.splits)
  obtain b1 where b1: "bus_Subscribe topic d (openBus a) = (None, b1)" using broker.subscribe_law by (metis surj_pair)
  have t1: "bus_table b1 = [topic \<mapsto> d]" using broker.subscribe_law [OF b1] by (cases a) auto
  obtain e b2 where b2: "bus_Start n b1 = (e, b2)" by force
  then have t2: "bus_table b2 = [topic \<mapsto> d]" using start_keeps [of n b1] t1 by simp
  have "p0 = (newProcess s topic d b2)\<lparr>pState := s\<lparr>running := True\<rparr>, pLoops := [ControlLoop body Check]\<rparr>"
    using a b1 b2 assms(3) by (auto simp: spawnLoop_def base_Start_def newProcess_def split: option.splits)
  then show ?thesis using assms(5-7) t2
    by (auto simp: process_inv_def newProcess_def flag_free past_flag_def split: if_splits)
qed

end

interpretation limiter_flag: flag_contract "lim_inv c" lim_guar "via_monitor (bcID (limBase c)) (pxMonitor (limProxy c))" for c
  by unfold_locales (auto simp: lim_guar_def lim_inv_def)

interpretation autopilot_flag: flag_contract ap_inv ap_guar "via_monitor (bcID (apBase c)) (pxMonitor (apProxy c))" for c
  by unfold_locales (auto simp: ap_guar_def ap_inv_def)

interpretation telemetry_flag: flag_contract "\<lambda>_. True" "\<lambda>s s'. running s' = running s" "tl_out c" for c
  by unfold_locales auto

lemma limiter_boot_inv:
  assumes "limiter_main L h n = Inr p0" "c = fst (New_lim h (FromEnv h))"
  shows "process_inv (sat (lim_inv c) lim_guar (via_monitor (bcID (limBase c)) (pxMonitor (limProxy c))) anyResult) (lim_inv c) p0"
  unfolding assms(2)
  by (rule limiter_flag.boot_inv [OF assms(1) [unfolded limiter_main_def], where d = "\<lambda>m. {lim_dispatch (fst (New_lim h (FromEnv h))) m}"])
    (auto simp: case_prod_beta New_idle lim_Start_def New_lim_inv lim_sat_step lim_sat_threads lim_threads_def)

lemma autopilot_boot_inv:
  assumes "autopilot_main L h n = Inr p0" "c = fst (New_ap h (FromEnv h))"
  shows "process_inv (sat ap_inv ap_guar (via_monitor (bcID (apBase c)) (pxMonitor (apProxy c))) anyResult) ap_inv p0"
  unfolding assms(2)
  by (rule autopilot_flag.boot_inv [OF assms(1) [unfolded autopilot_main_def], where d = "\<lambda>m. {ap_dispatch (fst (New_ap h (FromEnv h))) m}"])
    (auto simp: case_prod_beta New_idle ap_Start_def New_ap_inv ap_sat_step ap_sat_threads ap_threads_def)

lemma telemetry_boot_inv:
  assumes "telemetry_main h n = Inr p0" "c = fst (New_tl h (FromEnv h))"
  shows "process_inv (sat (\<lambda>_. True) (\<lambda>s s'. running s' = running s) (tl_out c) anyResult) (\<lambda>_. True) p0"
  unfolding assms(2)
  by (rule telemetry_flag.boot_inv [OF assms(1) [unfolded telemetry_main_def], where d = "\<lambda>m. {tl_dispatch (fst (New_tl h (FromEnv h))) m}"])
    (auto simp: case_prod_beta New_idle tl_Start_def tl_sat_threads tl_threads_def)

section \<open>Properties\<close>


text \<open>C15. The control loops end. In every execution of the limiter, the autopilot or the telemetry process, once \<^verbatim>\<open>Stop\<close>
  has cleared the flag: \<^verbatim>\<open>main\<close> is never blocked before the exit, the loop can always go on until it has returned, it
  returns as soon as it looks at the flag, so that no further round begins, and no execution, however the loop, the
  handlers and \<^verbatim>\<open>main\<close> are scheduled, whichever way a \<^verbatim>\<open>select\<close> goes and whatever requests end in, takes infinitely
  many steps of the loop.\<close>

theorem control_loops_end:
  "(\<forall>p0 p. limiter_main L h n = Inr p0 \<and> life_steps p0 p \<and> past_flag p \<longrightarrow> winds_down p) \<and>
   (\<forall>p0 p. autopilot_main L h n = Inr p0 \<and> life_steps p0 p \<and> past_flag p \<longrightarrow> winds_down p) \<and>
   (\<forall>p0 p. telemetry_main h n = Inr p0 \<and> life_steps p0 p \<and> past_flag p \<longrightarrow> winds_down p)"
proof (intro conjI allI impI)
  fix p0 p assume "limiter_main L h n = Inr p0 \<and> life_steps p0 p \<and> past_flag p"
  then show "winds_down p" using limiter_flag.stopped_winds_down limiter_flag.lives_inv limiter_boot_inv by blast
next
  fix p0 p assume "autopilot_main L h n = Inr p0 \<and> life_steps p0 p \<and> past_flag p"
  then show "winds_down p" using autopilot_flag.stopped_winds_down autopilot_flag.lives_inv autopilot_boot_inv by blast
next
  fix p0 p assume "telemetry_main h n = Inr p0 \<and> life_steps p0 p \<and> past_flag p"
  then show "winds_down p" using telemetry_flag.stopped_winds_down telemetry_flag.lives_inv telemetry_boot_inv by blast
qed

definition demo_net :: net where
  "demo_net = \<lparr>nwNow = 1, nwNow2 = 2, nwConn = None, nwGroup = None\<rparr>"

lemma demo_limiter_boots:
  obtains p0 where "limiter_main demo_libm (host_for ''limiter'') demo_net = Inr p0" "pMain p0 = AwaitSignal" "running (pState p0)"
    "length (pLoops p0) = 1"
proof -
  let ?h = "host_for ''limiter''"
  have "BrokerType (FromEnv ?h) = ''kafka''" by (simp add: FromEnv_def Let_def host_for_def orElse_def)
  then obtain a where a: "bus_New 1 2 (FromEnv ?h) = Inr a" by (auto simp: bus_New_def)
  let ?p = "newProcess (snd (New_lim ?h (FromEnv ?h))) (bcTopic (limBase (fst (New_lim ?h (FromEnv ?h)))))
    (\<lambda>m. {lim_dispatch (fst (New_lim ?h (FromEnv ?h))) m}) (openBus a)"
  obtain e p' where r: "base_Start demo_net ?p = (e, p')" by force
  have "e = None" using base_Start_serves [OF r, of a] New_idle by (cases e) (auto simp: newProcess_def demo_net_def)
  with r have r: "base_Start demo_net ?p = (None, p')" by simp
  then have "pMain p' = AwaitSignal" "running (pState p')" "pLoops p' = []"
    by (auto simp: base_Start_def newProcess_def New_idle split: prod.splits option.splits)
  then show thesis using that [of "p'\<lparr>pLoops := pLoops p' @ [ControlLoop (lim_controlStep demo_libm (fst (New_lim ?h (FromEnv ?h)))) Check]\<rparr>"] a r
    by (simp add: limiter_main_def boot_def demo_net_def case_prod_beta lim_Start_def spawnLoop_def)
qed

lemma shutdown_reaches:
  assumes "pMain p = AwaitSignal" "running (pState p)"
  shows "\<exists>p'. life_steps p p' \<and> past_flag p' \<and> alive p' \<and> pLoops p' = pLoops p"
proof -
  let ?p1 = "p\<lparr>pMain := Signalled\<rparr>" and ?p2 = "p\<lparr>pMain := CtxCancelled, pCtx := True\<rparr>"
  let ?p3 = "p\<lparr>pMain := FlagCleared, pCtx := True, pState := (pState p)\<lparr>running := False\<rparr>\<rparr>"
  have moves: "life_step p Main ?p1" "life_step ?p1 Main ?p2" "life_step ?p2 Main ?p3"
    using assms by (auto intro!: life_step.main simp: main_next_def)
  have "life_steps p ?p1" using moves(1) by blast
  also have "life_steps ?p1 ?p2" using moves(2) by blast
  also have "life_steps ?p2 ?p3" using moves(3) by blast
  finally have "life_steps p ?p3" .
  then show ?thesis by (intro exI [of _ ?p3]) (auto simp: past_flag_def alive_def)
qed

theorem control_loops_end_witness:
  "\<exists>p0 p. limiter_main demo_libm (host_for ''limiter'') demo_net = Inr p0 \<and> life_steps p0 p \<and> past_flag p \<and> alive p \<and>
     length (pLoops p) = 1 \<and> winds_down p"
proof -
  obtain p0 where p0: "limiter_main demo_libm (host_for ''limiter'') demo_net = Inr p0" "pMain p0 = AwaitSignal" "running (pState p0)"
    "length (pLoops p0) = 1" by (rule demo_limiter_boots)
  obtain p where p: "life_steps p0 p" "past_flag p" "alive p" "pLoops p = pLoops p0" using shutdown_reaches [OF p0(2,3)] by blast
  have "winds_down p" using control_loops_end [of demo_libm "host_for ''limiter''" demo_net] p0(1) p by blast
  then show ?thesis using p0 p by auto
qed

end
