(* ===== verification/Autopilot_Mission.thy ===== *)
theory Autopilot_Mission
  imports Autopilot_Safety
begin

text \<open>
  The flight of a mission: rounds of the autopilot's control loop, one after the other, with whatever the
  navigation and the other components answer in each. The waypoints are taken in order, none is
  skipped, and the mission is completed as soon as the drone has come near each of them.
\<close>

section \<open>Rounds\<close>

primrec rounds :: "libm \<Rightarrow> ap_cfg \<Rightarrow> (nat \<Rightarrow> env) \<Rightarrow> ap_state \<Rightarrow> nat \<Rightarrow> ap_state" where
  "rounds L c E s 0 = s"
| "rounds L c E s (Suc k) = final (E k) (ap_controlStep L c) (rounds L c E s k)"

text \<open>The navigation state a round works with, after its poll.\<close>

definition nav_seen :: "ap_cfg \<Rightarrow> env \<Rightarrow> ap_state \<Rightarrow> gmap option" where
  "nav_seen c E s = lastNavState (final E (pollNavigationIfDue_ap c) s)"

text \<open>The waypoint the autopilot is flying to.\<close>

definition waypoint :: "ap_state \<Rightarrow> nat" where
  "waypoint s = nat (max 0 (currentStepIndex s))"

definition arrived :: "libm \<Rightarrow> ap_cfg \<Rightarrow> env \<Rightarrow> gmap list \<Rightarrow> ap_state \<Rightarrow> bool" where
  "arrived L c E ws s \<longleftrightarrow> (case nav_seen c E s of None \<Rightarrow> False | Some nav \<Rightarrow> fle (distance_to L nav (ws ! waypoint s)) (Fin 2))"

definition flying :: "gmap list \<Rightarrow> ap_state \<Rightarrow> bool" where
  "flying ws s \<longleftrightarrow> apState s = StateExecuting \<and> \<not> koverActive s \<and> waypoint s < length ws \<and>
     (\<exists>m. apMission s = Some m \<and> get_list m ''steps'' = map GMap ws)"

section \<open>One round\<close>

definition flight :: "ap_state \<Rightarrow> (string \<times> gmap option \<times> bool) \<times> int" where
  "flight s = (ap_core s, currentStepIndex s)"

lemma keeps_fst: "keeps (\<lambda>s. (f s, g s)) p \<Longrightarrow> keeps f p"
  by (erule sat_mono) auto

lemma course_keeps:
  "keeps (\<lambda>s. (flight s, lastNavState s)) (sendMotorsTarget c t)" "keeps (\<lambda>s. (flight s, lastNavState s)) (sendCargo c b)"
  "keeps (\<lambda>s. (flight s, lastNavState s)) (apLog c ev d)" "keeps (\<lambda>s. (flight s, lastNavState s)) (notifyDroneportLand c mid)"
  "keeps (\<lambda>s. (flight s, lastNavState s)) (notifyORVDComplete c mid)"
  by (auto simp: sendMotorsTarget_def sendCargo_def ProxyPublishAsync_def logToJournal_def LogEvent_def notifyDroneportLand_def
      notifyORVDComplete_def flight_def ap_core_def intro!: sat_bind_any sat_ProxyRequest)

lemma course_programs:
  "keeps (\<lambda>s. (flight s, lastNavState s)) (flyTo L c nav step)" "keeps (\<lambda>s. (flight s, lastNavState s)) (holdPosition c nav)"
  "keeps (\<lambda>s. (flight s, lastNavState s)) (missionCompleted c mid)"
  unfolding flyTo_def holdPosition_def missionCompleted_def Let_def case_prod_beta
  by (intro sat_andThen course_keeps)+

lemmas flight_keeps = course_programs [THEN keeps_fst]

lemma poll_flight: "keeps flight (pollNavigationIfDue_ap c)"
  using poll_keeps [of c] by (simp add: flight_def)

lemma flying_flight: "flight s' = flight s \<Longrightarrow> flying ws s' = flying ws s \<and> waypoint s' = waypoint s"
  by (simp add: flight_def flying_def waypoint_def ap_core_def)

text \<open>The part of a round that follows the poll.\<close>

lemma control_flying:
  assumes "flying ws s" "lastNavState s = Some nav"
  shows "flight (fst (snd (run E (stepControl L c) s tr))) =
    (if fle (distance_to L nav (ws ! waypoint s)) (Fin 2) then
       (if Suc (waypoint s) = length ws then ((StateCompleted, apMission s, False), int (length ws))
        else (ap_core s, int (waypoint s) + 1))
     else flight s)"
proof -
  obtain m where m: "apState s = StateExecuting" "\<not> koverActive s" "waypoint s < length ws" "apMission s = Some m"
      "get_list m ''steps'' = map GMap ws"
    using assms(1) by (auto simp: flying_def)
  let ?i = "int (waypoint s)"
  have i: "(if currentStepIndex s < 0 then 0 else currentStepIndex s) = ?i" by (simp add: waypoint_def)
  have ws: "ws \<noteq> []" using m(3) by auto
  have "stepControl L c = readState (\<lambda>s. if apState s = StatePreFlight then stepPreFlight c
     else case lastNavState s of None \<Rightarrow> Ret () | Some nav \<Rightarrow>
       if koverActive s then doKover c nav
       else case apMission s of None \<Rightarrow> Ret () | Some mission \<Rightarrow>
         if apState s \<noteq> StateExecuting \<and> apState s \<noteq> StatePaused then Ret ()
         else controlMission L c nav mission (apState s) (currentStepIndex s))"
    by (rule stepControl_def)
  then have step: "run E (stepControl L c) s tr = run E (atWaypoint L c nav StateExecuting (map GMap ws) ?i (ws ! waypoint s)) s tr"
    using m ws assms(2) by (simp add: controlMission_def i)
  show ?thesis
  proof (cases "fle (distance_to L nav (ws ! waypoint s)) (Fin 2)")
    case False
    then show ?thesis using keeps_run [OF flight_keeps(1)] by (simp add: step atWaypoint_def)
  next
    case near: True
    show ?thesis
    proof (cases "Suc (waypoint s) = length ws")
      case True
      let ?s = "s\<lparr>apState := StateCompleted, currentStepIndex := int (length ws)\<rparr>"
      let ?q = "andThen (missionCompleted c (mission_id (apMission s))) (holdPosition c nav)"
      have "keeps flight ?q" by (intro sat_andThen flight_keeps)
      moreover have "run E (stepControl L c) s tr = run E ?q ?s tr"
        using near True by (simp add: step atWaypoint_def del: run_andThen)
      ultimately have "flight (fst (snd (run E (stepControl L c) s tr))) = flight ?s" using keeps_run by metis
      then show ?thesis using near True m(2) by (simp add: flight_def ap_core_def)
    next
      case False
      then show ?thesis using near m(3) by (simp add: step atWaypoint_def flight_def ap_core_def)
    qed
  qed
qed

lemma round_flying:
  assumes "flying ws s"
  shows "flight (final E (ap_controlStep L c) s) =
    (if arrived L c E ws s then
       (if Suc (waypoint s) = length ws then ((StateCompleted, apMission s, False), int (length ws))
        else (ap_core s, int (waypoint s) + 1))
     else flight s)"
proof -
  obtain u s1 tr1 where 1: "run E (pollNavigationIfDue_ap c) s [] = (u, s1, tr1)" by (metis prod_cases3)
  have f: "flight s1 = flight s" using keeps_run [OF poll_flight [of c], of E s "[]"] by (simp add: 1)
  have nav: "nav_seen c E s = lastNavState s1" by (simp add: nav_seen_def final_def 1)
  have r: "final E (ap_controlStep L c) s = fst (snd (run E (stepControl L c) s1 tr1))"
    by (simp add: final_def ap_controlStep_def 1)
  have s1: "flying ws s1" "waypoint s1 = waypoint s" "ap_core s1 = ap_core s" "apMission s1 = apMission s"
    using flying_flight [OF f] assms f by (auto simp: flight_def ap_core_def)
  show ?thesis
  proof (cases "lastNavState s1")
    case None
    then have "run E (stepControl L c) s1 tr1 = ((), s1, tr1)"
      using s1(1) by (simp add: stepControl_def flying_def)
    then show ?thesis using f by (simp add: r arrived_def nav None)
  next
    case (Some nav)
    then show ?thesis using control_flying [OF s1(1) Some, of E L c tr1] f by (simp add: r arrived_def nav s1)
  qed
qed

text \<open>A round moves on by one waypoint or not at all, and ends the flight only at the last.\<close>

lemma round_moves:
  assumes "flying ws s"
  shows "waypoint (final E (ap_controlStep L c) s) = waypoint s + (if arrived L c E ws s then 1 else 0) \<and>
    (flying ws (final E (ap_controlStep L c) s) \<or>
     (apState (final E (ap_controlStep L c) s) = StateCompleted \<and> currentStepIndex (final E (ap_controlStep L c) s) = int (length ws)))"
proof -
  let ?s = "final E (ap_controlStep L c) s"
  note R = round_flying [OF assms, of E L c]
  show ?thesis
  proof (cases "arrived L c E ws s")
    case False
    then show ?thesis using R flying_flight [of ?s s ws] assms by simp
  next
    case True
    show ?thesis
    proof (cases "Suc (waypoint s) = length ws")
      case last: True
      then show ?thesis using R True by (simp add: flight_def ap_core_def waypoint_def [of ?s])
    next
      case False
      then have "Suc (waypoint s) < length ws" using assms by (simp add: flying_def)
      then show ?thesis using R True False assms by (auto simp: flight_def ap_core_def flying_def waypoint_def [of ?s])
    qed
  qed
qed

section \<open>The flight\<close>

lemma waypoints_mono:
  assumes "\<And>k. flying ws (rounds L c E s k)" "j \<le> k"
  shows "waypoint (rounds L c E s j) \<le> waypoint (rounds L c E s k)"
  using assms(2)
proof (induction k)
  case (Suc k)
  then show ?case using round_moves [OF assms(1) [of k], of "E k" L c] by (auto simp: le_Suc_eq)
qed simp

lemma waypoints_grow:
  assumes "\<And>k. flying ws (rounds L c E s k)" "\<And>k. \<exists>j \<ge> k. arrived L c (E j) ws (rounds L c E s j)"
  shows "\<exists>k. n \<le> waypoint (rounds L c E s k)"
proof (induction n)
  case (Suc n)
  then obtain k where k: "n \<le> waypoint (rounds L c E s k)" ..
  obtain j where j: "k \<le> j" "arrived L c (E j) ws (rounds L c E s j)" using assms(2) by blast
  have "n \<le> waypoint (rounds L c E s j)" using k waypoints_mono [OF assms(1) j(1)] by simp
  then have "Suc n \<le> waypoint (rounds L c E s (Suc j))" using round_moves [OF assms(1) [of j], of "E j" L c] j(2) by simp
  then show ?case by blast
qed simp

lemma flight_ends:
  assumes "flying ws s" "\<And>k. \<exists>j \<ge> k. flying ws (rounds L c E s j) \<longrightarrow> arrived L c (E j) ws (rounds L c E s j)"
  obtains k where "\<And>j. j < k \<Longrightarrow> flying ws (rounds L c E s j)" "\<not> flying ws (rounds L c E s k)" "0 < k"
proof -
  have "\<exists>k. \<not> flying ws (rounds L c E s k)"
  proof (rule ccontr)
    assume "\<not> ?thesis"
    then have all: "\<And>k. flying ws (rounds L c E s k)" by blast
    then have "\<And>k. \<exists>j \<ge> k. arrived L c (E j) ws (rounds L c E s j)" using assms(2) by blast
    from waypoints_grow [OF all this, of "length ws"] show False using all by (auto simp: flying_def not_le [symmetric])
  qed
  then obtain k where "\<not> flying ws (rounds L c E s k)" "\<And>j. j < k \<Longrightarrow> flying ws (rounds L c E s j)"
    using exists_least_iff [of "\<lambda>k. \<not> flying ws (rounds L c E s k)"] by blast
  moreover from this have "0 < k" using assms(1) by (cases k) auto
  ultimately show thesis using that by blast
qed

section \<open>Properties\<close>

text \<open>C14. A mission is flown to its end. Started in EXECUTING with the waypoints \<open>ws\<close>, if the drone keeps coming
  within two metres of the waypoint it is flying to, then after finitely many control rounds the autopilot is in COMPLETED with
  all waypoints counted; until then it stays in EXECUTING, and each round moves on to the next waypoint exactly
  when the drone has arrived, so that none is skipped.\<close>

theorem mission_flown:
  assumes "flying ws s"
    and "\<And>k. \<exists>j \<ge> k. flying ws (rounds L c E s j) \<longrightarrow> arrived L c (E j) ws (rounds L c E s j)"
  shows "\<exists>k. apState (rounds L c E s k) = StateCompleted \<and> currentStepIndex (rounds L c E s k) = int (length ws) \<and>
    (\<forall>j < k. flying ws (rounds L c E s j) \<and>
       waypoint (rounds L c E s (Suc j)) = waypoint (rounds L c E s j) + (if arrived L c (E j) ws (rounds L c E s j) then 1 else 0))"
proof -
  obtain k where k: "\<And>j. j < k \<Longrightarrow> flying ws (rounds L c E s j)" "\<not> flying ws (rounds L c E s k)" "0 < k"
    using flight_ends [OF assms] by blast
  then obtain i where i: "k = Suc i" by (cases k) auto
  have moves: "waypoint (rounds L c E s (Suc j)) = waypoint (rounds L c E s j) + (if arrived L c (E j) ws (rounds L c E s j) then 1 else 0)"
    if "j < k" for j
    using round_moves [OF k(1) [OF that], of "E j" L c] by simp
  have "apState (rounds L c E s k) = StateCompleted \<and> currentStepIndex (rounds L c E s k) = int (length ws)"
    using round_moves [of ws "rounds L c E s i" "E i" L c] k(1) [of i] k(2) by (simp add: i)
  then show ?thesis using k(1) moves by blast
qed

text \<open>A sample mission of two waypoints over the same place.\<close>

definition demo_ws :: "gmap list" where
  "demo_ws = [[(''lat'', GFloat (Fin 1)), (''alt_m'', GFloat (Fin 10))], [(''lat'', GFloat (Fin 1)), (''alt_m'', GFloat (Fin 20))]]"

definition demo_delivery :: ap_state where
  "demo_delivery = (snd demo_ap)\<lparr>apMission := Some [(''steps'', GList (map GMap demo_ws))],
     apState := StateExecuting, lastNavState := Some [(''lat'', GFloat (Fin 1))]\<rparr>"

lemma demo_nav_kept: "lastNavState (fst (snd (run demo_env (pollNavigationIfDue_ap c) s tr))) = lastNavState s"
  by (simp add: pollNavigationIfDue_ap_def ProxyRequest_def demo_env_def proxy_answer_def Let_def split: prod.splits bool.splits)

definition cruising :: "ap_state \<Rightarrow> bool" where
  "cruising s \<longleftrightarrow> apState s \<in> {StateExecuting, StateCompleted} \<and> \<not> koverActive s"

text \<open>A contract that keeps the course keeps the cruise too.\<close>

lemma keeps_cruise:
  "keeps (\<lambda>s. (flight s, lastNavState s)) p \<Longrightarrow> sat cruising (\<lambda>s s'. lastNavState s' = lastNavState s) anyMessage anyResult p"
proof (induction p)
  case (Atom u k)
  then have "flight (u s) = flight s" "lastNavState (u s) = lastNavState s" for s by auto
  then show ?case using Atom by (auto simp: cruising_def flight_def ap_core_def)
qed auto

lemmas cruise_programs = course_programs [THEN keeps_cruise]

lemma waypoint_cruises:
  "sat cruising (\<lambda>s s'. lastNavState s' = lastNavState s) anyMessage anyResult (atWaypoint L c nav StateExecuting steps i step)"
  by (simp add: atWaypoint_def cruise_programs sat_andThen) (simp add: cruising_def)

lemma control_cruises:
  "sat cruising (\<lambda>s s'. lastNavState s' = lastNavState s) anyMessage anyResult (controlMission L c nav m StateExecuting i)"
  unfolding controlMission_def Let_def
  by (simp add: waypoint_cruises cruise_programs split: gval.split) (simp add: cruising_def)

lemma demo_rounds_cruise:
  assumes "cruising s"
  shows "cruising (final demo_env (ap_controlStep L c) s) \<and> lastNavState (final demo_env (ap_controlStep L c) s) = lastNavState s"
proof -
  obtain u s1 tr1 where 1: "run demo_env (pollNavigationIfDue_ap c) s [] = (u, s1, tr1)" by (metis prod_cases3)
  have "lastNavState s1 = lastNavState s" "flight s1 = flight s"
    using demo_nav_kept [of c s "[]"] keeps_run [OF poll_flight [of c], of demo_env s "[]"] by (simp_all add: 1)
  then have s1: "lastNavState s1 = lastNavState s" "cruising s1" using assms by (auto simp: cruising_def flight_def ap_core_def)
  define p where "p = (case lastNavState s1 of None \<Rightarrow> Ret () | Some nav \<Rightarrow> (case apMission s1 of None \<Rightarrow> Ret ()
    | Some m \<Rightarrow> if apState s1 = StateCompleted then Ret () else controlMission L c nav m StateExecuting (currentStepIndex s1)))"
  have "sat cruising (\<lambda>s s'. lastNavState s' = lastNavState s) anyMessage anyResult p"
    unfolding p_def by (simp add: control_cruises split: option.split)
  moreover have "run demo_env (stepControl L c) s1 tr1 = run demo_env p s1 tr1"
    using s1(2) by (auto simp: stepControl_def p_def cruising_def ap_states split: option.split)
  moreover obtain u' s2 tr2 where 2: "run demo_env p s1 tr1 = (u', s2, tr2)" by (metis prod_cases3)
  ultimately have "cruising s2 \<and> (\<lambda>s s'. lastNavState s' = lastNavState s)\<^sup>*\<^sup>* s1 s2 \<and> final demo_env (ap_controlStep L c) s = s2"
    using sat_run [of cruising "\<lambda>s s'. lastNavState s' = lastNavState s" anyMessage anyResult p s1 demo_env tr1 u' s2 tr2] s1(2)
    by (simp add: final_def ap_controlStep_def 1)
  moreover have "lastNavState b = lastNavState a" if "(\<lambda>s s'. lastNavState s' = lastNavState s)\<^sup>*\<^sup>* a b" for a b :: ap_state
    using that by (induction rule: rtranclp_induct) auto
  ultimately show ?thesis using s1(1) by metis
qed

lemma demo_arrives:
  assumes "flying demo_ws s" "lastNavState s = Some [(''lat'', GFloat (Fin 1))]"
  shows "arrived demo_libm c demo_env demo_ws s"
proof -
  have "fle (distance_to demo_libm [(''lat'', GFloat (Fin 1))] (demo_ws ! 0)) (Fin 2)"
    "fle (distance_to demo_libm [(''lat'', GFloat (Fin 1))] (demo_ws ! 1)) (Fin 2)" by code_simp+
  moreover have "waypoint s = 0 \<or> waypoint s = 1" using assms(1) by (auto simp: flying_def demo_ws_def)
  moreover have "nav_seen c demo_env s = Some [(''lat'', GFloat (Fin 1))]"
    using demo_nav_kept [of c s "[]"] assms(2) by (simp add: nav_seen_def final_def)
  ultimately show ?thesis by (auto simp: arrived_def)
qed

lemma demo_delivery_flying: "flying demo_ws demo_delivery" "lastNavState demo_delivery = Some [(''lat'', GFloat (Fin 1))]"
  by (simp_all add: flying_def demo_delivery_def demo_ap_def New_ap_def Let_def waypoint_def get_list_def demo_ws_def)

lemma demo_delivery_rounds:
  "cruising (rounds L c (\<lambda>_. demo_env) demo_delivery k) \<and>
   lastNavState (rounds L c (\<lambda>_. demo_env) demo_delivery k) = Some [(''lat'', GFloat (Fin 1))]"
proof (induction k)
  case 0
  then show ?case using demo_delivery_flying by (simp add: cruising_def flying_def)
next
  case (Suc k)
  then show ?case using demo_rounds_cruise [of "rounds L c (\<lambda>_. demo_env) demo_delivery k" L c] by simp
qed

theorem mission_flown_witness:
  "\<exists>k. apState (rounds demo_libm (fst demo_ap) (\<lambda>_. demo_env) demo_delivery k) = StateCompleted \<and>
     currentStepIndex (rounds demo_libm (fst demo_ap) (\<lambda>_. demo_env) demo_delivery k) = 2"
proof -
  let ?r = "rounds demo_libm (fst demo_ap) (\<lambda>_. demo_env) demo_delivery"
  have "\<exists>j \<ge> k. flying demo_ws (?r j) \<longrightarrow> arrived demo_libm (fst demo_ap) demo_env demo_ws (?r j)" for k
    using demo_arrives demo_delivery_rounds by blast
  from mission_flown [of demo_ws demo_delivery demo_libm "fst demo_ap" "\<lambda>_. demo_env", OF demo_delivery_flying(1) this]
  show ?thesis by (auto simp: demo_ws_def)
qed

end
