(* ===== verification/Full_System.thy ===== *)
theory Full_System
  imports System_Safety Limiter_Safety Autopilot_Safety Mission_Load Telemetry Navigation
begin

text \<open>
  The whole drone: the core of \<open>Drone_System\<close> (monitor, motors, cargo bay, broker, outside world) together with the
  emergency component, the limiter, the autopilot, the mission handler, telemetry, navigation and the journal, each a
  process with any number of goroutines in flight. Every step of the whole is simulated by steps of the core, where the
  other components are part of the world: so what holds of the core against every world holds of the whole.
\<close>

section \<open>The composition\<close>

record craft_cfg =
  coreCfg :: sys_cfg
  emHost :: host
  emCfg :: em_cfg
  limCfg :: lim_cfg
  apCfg :: ap_cfg
  mhHost :: host
  mhCfg :: mh_cfg
  tlCfg :: tl_cfg
  navCfg :: nav_cfg
  jnJson :: "gval \<Rightarrow> string option"
  jnDecodes :: "gval \<Rightarrow> bool"
  jnCfg :: jn_cfg

record drone =
  core :: sys
  pEmergency :: "em_state proc"
  pLimiter :: "lim_state proc"
  pAutopilot :: "ap_state proc"
  pMission :: "mh_state proc"
  pTelemetry :: "tl_state proc"
  pNavigation :: "nav_state proc"
  pJournal :: "jn_state proc"

text \<open>What arrives at a component, and what its process may start: a handler for a message of its topic, a round of its
  loop. The journal's handlers meet any behaviour of the file system.\<close>

abbreviation mail :: "drone \<Rightarrow> BaseComponent \<Rightarrow> gmap set" where
  "mail d b \<equiv> inbox (core d) (bcTopic b)"

definition em_runs :: "craft_cfg \<Rightarrow> drone \<Rightarrow> (em_state, unit) prog set" where
  "em_runs c d = em_dispatch (emHost c) (emCfg c) ` mail d (emBase (emCfg c))"

definition lim_runs :: "craft_cfg \<Rightarrow> drone \<Rightarrow> (lim_state, unit) prog set" where
  "lim_runs c d = lim_dispatch (limCfg c) ` mail d (limBase (limCfg c)) \<union> {lim_controlStep (cfgLibm (coreCfg c)) (limCfg c)}"

definition ap_runs :: "craft_cfg \<Rightarrow> drone \<Rightarrow> (ap_state, unit) prog set" where
  "ap_runs c d = ap_dispatch (apCfg c) ` mail d (apBase (apCfg c)) \<union> {ap_controlStep (cfgLibm (coreCfg c)) (apCfg c)}"

definition mh_runs :: "craft_cfg \<Rightarrow> drone \<Rightarrow> (mh_state, unit) prog set" where
  "mh_runs c d = mh_dispatch (mhHost c) (mhCfg c) ` mail d (mhBase (mhCfg c))"

definition tl_runs :: "craft_cfg \<Rightarrow> drone \<Rightarrow> (tl_state, unit) prog set" where
  "tl_runs c d = tl_dispatch (tlCfg c) ` mail d (tlBase (tlCfg c)) \<union> {pollOnce (tlCfg c)}"

definition nav_runs :: "craft_cfg \<Rightarrow> drone \<Rightarrow> (nav_state, unit) prog set" where
  "nav_runs c d = nav_dispatch (navCfg c) ` mail d (navBase (navCfg c))"

definition jn_runs :: "craft_cfg \<Rightarrow> drone \<Rightarrow> (jn_state, unit) prog set" where
  "jn_runs c d = {jn_dispatch (jnJson c) (jnDecodes c) (jnCfg c) (w, m) |w m. m \<in> mail d (jnBase (jnCfg c))}"

definition send :: "event list \<Rightarrow> drone \<Rightarrow> drone" where
  "send l d = d\<lparr>core := emit l (core d)\<rparr>"

inductive drone_step :: "craft_cfg \<Rightarrow> drone \<Rightarrow> drone \<Rightarrow> bool" for c :: craft_cfg where
  inner: "sys_step (coreCfg c) (core d) e \<Longrightarrow> drone_step c d (d\<lparr>core := e\<rparr>)"
| emergency: "proc_step (em_runs c d) (pEmergency d) l p \<Longrightarrow> drone_step c d (send l (d\<lparr>pEmergency := p\<rparr>))"
| limiter: "proc_step (lim_runs c d) (pLimiter d) l p \<Longrightarrow> drone_step c d (send l (d\<lparr>pLimiter := p\<rparr>))"
| autopilot: "proc_step (ap_runs c d) (pAutopilot d) l p \<Longrightarrow> drone_step c d (send l (d\<lparr>pAutopilot := p\<rparr>))"
| mission: "proc_step (mh_runs c d) (pMission d) l p \<Longrightarrow> drone_step c d (send l (d\<lparr>pMission := p\<rparr>))"
| telemetry: "proc_step (tl_runs c d) (pTelemetry d) l p \<Longrightarrow> drone_step c d (send l (d\<lparr>pTelemetry := p\<rparr>))"
| navigation: "proc_step (nav_runs c d) (pNavigation d) l p \<Longrightarrow> drone_step c d (send l (d\<lparr>pNavigation := p\<rparr>))"
| journal: "proc_step (jn_runs c d) (pJournal d) l p \<Longrightarrow> drone_step c d (send l (d\<lparr>pJournal := p\<rparr>))"

text \<open>The ten components as their constructors make them, under the ids of the compose file.\<close>

definition drone_deployment :: "craft_cfg \<Rightarrow> drone \<Rightarrow> bool" where
  "drone_deployment c d0 \<longleftrightarrow> deployment (coreCfg c) (core d0) \<and>
     (\<exists>cfg. ComponentID cfg = ''emergency'' \<and> emCfg c = fst (New_em (emHost c) cfg) \<and> pEmergency d0 = (snd (New_em (emHost c) cfg), [])) \<and>
     (\<exists>h cfg. ComponentID cfg = ''limiter'' \<and> limCfg c = fst (New_lim h cfg) \<and> pLimiter d0 = (snd (New_lim h cfg), [])) \<and>
     (\<exists>h cfg. ComponentID cfg = ''autopilot'' \<and> apCfg c = fst (New_ap h cfg) \<and> pAutopilot d0 = (snd (New_ap h cfg), [])) \<and>
     (\<exists>cfg. ComponentID cfg = ''mission_handler'' \<and> mhCfg c = fst (New_mh (mhHost c) cfg) \<and> pMission d0 = (snd (New_mh (mhHost c) cfg), [])) \<and>
     (\<exists>h cfg. ComponentID cfg = ''telemetry'' \<and> tlCfg c = fst (New_tl h cfg) \<and> pTelemetry d0 = (snd (New_tl h cfg), [])) \<and>
     (\<exists>cfg. ComponentID cfg = ''navigation'' \<and> navCfg c = fst (New_nav cfg) \<and> pNavigation d0 = (snd (New_nav cfg), [])) \<and>
     (\<exists>h cfg. ComponentID cfg = ''journal'' \<and> jnCfg c = fst (New_jn h cfg) \<and> pJournal d0 = (snd (New_jn h cfg), []))"

section \<open>The invariant\<close>

text \<open>A process keeps its state invariant, and its goroutines send under the component's own name.\<close>

definition says :: "string \<Rightarrow> string \<Rightarrow> gmap \<Rightarrow> bool" where
  "says nm t m \<longleftrightarrow> get_str m ''sender'' = nm"

abbreviation decent :: "('s \<Rightarrow> bool) \<Rightarrow> string \<Rightarrow> ('s, 'a) prog \<Rightarrow> bool" where
  "decent I nm p \<equiv> sat I anyChange (says nm) anyResult p"

definition behaved :: "('s \<Rightarrow> bool) \<Rightarrow> string \<Rightarrow> 's proc \<Rightarrow> bool" where
  "behaved I nm x \<longleftrightarrow> I (fst x) \<and> (\<forall>p \<in> set (snd x). decent I nm p)"

lemma behaved_start [simp]: "behaved I nm (s, []) \<longleftrightarrow> I s"
  by (simp add: behaved_def)

lemma behaved_step:
  assumes "proc_step H x l x'" "behaved I nm x" "\<And>p. p \<in> H \<Longrightarrow> decent I nm p"
  shows "behaved I nm x' \<and> (\<forall>(t, m) \<in> set (sent l). get_str m ''sender'' = nm)"
proof -
  obtain s ps s' ps' where x: "x = (s, ps)" "x' = (s', ps')" by (cases x, cases x')
  have "(\<forall>p \<in> set ps'. decent I nm p) \<and> (\<forall>(t, m) \<in> set (sent l). says nm t m) \<and> I s'"
    by (rule proc_step_goroutines [OF assms(1) [unfolded x]])
       (use assms(2,3) x in \<open>auto simp: behaved_def dest: sat_pstep\<close>)
  then show ?thesis by (auto simp: behaved_def x says_def)
qed

definition drone_wired :: "craft_cfg \<Rightarrow> bool" where
  "drone_wired c \<longleftrightarrow>
     em_wired (emCfg c) \<and> bcID (emBase (emCfg c)) = ''emergency'' \<and> lim_wired (limCfg c) \<and> bcID (limBase (limCfg c)) = ''limiter'' \<and>
     ap_wired (apCfg c) \<and> bcID (apBase (apCfg c)) = ''autopilot'' \<and> mh_wired (mhCfg c) \<and> bcID (mhBase (mhCfg c)) = ''mission_handler'' \<and>
     tl_wired (tlCfg c) \<and> bcID (tlBase (tlCfg c)) = ''telemetry'' \<and> bcID (navBase (navCfg c)) = ''navigation'' \<and>
     bcID (jnBase (jnCfg c)) = ''journal''"

definition drone_inv :: "craft_cfg \<Rightarrow> drone \<Rightarrow> bool" where
  "drone_inv c d \<longleftrightarrow>
     behaved em_inv ''emergency'' (pEmergency d) \<and> behaved (lim_inv (limCfg c)) ''limiter'' (pLimiter d) \<and>
     behaved ap_inv ''autopilot'' (pAutopilot d) \<and> behaved mh_inv ''mission_handler'' (pMission d) \<and>
     behaved (\<lambda>_. True) ''telemetry'' (pTelemetry d) \<and> behaved nav_inv ''navigation'' (pNavigation d) \<and>
     behaved jn_inv ''journal'' (pJournal d)"

lemma decent_via: "sat I G (via_monitor nm mon) anyResult p \<Longrightarrow> decent I nm p"
  by (erule sat_mono) (simp_all add: via_monitor_def says_def)

lemma says_response [simp]: "says nm t (CreateResponse now cid pl nm ok e)"
  by (simp add: says_def)

lemma mh_sat_dispatch: "mh_wired c \<Longrightarrow> mh_sat c (mh_dispatch h c m)"
  unfolding mh_dispatch_def by (rule sat_registered) (auto intro: mh_sat_handlers)

lemma decent_runs:
  assumes "drone_wired c"
  shows "p \<in> em_runs c d \<Longrightarrow> decent em_inv ''emergency'' p"
    and "p' \<in> lim_runs c d \<Longrightarrow> decent (lim_inv (limCfg c)) ''limiter'' p'"
    and "q \<in> ap_runs c d \<Longrightarrow> decent ap_inv ''autopilot'' q"
    and "q' \<in> mh_runs c d \<Longrightarrow> decent mh_inv ''mission_handler'' q'"
    and "r \<in> tl_runs c d \<Longrightarrow> decent (\<lambda>_. True) ''telemetry'' r"
    and "r' \<in> nav_runs c d \<Longrightarrow> decent nav_inv ''navigation'' r'"
    and "u \<in> jn_runs c d \<Longrightarrow> decent jn_inv ''journal'' u"
proof -
  note w = assms [unfolded drone_wired_def]
  show "p \<in> em_runs c d \<Longrightarrow> decent em_inv ''emergency'' p"
    using w em_sat_dispatch [of "emCfg c" "emHost c"] by (auto simp: em_runs_def intro!: decent_via)
  show "p' \<in> lim_runs c d \<Longrightarrow> decent (lim_inv (limCfg c)) ''limiter'' p'"
    using w lim_sat_threads [of "limCfg c" p' "cfgLibm (coreCfg c)"] by (auto simp: lim_runs_def lim_threads_def intro!: decent_via)
  show "q \<in> ap_runs c d \<Longrightarrow> decent ap_inv ''autopilot'' q"
    using w ap_sat_threads [of "apCfg c" q "cfgLibm (coreCfg c)"] by (auto simp: ap_runs_def ap_threads_def intro!: decent_via)
  show "q' \<in> mh_runs c d \<Longrightarrow> decent mh_inv ''mission_handler'' q'"
    using w mh_sat_dispatch [of "mhCfg c" "mhHost c"] by (auto simp: mh_runs_def intro!: decent_via)
  show "r \<in> tl_runs c d \<Longrightarrow> decent (\<lambda>_. True) ''telemetry'' r"
    using w tl_sat_threads [of "tlCfg c" r]
    by (auto simp: tl_runs_def tl_threads_def tl_out_def via_monitor_def says_def elim!: sat_mono)
  show "r' \<in> nav_runs c d \<Longrightarrow> decent nav_inv ''navigation'' r'"
    using w by (auto simp: nav_runs_def nav_dispatch_def nav_registerHandlers_def handleNavState_def handleUpdateConfig_nav_def
        handleGetState_nav_def nav_inv_def distinct_put_all says_def split: option.splits intro!: sat_registered)
  show "u \<in> jn_runs c d \<Longrightarrow> decent jn_inv ''journal'' u"
  proof -
    assume "u \<in> jn_runs c d"
    then obtain v m where "u = jn_dispatch (jnJson c) (jnDecodes c) (jnCfg c) (v, m)" by (auto simp: jn_runs_def)
    then have "sat jn_inv jn_guar (only_replies ''journal'') anyResult u"
      using w jn_sat_handlers [of _ _ "jnJson c" "jnDecodes c" "jnCfg c" v]
      by (auto simp: jn_dispatch_def intro!: sat_registered)
    then show ?thesis by (rule sat_mono) (simp_all add: only_replies_def says_def)
  qed
qed

text \<open>One step of a component other than the three of the core: it is a step of the world there.\<close>

lemma client_sends:
  assumes "\<forall>(t, m) \<in> set (sent l). get_str m ''sender'' = nm" "nm \<noteq> ''security_monitor''"
  shows "sys_step c e (emit l e)"
proof -
  have "get_str m' ''sender'' \<noteq> ''security_monitor''" if m': "(t, m') \<in> \<Union> (on_wire ` set l)" for t m'
  proof -
    obtain ev where ev: "ev \<in> set l" "(t, m') \<in> on_wire ev" using m' by blast
    from ev(2) obtain m where "(t, m) \<in> set (sent [ev])" "get_str m' ''sender'' = get_str m ''sender''"
      by (rule on_wire_text)
    then show ?thesis using assms sent_single [OF ev(1)] by auto
  qed
  then show ?thesis unfolding emit_def by (rule sys_step.world)
qed

lemma client_step:
  assumes "proc_step H x l x'" "behaved I nm x" "\<And>p. p \<in> H \<Longrightarrow> decent I nm p" "nm \<noteq> ''security_monitor''"
  shows "behaved I nm x' \<and> sys_step c e (emit l e)"
  using behaved_step [OF assms(1-3)] client_sends [OF _ assms(4)] by blast

lemma drone_step_core:
  assumes "drone_step c d d'" "drone_inv c d" "drone_wired c"
  shows "sys_step (coreCfg c) (core d) (core d') \<and> drone_inv c d'"
proof -
  note inv = assms(2) [unfolded drone_inv_def]
  note runs = decent_runs [OF assms(3), where d = d]
  show ?thesis
    using assms(1)
  proof (cases rule: drone_step.cases)
    case (inner e)
    then show ?thesis using inv by (simp add: drone_inv_def)
  next
    case (emergency l p)
    then show ?thesis using inv client_step [OF emergency(2) _ runs(1), of "coreCfg c" "core d"] by (simp add: drone_inv_def send_def)
  next
    case (limiter l p)
    then show ?thesis using inv client_step [OF limiter(2) _ runs(2), of "coreCfg c" "core d"] by (simp add: drone_inv_def send_def)
  next
    case (autopilot l p)
    then show ?thesis using inv client_step [OF autopilot(2) _ runs(3), of "coreCfg c" "core d"] by (simp add: drone_inv_def send_def)
  next
    case (mission l p)
    then show ?thesis using inv client_step [OF mission(2) _ runs(4), of "coreCfg c" "core d"] by (simp add: drone_inv_def send_def)
  next
    case (telemetry l p)
    then show ?thesis using inv client_step [OF telemetry(2) _ runs(5), of "coreCfg c" "core d"] by (simp add: drone_inv_def send_def)
  next
    case (navigation l p)
    then show ?thesis using inv client_step [OF navigation(2) _ runs(6), of "coreCfg c" "core d"] by (simp add: drone_inv_def send_def)
  next
    case (journal l p)
    then show ?thesis using inv client_step [OF journal(2) _ runs(7), of "coreCfg c" "core d"] by (simp add: drone_inv_def send_def)
  qed
qed

lemma New_nav_inv: "nav_inv (snd (New_nav cfg))"
  by (simp add: New_nav_def nav_inv_def distinct_put_all)

lemma New_ids:
  "bcID (emBase (fst (New_em h cfg))) = ComponentID cfg" "bcID (limBase (fst (New_lim h cfg))) = ComponentID cfg"
  "bcID (apBase (fst (New_ap h cfg))) = ComponentID cfg" "bcID (mhBase (fst (New_mh h cfg))) = ComponentID cfg"
  "bcID (tlBase (fst (New_tl h cfg))) = ComponentID cfg" "bcID (navBase (fst (New_nav cfg))) = ComponentID cfg"
  "bcID (jnBase (fst (New_jn h cfg))) = ComponentID cfg"
  by (simp_all add: New_em_def New_lim_def New_ap_def New_mh_def New_tl_def New_nav_def New_jn_def newBase_def Let_def)

lemma New_jn_inv: "jn_inv (snd (New_jn h cfg))"
  by (simp add: New_jn_def jn_inv_def)

lemma drone_start:
  assumes "drone_deployment c d0"
  shows "deployment (coreCfg c) (core d0) \<and> drone_inv c d0 \<and> drone_wired c"
  using assms unfolding drone_deployment_def
  by (elim conjE exE)
    (simp add: drone_inv_def drone_wired_def New_ids New_em_inv New_lim_inv New_ap_inv New_mh_inv New_nav_inv New_jn_inv)

text \<open>Every execution of the drone is one of the core in some world, and every component keeps its invariant.\<close>

lemma drone_reaches:
  assumes "drone_deployment c d0" "(drone_step c)\<^sup>*\<^sup>* d0 d"
  shows "(sys_step (coreCfg c))\<^sup>*\<^sup>* (core d0) (core d) \<and> drone_inv c d"
  using assms(2)
proof (induction rule: rtranclp_induct)
  case base
  then show ?case using drone_start [OF assms(1)] by simp
next
  case (step d d')
  then show ?case using drone_step_core [OF step.hyps(2)] drone_start [OF assms(1)] by (meson rtranclp.rtrancl_into_rtrancl)
qed

lemma inner_steps: "(sys_step (coreCfg c))\<^sup>*\<^sup>* e e' \<Longrightarrow> core d = e \<Longrightarrow> (drone_step c)\<^sup>*\<^sup>* d (d\<lparr>core := e'\<rparr>)"
proof (induction rule: rtranclp_induct)
  case base
  then have "d\<lparr>core := e\<rparr> = d" by simp
  then show ?case by simp
next
  case (step e1 e2)
  have "drone_step c (d\<lparr>core := e1\<rparr>) (d\<lparr>core := e1\<rparr>\<lparr>core := e2\<rparr>)" by (rule drone_step.inner) (simp add: step.hyps(2))
  then show ?case using step by (simp add: rtranclp.rtrancl_into_rtrancl)
qed

end
