(* ===== verification/Drone_Chain.thy ===== *)
theory Drone_Chain
  imports Full_System
begin

text \<open>
  The chain of safety functions in the whole drone: from a breach of the geofence through limiter, monitor, emergency component
  and monitor again to the actuators.
\<close>

section \<open>Messages on the broker\<close>

text \<open>What arrives is what was sent, but for the two fields a request adds.\<close>

definition same_text :: "gmap \<Rightarrow> gmap \<Rightarrow> bool" where
  "same_text m f \<longleftrightarrow> (\<forall>k. k \<notin> {''reply_to'', ''correlation_id''} \<longrightarrow> map_of m k = map_of f k)"

lemma same_text_readers:
  assumes "same_text m f" "k \<notin> {''reply_to'', ''correlation_id''}"
  shows "get_str m k = get_str f k" "get_map m k = get_map f k"
  using assms by (simp_all add: same_text_def get_str_def get_map_def)

lemma json_map_put: "json_map m \<Longrightarrow> json_val v \<Longrightarrow> json_map (put k v m)"
  using set_put_subset [of k v m] by (fastforce simp: json_map_def)

lemma on_wire_json:
  assumes "json_map f" "(t, f) \<in> set (sent l)"
  shows "\<exists>m. (t, m) \<in> \<Union> (on_wire ` set l) \<and> same_text m f"
  using assms(2)
proof (induction l rule: sent.induct)
  case (2 t' m e l)
  have "(t, f) = (t', m) \<Longrightarrow> ?case" using wire_json_map [OF assms(1)] by (auto simp: same_text_def)
  then show ?case using 2 by auto
next
  case (3 t' m r l)
  let ?f = "put ''reply_to'' (GStr []) (put ''correlation_id'' (GStr []) f)"
  have "wire_map ?f = Some ?f" by (intro wire_json_map json_map_put assms(1)) simp_all
  then have "(t, f) = (t', m) \<Longrightarrow> (t, ?f) \<in> on_wire (Requested t' m r) \<and> same_text ?f f" by (auto simp: same_text_def)
  then have "(t, f) = (t', m) \<Longrightarrow> ?case" by (auto intro!: exI [of _ ?f])
  then show ?case using 3 by auto
qed auto

section \<open>Limiter, monitor, emergency component\<close>

text \<open>A round of the limiter while nobody answers: what the geofence looks at stays as it is, and a new breach is reported.\<close>

abbreviation geo :: "lim_state \<Rightarrow> gmap option \<times> gmap option \<times> float64 \<times> float64 \<times> string" where
  "geo s \<equiv> (limMission s, limLastNav s, maxDistanceFromPathM s, maxAltDeviationM s, limState s)"

lemma polls_keep_geo:
  "geo (fst (snd (run demo_env (pollNavigationIfDue c) s tr))) = geo s"
  "geo (fst (snd (run demo_env (pollTelemetryIfDue c) s tr))) = geo s"
  by (simp_all add: pollNavigationIfDue_def pollTelemetryIfDue_def ifDue_def proxyRequest_lim_def ProxyRequest_def
      demo_env_def proxy_answer_def Let_def split: prod.splits bool.splits)

lemma telemetry_keeps_geo: "keeps geo (pollORVDTelemetryIfDue c)"
  by (auto simp: pollORVDTelemetryIfDue_def ifDue_def runORVDSendTelemetry_def callORVD_def ProxyRequest_def
      publishOREmergencyFromORVD_def reportORVDIncident_def ProxyPublishAsync_def Let_def
      split: prod.splits bool.splits option.splits sum.splits intro!: sat_bind_any sat_andThen)

lemma round_raises_alarm:
  assumes "limMission s = Some mission" "limLastNav s = Some nav" "deviations L mission nav = Some (d, a)"
    and "classify d a (maxDistanceFromPathM s) (maxAltDeviationM s) = StateEmergency" "limState s \<noteq> StateEmergency"
  shows "alarm c (breach_details s d a) \<in> set (outputs demo_env (lim_controlStep L c) s)"
proof -
  obtain u1 s1 t1 where r1: "run demo_env (pollNavigationIfDue c) s [] = (u1, s1, t1)" by (cases "run demo_env (pollNavigationIfDue c) s []")
  obtain u2 s2 t2 where r2: "run demo_env (pollTelemetryIfDue c) s1 t1 = (u2, s2, t2)" by (cases "run demo_env (pollTelemetryIfDue c) s1 t1")
  obtain u3 s3 t3 where r3: "run demo_env (pollORVDTelemetryIfDue c) s2 t2 = (u3, s3, t3)" by (cases "run demo_env (pollORVDTelemetryIfDue c) s2 t2")
  have geo: "geo s3 = geo s"
    using polls_keep_geo(1) [of c s "[]"] polls_keep_geo(2) [of c s1 t1] keeps_run [OF telemetry_keeps_geo, of demo_env c s2 t2] r1 r2 r3
    by simp
  then have b: "breach_details s3 d a = breach_details s d a" by (simp add: breach_details_def)
  obtain new where "run demo_env (publishEmergency c d a) (s3\<lparr>limState := StateEmergency\<rparr>) t3 =
      ((), s3\<lparr>limState := StateEmergency\<rparr>, t3 @ new)" "alarm c (breach_details s d a) \<in> set (sent new)"
    using run_publishEmergency [of demo_env c d a "s3\<lparr>limState := StateEmergency\<rparr>" t3] b by auto
  moreover have "limMission s3 = Some mission" "limLastNav s3 = Some nav" "limState s3 \<noteq> StateEmergency"
    "classify d a (maxDistanceFromPathM s3) (maxAltDeviationM s3) = StateEmergency"
    using geo assms by simp_all
  ultimately show ?thesis
    by (simp add: outputs_def lim_controlStep_def r1 r2 r3 recalculate_def assms(3) Let_def)
qed

text \<open>A publication that the gate allows leaves the monitor under its own name with the client's data.\<close>

lemma gate_passes:
  assumes "sm_inv c s" "same_text m (proxy_msg p ''proxy_publish'' t a d)" "pxSender p \<noteq> []"
    and "gate_allows c (gate_of s) (key (pxSender p) t a)" "TrimSpace t = t" "t \<noteq> []" "TrimSpace a = a" "a \<noteq> []"
  shows "(t, forward_msg c a d) \<in> set (outputs E (sm_dispatch c m) s)"
proof (rule sm_dispatch_outputs)
  note read = same_text_readers [OF assms(2)]
  show "get_str m ''action'' = ''proxy_publish''" by (simp add: read) (simp add: proxy_msg_def get_str_def)
  have "gate_forwards c m (gate_of s) = [(t, forward_msg c a d)]"
  proof -
    have "proxy_sender m = pxSender p" using assms(3) by (simp add: proxy_sender_def read) (simp add: proxy_msg_def get_str_def)
    with assms(4-) show ?thesis
      by (simp add: gate_forwards_def read) (simp add: proxy_msg_def get_map_def extractTarget_def getStr_def str_def nilmap_def)
  qed
  then show "(t, forward_msg c a d) \<in> set (outputs E (handleProxyPublish c m) s)"
    using proxy_handlers_run(1) [OF assms(1), of E m] by simp
qed

text \<open>The emergency component on an alarm that the monitor passed on, when the broker accepts its messages.\<close>

lemma emergency_runs:
  assumes "same_text m (forward_msg c ''limiter_event'' (emergency_payload details))" "bcID (smBase c) = ''security_monitor''"
  shows "run demo_env (handleLimiterEvent e m) s [] =
    (Inr (Some [(''ok'', GBool True)]), s\<lparr>active := True\<rparr>, map (\<lambda>(t, f). Published t f None) (protocol e [] details))"
  using assms
  by (simp add: handleLimiterEvent_def IsTrustedSender_iff same_text_readers)
     (simp add: forward_msg_def emergency_payload_def get_str_def get_map_def nilmap_def setActive_def protocol_def
       ProxyPublishAsync_def LogEvent_def demo_env_def Let_def)

lemma emergency_serves:
  assumes "same_text m (forward_msg c ''limiter_event'' (emergency_payload details))" "bcID (smBase c) = ''security_monitor''"
  shows "active (final demo_env (em_dispatch h e m) s) \<and>
    set (map (\<lambda>(t, f). Published t f None) (protocol e [] details)) \<subseteq> set (snd (snd (run demo_env (em_dispatch h e m) s [])))"
proof -
  let ?hs = "registered (emBase e) (em_registerHandlers h e)"
  have act: "get_str m ''action'' = ''limiter_event''" by (simp add: same_text_readers [OF assms(1)]) (simp add: forward_msg_def get_str_def)
  have h: "map_of ?hs ''limiter_event'' = Some (handleLimiterEvent e)" by (rule map_of_registered) (simp_all add: em_registerHandlers_def)
  have "final demo_env (em_dispatch h e m) s = s\<lparr>active := True\<rparr>"
    by (simp add: em_dispatch_def final_handleMessage act h) (simp add: final_def emergency_runs [OF assms])
  moreover obtain k where "em_dispatch h e m = bind (handleLimiterEvent e m) k"
    using act h by (simp add: em_dispatch_def handleMessage_def Let_def)
  moreover have "set tr \<subseteq> set (snd (snd (run demo_env p s tr)))" for p :: "(em_state, unit) prog" and s tr
    using run_appends [of demo_env p s tr] by auto
  note this [of "map (\<lambda>(t, f). Published t f None) (protocol e [] details)" "k (Inr (Some [(''ok'', GBool True)]))" "s\<lparr>active := True\<rparr>"]
  ultimately show ?thesis by (simp add: run_bind emergency_runs [OF assms])
qed

section \<open>The chain\<close>

interpretation limiter_process: hosted_process "drone_step c" pLimiter
    "\<lambda>d. (sysMonitor (core d), sysMotors (core d), sysCargo (core d), pEmergency d)" "\<lambda>d. flight (core d)" "lim_runs c" for c
  by unfold_locales (rule exI, rule conjI, erule drone_step.limiter, simp add: send_def)

interpretation emergency_process: hosted_process "drone_step c" pEmergency
    "\<lambda>d. (sysMonitor (core d), sysMotors (core d), sysCargo (core d), pLimiter d)" "\<lambda>d. flight (core d)" "em_runs c" for c
  by unfold_locales (rule exI, rule conjI, erule drone_step.emergency, simp add: send_def)

text \<open>The drone is wired up: topics agree between the components.\<close>

definition wired_up :: "craft_cfg \<Rightarrow> bool" where
  "wired_up c \<longleftrightarrow> wired_to (emCfg c) (coreCfg c) \<and> pxMonitor (limProxy (limCfg c)) = monitorTopic (coreCfg c) \<and>
     bcTopic (emBase (emCfg c)) = limEmergency (limCfg c) \<and>
     (\<exists>cfg. limEmergency (limCfg c) = BrokerTopicFor cfg ''emergency'')"

text \<open>The limiter is about to see a breach that it has not reported yet, in numbers that can be sent.\<close>

definition breach :: "libm \<Rightarrow> lim_state \<Rightarrow> bool" where
  "breach L s \<longleftrightarrow> limState s \<noteq> StateEmergency \<and> is_fin (maxDistanceFromPathM s) \<and> is_fin (maxAltDeviationM s) \<and>
     (\<exists>mission nav d a. limMission s = Some mission \<and> limLastNav s = Some nav \<and> deviations L mission nav = Some (d, a) \<and>
        is_fin d \<and> is_fin a \<and> (fgt d (maxDistanceFromPathM s) \<or> fgt a (maxAltDeviationM s)))"

lemma alarm_sent:
  assumes "breach (cfgLibm (coreCfg c)) (fst (pLimiter d))" "wired_up c"
  shows "\<exists>d' m details. (drone_step c)\<^sup>*\<^sup>* d d' \<and> sysMonitor (core d') = sysMonitor (core d) \<and> json_map (emergency_payload details) \<and>
    (monitorTopic (coreCfg c), m) \<in> flight (core d') \<and>
    same_text m (proxy_msg (limProxy (limCfg c)) ''proxy_publish'' (limEmergency (limCfg c)) ''limiter_event'' (emergency_payload details))"
proof -
  let ?L = "cfgLibm (coreCfg c)" and ?s = "fst (pLimiter d)" and ?p = "lim_controlStep (cfgLibm (coreCfg c)) (limCfg c)"
  obtain mission nav x a where b: "limState ?s \<noteq> StateEmergency" "limMission ?s = Some mission" "limLastNav ?s = Some nav"
      "deviations ?L mission nav = Some (x, a)" "fgt x (maxDistanceFromPathM ?s) \<or> fgt a (maxAltDeviationM ?s)"
    and fin: "is_fin (maxDistanceFromPathM ?s)" "is_fin (maxAltDeviationM ?s)" "is_fin x" "is_fin a"
    using assms(1) by (auto simp: breach_def)
  let ?e = "emergency_payload (breach_details ?s x a)"
  have al: "alarm (limCfg c) (breach_details ?s x a) \<in> set (outputs demo_env ?p ?s)"
    using round_raises_alarm [OF b(2-4) _ b(1), of "limCfg c"] b(5) by (simp add: classify_def)
  have js: "json_map ?e" using fin by (simp add: json_map_def emergency_payload_def breach_details_def)
  have "?p \<in> lim_runs c d" by (simp add: lim_runs_def)
  from limiter_process.serves [OF this, of demo_env] obtain d' where d': "(drone_step c)\<^sup>*\<^sup>* d d'"
      "sysMonitor (core d') = sysMonitor (core d)"
      "flight (core d') = flight (core d) \<union> \<Union> (on_wire ` set (snd (snd (run demo_env ?p ?s []))))"
    by auto
  have "json_map (snd (alarm (limCfg c) (breach_details ?s x a)))"
    using js by (simp add: alarm_def proxy_msg_def json_map_def)
  from on_wire_json [OF this, of "pxMonitor (limProxy (limCfg c))" "snd (snd (run demo_env ?p ?s []))"] al obtain m where
    "(pxMonitor (limProxy (limCfg c)), m) \<in> \<Union> (on_wire ` set (snd (snd (run demo_env ?p ?s []))))"
    "same_text m (snd (alarm (limCfg c) (breach_details ?s x a)))"
    by (auto simp: outputs_def alarm_def)
  then show ?thesis
    using d' js assms(2) by (intro exI [of _ d'] exI [of _ m] exI [of _ "breach_details ?s x a"]) (auto simp: alarm_def wired_up_def)
qed

lemma alarm_forwarded:
  assumes "drone_deployment c d0" "(drone_step c)\<^sup>*\<^sup>* d0 d" "wired_up c" "json_map pl"
    and "(monitorTopic (coreCfg c), m) \<in> flight (core d)"
    and "same_text m (proxy_msg (limProxy (limCfg c)) ''proxy_publish'' (limEmergency (limCfg c)) ''limiter_event'' pl)"
    and "gate_allows (cfgMonitor (coreCfg c)) (gate_of (fst (sysMonitor (core d)))) (key ''limiter'' (limEmergency (limCfg c)) ''limiter_event'')"
  shows "\<exists>d' f. (drone_step c)\<^sup>*\<^sup>* d d' \<and> (limEmergency (limCfg c), f) \<in> flight (core d') \<and>
    same_text f (forward_msg (cfgMonitor (coreCfg c)) ''limiter_event'' pl)"
proof -
  let ?c = "cfgMonitor (coreCfg c)" and ?s = "fst (sysMonitor (core d))" and ?t = "limEmergency (limCfg c)"
  have inv: "sm_inv ?c ?s"
    using system_inv drone_start [OF assms(1)] drone_reaches [OF assms(1,2)] by (force simp: sys_inv_def)
  obtain cfg where t: "?t = BrokerTopicFor cfg ''emergency''" using assms(3) by (auto simp: wired_up_def)
  have "pxSender (limProxy (limCfg c)) = ''limiter''"
    using drone_start [OF assms(1)] by (auto simp: drone_wired_def lim_wired_def)
  then have out: "(?t, forward_msg ?c ''limiter_event'' pl) \<in> set (outputs demo_env (sm_dispatch ?c m) ?s)"
    using gate_passes [OF inv assms(6), of demo_env] assms(7) t TrimSpace_topic [of "''emergency''" cfg]
    by (simp add: TrimSpace_def is_space_def)
  obtain e where e: "(sys_step (coreCfg c))\<^sup>*\<^sup>* (core d) e"
      "flight e = flight (core d) \<union> \<Union> (on_wire ` set (snd (snd (run demo_env (sm_dispatch ?c m) ?s []))))"
    using monitor_serves [OF assms(5), of demo_env] by blast
  have "json_map (forward_msg ?c ''limiter_event'' pl)" using assms(4) by (simp add: forward_msg_def json_map_def)
  from on_wire_json [OF this] out obtain f where "(?t, f) \<in> flight e" "same_text f (forward_msg ?c ''limiter_event'' pl)"
    unfolding outputs_def e(2) by blast
  then show ?thesis using inner_steps [OF e(1)] by (intro exI [of _ "d\<lparr>core := e\<rparr>"] exI [of _ f]) simp
qed

lemma breach_lands_run:
  assumes "drone_deployment c d0" and "(drone_step c)\<^sup>*\<^sup>* d0 d" and "wired_up c"
    and "breach (cfgLibm (coreCfg c)) (fst (pLimiter d))"
    and "gate_allows (cfgMonitor (coreCfg c)) (gate_of (fst (sysMonitor (core d)))) (key ''limiter'' (limEmergency (limCfg c)) ''limiter_event'')"
  shows "\<exists>d'. (drone_step c)\<^sup>*\<^sup>* d d' \<and> active (fst (pEmergency d')) \<and>
    Mode (safetyState (fst (sysMonitor (core d')))) = ModeIsolated \<and>
    door (fst (sysCargo (core d'))) = StateClosed \<and> motMode (fst (sysMotors (core d'))) = ModeLANDING"
proof -
  let ?R = "(drone_step c)\<^sup>*\<^sup>*" and ?e = "emCfg c"
  obtain d1 m details where d1: "?R d d1" "sysMonitor (core d1) = sysMonitor (core d)" "json_map (emergency_payload details)"
      "(monitorTopic (coreCfg c), m) \<in> flight (core d1)"
      "same_text m (proxy_msg (limProxy (limCfg c)) ''proxy_publish'' (limEmergency (limCfg c)) ''limiter_event'' (emergency_payload details))"
    using alarm_sent [OF assms(4,3)] by blast
  have r1: "?R d0 d1" using assms(2) d1(1) by simp
  obtain d2 f where d2: "?R d1 d2" "(limEmergency (limCfg c), f) \<in> flight (core d2)"
      "same_text f (forward_msg (cfgMonitor (coreCfg c)) ''limiter_event'' (emergency_payload details))"
    using alarm_forwarded [OF assms(1) r1 assms(3) d1(3-5)] assms(5) d1(2) by auto
  have id: "bcID (smBase (cfgMonitor (coreCfg c))) = ''security_monitor''"
    using drone_start [OF assms(1)] by (auto simp: deployment_def New_sm_def Let_def SecurityMonitorComponentID_def)
  have "em_dispatch (emHost c) ?e f \<in> em_runs c d2" using d2(2) assms(3) by (auto simp: em_runs_def inbox_def wired_up_def)
  from emergency_process.serves [OF this, of demo_env] emergency_serves [OF d2(3) id, of "emHost c" ?e "fst (pEmergency d2)"]
  obtain d3 where d3: "?R d2 d3" "active (fst (pEmergency d3))" "published (protocol ?e [] details) (core d3)"
    by (force simp: published_def)
  have r3: "?R d0 d3" using r1 d2(1) d3(1) by simp
  have dep: "deployment (coreCfg c) (core d0)" "wired_to ?e (coreCfg c)"
    using drone_start [OF assms(1)] assms(3) by (simp_all add: wired_up_def)
  obtain e where e: "(sys_step (coreCfg c))\<^sup>*\<^sup>* (core d3) e" "Mode (safetyState (fst (sysMonitor e))) = ModeIsolated"
      "door (fst (sysCargo e)) = StateClosed" "motMode (fst (sysMotors e)) = ModeLANDING"
    using protocol_run [OF dep(1) _ dep(2) d3(3)] drone_reaches [OF assms(1) r3] by blast
  have "?R d3 (d3\<lparr>core := e\<rparr>)" by (rule inner_steps [OF e(1)]) simp
  then show ?thesis using d1(1) d2(1) d3(1,2) e by (intro exI [of _ "d3\<lparr>core := e\<rparr>"]) auto
qed

end
