(* ===== verification/Drone_Safety.thy ===== *)
theory Drone_Safety
  imports Drone_Chain
begin

text \<open>
  Properties of the whole drone: complete mediation of the actuators, and that a breach of the geofence lands the drone; with
  a sample deployment of all ten components.
\<close>

section \<open>A sample drone\<close>

definition pol_host :: host where
  "pol_host = demo_host\<lparr>Getenv := (\<lambda>k. if k = ''COMPONENT_ID'' then ''security_monitor'' else if k = ''SECURITY_POLICIES''
     then ''mission_handler,v1.deliverydron.Delivery001.limiter,mission_load;limiter,v1.deliverydron.Delivery001.emergency,limiter_event'' else [])\<rparr>"

definition demo_monitor :: "sm_cfg \<times> sm_state" where
  "demo_monitor = New_sm pol_host (\<lambda>_. None) (cfg_for ''security_monitor'') 1"

definition demo_core :: sys_cfg where
  "demo_core = \<lparr>cfgMonitor = fst demo_monitor, cfgMotors = fst (New_motors (host_for ''motors'') (cfg_for ''motors'')),
     cfgCargo = fst (New_cargo (host_for ''cargo'') (cfg_for ''cargo'') 1), cfgLibm = demo_libm\<rparr>"

definition demo_limiter :: "lim_cfg \<times> lim_state" where
  "demo_limiter = New_lim (host_for ''limiter'') (cfg_for ''limiter'')"

definition demo_drone :: craft_cfg where
  "demo_drone = \<lparr>coreCfg = demo_core, emHost = host_for ''emergency'', emCfg = fst (New_em (host_for ''emergency'') (cfg_for ''emergency'')),
     limCfg = fst demo_limiter, apCfg = fst (New_ap (host_for ''autopilot'') (cfg_for ''autopilot'')),
     mhHost = host_for ''mission_handler'', mhCfg = fst (New_mh (host_for ''mission_handler'') (cfg_for ''mission_handler'')),
     tlCfg = fst (New_tl (host_for ''telemetry'') (cfg_for ''telemetry'')), navCfg = fst (New_nav (cfg_for ''navigation'')),
     jnJson = (\<lambda>_. None), jnDecodes = (\<lambda>_. False), jnCfg = fst (New_jn (host_for ''journal'') (cfg_for ''journal''))\<rparr>"

definition demo_d0 :: drone where
  "demo_d0 = \<lparr>core = sys_start (snd demo_monitor) (snd (New_motors (host_for ''motors'') (cfg_for ''motors'')))
       (snd (New_cargo (host_for ''cargo'') (cfg_for ''cargo'') 1)),
     pEmergency = (snd (New_em (host_for ''emergency'') (cfg_for ''emergency'')), []), pLimiter = (snd demo_limiter, []),
     pAutopilot = (snd (New_ap (host_for ''autopilot'') (cfg_for ''autopilot'')), []),
     pMission = (snd (New_mh (host_for ''mission_handler'') (cfg_for ''mission_handler'')), []),
     pTelemetry = (snd (New_tl (host_for ''telemetry'') (cfg_for ''telemetry'')), []),
     pNavigation = (snd (New_nav (cfg_for ''navigation'')), []), pJournal = (snd (New_jn (host_for ''journal'') (cfg_for ''journal'')), [])\<rparr>"

lemma cfg_for_id: "nm \<noteq> [] \<Longrightarrow> ComponentID (cfg_for nm) = nm"
  by (simp add: cfg_for_def FromEnv_def host_for_def Let_def)

lemma demo_deployed: "drone_deployment demo_drone demo_d0"
proof -
  have "deployment demo_core (core demo_d0)"
    unfolding deployment_def
    by (rule exI [of _ pol_host], rule exI [of _ "\<lambda>_. None"], rule exI [of _ "cfg_for ''security_monitor''"], rule exI [of _ 1],
        rule exI [of _ "host_for ''motors''"], rule exI [of _ "cfg_for ''motors''"], rule exI [of _ "host_for ''cargo''"],
        rule exI [of _ "cfg_for ''cargo''"], rule exI [of _ 1])
       (simp add: demo_core_def demo_d0_def demo_monitor_def cfg_for_id prod_eq_iff)
  then show ?thesis
    unfolding drone_deployment_def
    by (intro conjI; (intro exI conjI)?) (simp_all add: demo_drone_def demo_d0_def demo_limiter_def cfg_for_id)
qed

lemma demo_table: "set (normalPolicies (snd demo_monitor)) =
    {key ''mission_handler'' ''v1.deliverydron.Delivery001.limiter'' ''mission_load'',
     key ''limiter'' ''v1.deliverydron.Delivery001.emergency'' ''limiter_event''}"
  by code_simp

lemma demo_normal: "Mode (safetyState (snd demo_monitor)) = ModeNormal"
  by (simp add: demo_monitor_def New_sm_def newInitialSafetyState_def Let_def)

lemma demo_limiter_sel:
  "limEmergency (fst demo_limiter) = ''v1.deliverydron.Delivery001.emergency''"
  "bcTopic (limBase (fst demo_limiter)) = ''v1.deliverydron.Delivery001.limiter''"
  "pxMonitor (limProxy (fst demo_limiter)) = ''v1.deliverydron.Delivery001.security_monitor''"
  "orvdTopic (orvd (fst demo_limiter)) = []" "maxMissionAltM (orvd (fst demo_limiter)) = Fin 5000"
proof -
  have "(limEmergency (fst demo_limiter), bcTopic (limBase (fst demo_limiter)), pxMonitor (limProxy (fst demo_limiter)),
      orvdTopic (orvd (fst demo_limiter)), maxMissionAltM (orvd (fst demo_limiter))) =
    (''v1.deliverydron.Delivery001.emergency'', ''v1.deliverydron.Delivery001.limiter'',
      ''v1.deliverydron.Delivery001.security_monitor'', [], Fin 5000)"
    by code_simp
  then show "limEmergency (fst demo_limiter) = ''v1.deliverydron.Delivery001.emergency''"
    "bcTopic (limBase (fst demo_limiter)) = ''v1.deliverydron.Delivery001.limiter''"
    "pxMonitor (limProxy (fst demo_limiter)) = ''v1.deliverydron.Delivery001.security_monitor''"
    "orvdTopic (orvd (fst demo_limiter)) = []" "maxMissionAltM (orvd (fst demo_limiter)) = Fin 5000"
    by simp_all
qed

lemma demo_wired_up: "wired_up demo_drone"
  unfolding wired_up_def
proof (intro conjI)
  show "wired_to (emCfg demo_drone) (coreCfg demo_drone)"
    by (simp add: wired_to_def demo_drone_def demo_core_def demo_monitor_def New_em_def New_sm_def New_motors_def New_cargo_def Let_def
        newBase_def secTopic_def monitorTopic_def motorsTopic_def cargoTopic_def demo_topics demo_own_topics cfg_for_id)
  show "pxMonitor (limProxy (limCfg demo_drone)) = monitorTopic (coreCfg demo_drone)"
    by (simp add: demo_drone_def demo_limiter_sel demo_core_def demo_monitor_def New_sm_def Let_def monitorTopic_def demo_topics demo_own_topics)
  show "bcTopic (emBase (emCfg demo_drone)) = limEmergency (limCfg demo_drone)"
    by (simp add: demo_drone_def demo_limiter_sel New_em_def newBase_def Let_def demo_own_topics)
  show "\<exists>cfg. limEmergency (limCfg demo_drone) = BrokerTopicFor cfg ''emergency''"
    by (intro exI [of _ "cfg_for ''limiter''"]) (simp add: demo_drone_def demo_limiter_def New_lim_def Let_def)
qed

text \<open>The drone hears where it is.\<close>

definition nav_env :: env where
  "nav_env = \<lparr>on_pub = (\<lambda>_ _ _. None),
     on_req = (\<lambda>_ _ _. Inr [(''payload'', GMap [(''target_response'', GMap [(''payload'', GMap demo_pad)])])]), on_now = (\<lambda>_. 5000000000)\<rparr>"

definition demo_located :: lim_state where
  "demo_located = final nav_env (lim_controlStep demo_libm (fst demo_limiter)) (snd demo_limiter)"

definition geo_view :: "lim_state \<Rightarrow> gmap option \<times> gmap option \<times> float64 \<times> float64 \<times> string" where
  "geo_view s = geo s"

lemma demo_located_view: "geo_view demo_located = (None, Some demo_pad, Fin 50, Fin 20, StateNormal)"
  by code_simp

lemmas demo_located_sel = demo_located_view [unfolded geo_view_def]

lemma demo_deviation: "deviations demo_libm demo_climb demo_pad = Some (Fin 0, Fin 100)"
  by code_simp

text \<open>The mission handler's mission arrives at the limiter through the monitor.\<close>

lemma mission_loaded:
  assumes "same_text f (forward_msg c ''mission_load'' [(''mission'', GMap demo_climb)])" "bcID (smBase c) = ''security_monitor''"
  shows "geo (final E (lim_dispatch (fst demo_limiter) f) s) = (Some demo_climb, snd (geo s))"
proof -
  note read = same_text_readers [OF assms(1)]
  have act: "get_str f ''action'' = ''mission_load''" "get_str f ''sender'' = ''security_monitor''"
      "get_map f ''payload'' = Some [(''mission'', GMap demo_climb)]"
    using assms(2) by (simp_all add: read) (simp_all add: forward_msg_def get_str_def get_map_def)
  have inner: "get_map [(''mission'', GMap demo_climb)] ''mission'' = Some demo_climb" by (simp add: get_map_def)
  have "final E (lim_dispatch (fst demo_limiter) f) s = final E (handleMissionLoad (fst demo_limiter) f) s"
    by (simp add: lim_dispatch_def final_handleMessage lim_load_handler act)
  then show ?thesis
    by (simp add: handleMissionLoad_def IsTrustedSender_iff act inner demo_limiter_sel demo_climb_valid runORVDMissionLoad_def Let_def
        final_def missionLoadResult_def)
qed

definition demo_order :: gmap where
  "demo_order = proxy_msg \<lparr>pxSender = ''mission_handler'', pxMonitor = [], pxTimeout = Fin 1\<rparr> ''proxy_publish''
     ''v1.deliverydron.Delivery001.limiter'' ''mission_load'' [(''mission'', GMap demo_climb)]"

lemma demo_breach:
  obtains d where "(drone_step demo_drone)\<^sup>*\<^sup>* demo_d0 d" "breach demo_libm (fst (pLimiter d))"
    "gate_of (fst (sysMonitor (core d))) = gate_of (snd demo_monitor)"
proof -
  let ?R = "(drone_step demo_drone)\<^sup>*\<^sup>*" and ?c = "fst demo_monitor"
  have cfg: "cfgMonitor (coreCfg demo_drone) = ?c" "limCfg demo_drone = fst demo_limiter"
    by (simp_all add: demo_drone_def demo_core_def)
  have "lim_controlStep demo_libm (fst demo_limiter) \<in> lim_runs demo_drone demo_d0"
    by (simp add: lim_runs_def demo_drone_def demo_core_def)
  from limiter_process.serves [OF this, of nav_env] obtain d1 where d1: "?R demo_d0 d1"
      "fst (pLimiter d1) = demo_located" "sysMonitor (core d1) = (snd demo_monitor, [])"
    by (auto simp: demo_located_def demo_d0_def sys_start_def)
  define d2 where "d2 = d1\<lparr>core := (core d1)\<lparr>flight := flight (core d1) \<union> {(monitorTopic demo_core, demo_order)}\<rparr>\<rparr>"
  have "sys_step demo_core (core d1) ((core d1)\<lparr>flight := flight (core d1) \<union> {(monitorTopic demo_core, demo_order)}\<rparr>)"
    by (rule sys_step.world) (simp add: demo_order_def proxy_msg_def get_str_def)
  then have "sys_step demo_core (core d1) (core d2)" by (simp add: d2_def)
  then have d2: "?R demo_d0 d2"
    using d1(1) drone_step.inner [of demo_drone d1 "core d2"] by (simp add: d2_def demo_drone_def rtranclp.rtrancl_into_rtrancl)
  have inv: "sm_inv ?c (snd demo_monitor)" unfolding demo_monitor_def by (rule New_sm_inv)
  have out: "(''v1.deliverydron.Delivery001.limiter'', forward_msg ?c ''mission_load'' [(''mission'', GMap demo_climb)]) \<in>
      set (outputs demo_env (sm_dispatch ?c demo_order) (snd demo_monitor))"
    by (rule gate_passes [OF inv, where p = "\<lparr>pxSender = ''mission_handler'', pxMonitor = [], pxTimeout = Fin 1\<rparr>"])
       (simp_all add: same_text_def demo_order_def gate_allows_def gate_of_def demo_normal demo_table TrimSpace_def is_space_def)
  obtain e where e: "(sys_step demo_core)\<^sup>*\<^sup>* (core d2) e" "fst (sysMonitor e) = final demo_env (sm_dispatch ?c demo_order) (snd demo_monitor)"
      "flight e = flight (core d2) \<union> \<Union> (on_wire ` set (snd (snd (run demo_env (sm_dispatch ?c demo_order) (snd demo_monitor) []))))"
    using monitor_serves [of demo_core demo_order "core d2" demo_env] d1(3) by (auto simp: d2_def demo_core_def)
  have "json_map (forward_msg ?c ''mission_load'' [(''mission'', GMap demo_climb)])"
    by (simp add: json_map_def forward_msg_def demo_climb_def)
  from on_wire_json [OF this out [unfolded outputs_def]] obtain f where f: "(''v1.deliverydron.Delivery001.limiter'', f) \<in> flight e"
      "same_text f (forward_msg ?c ''mission_load'' [(''mission'', GMap demo_climb)])"
    unfolding e(3) by auto
  define d3 where "d3 = d2\<lparr>core := e\<rparr>"
  have d3: "?R demo_d0 d3" using d2 inner_steps [of demo_drone "core d2" e d2] e(1) by (simp add: d3_def demo_drone_def)
  have "lim_dispatch (fst demo_limiter) f \<in> lim_runs demo_drone d3"
    using f(1) by (simp add: lim_runs_def cfg inbox_def d3_def demo_limiter_sel)
  from limiter_process.serves [OF this, of demo_env] obtain d4 where d4: "?R d3 d4"
      "fst (pLimiter d4) = final demo_env (lim_dispatch (fst demo_limiter) f) demo_located" "sysMonitor (core d4) = sysMonitor e"
    using d1(2) by (auto simp: d3_def d2_def)
  have id: "bcID (smBase ?c) = ''security_monitor''" by (simp add: demo_monitor_def New_sm_def SecurityMonitorComponentID_def Let_def)
  have "geo (fst (pLimiter d4)) = (Some demo_climb, Some demo_pad, Fin 50, Fin 20, StateNormal)"
    using mission_loaded [OF f(2) id, of demo_env demo_located] demo_located_sel by (simp add: d4(2))
  then have "breach demo_libm (fst (pLimiter d4))"
    by (simp add: breach_def demo_deviation StateNormal_def StateEmergency_def)
  moreover have "gate_of (fst (sysMonitor (core d4))) = gate_of (snd demo_monitor)"
    using gate_dispatch [OF inv, of demo_env demo_order] d4(3) e(2) by (simp add: demo_order_def proxy_gate_step)
  ultimately show ?thesis using that d3 d4(1) by (meson rtranclp_trans)
qed

section \<open>Properties\<close>

text \<open>C1. Complete mediation. In every execution of the drone, all ten components and an outside world that may send anything
  but in the monitor's name, however goroutines and broker interleave: the state of the motors or of the cargo bay changes
  only when the monitor has passed on a command for a client whose (sender, topic, action) triple its
  gate allowed in a state the monitor was in.\<close>

theorem actuators_mediated:
  assumes "drone_deployment c d0" and "(drone_step c)\<^sup>*\<^sup>* d0 d" and "drone_step c d d'"
  shows "(fst (sysMotors (core d')) \<noteq> fst (sysMotors (core d)) \<longrightarrow> (\<exists>a m0 s. a \<in> {''SET_TARGET'', ''LAND''} \<and>
       (monitorTopic (coreCfg c), m0) \<in> flight (core d) \<and> s \<in> visited (core d) \<and>
       gate_allows (cfgMonitor (coreCfg c)) (gate_of s) (key (proxy_sender m0) (motorsTopic (coreCfg c)) a))) \<and>
     (fst (sysCargo (core d')) \<noteq> fst (sysCargo (core d)) \<longrightarrow> (\<exists>a m0 s. a \<in> {''OPEN'', ''CLOSE''} \<and>
       (monitorTopic (coreCfg c), m0) \<in> flight (core d) \<and> s \<in> visited (core d) \<and>
       gate_allows (cfgMonitor (coreCfg c)) (gate_of s) (key (proxy_sender m0) (cargoTopic (coreCfg c)) a)))"
proof -
  note start = drone_start [OF assms(1)] and reach = drone_reaches [OF assms(1,2)]
  have "sys_step (coreCfg c) (core d) (core d')" using drone_step_core [OF assms(3)] start reach by blast
  with start reach show ?thesis by (intro core_mediated) blast+
qed

lemma first_change:
  "R\<^sup>*\<^sup>* x y \<Longrightarrow> f y \<noteq> f x \<Longrightarrow> \<exists>u v. R\<^sup>*\<^sup>* x u \<and> R u v \<and> f v \<noteq> f u"
  by (induction rule: rtranclp_induct) (auto, metis)

lemma demo_gate:
  "gate_allows (cfgMonitor (coreCfg demo_drone)) (gate_of (snd demo_monitor))
     (key ''limiter'' (limEmergency (limCfg demo_drone)) ''limiter_event'')"
  by (simp add: gate_allows_def gate_of_def demo_normal demo_table demo_drone_def demo_limiter_sel)

lemma demo_lands:
  obtains d where "(drone_step demo_drone)\<^sup>*\<^sup>* demo_d0 d" "motMode (fst (sysMotors (core d))) = ModeLANDING"
proof -
  obtain d where d: "(drone_step demo_drone)\<^sup>*\<^sup>* demo_d0 d" "breach demo_libm (fst (pLimiter d))"
      "gate_of (fst (sysMonitor (core d))) = gate_of (snd demo_monitor)" by (rule demo_breach)
  have "breach (cfgLibm (coreCfg demo_drone)) (fst (pLimiter d))" using d(2) by (simp add: demo_drone_def demo_core_def)
  from breach_lands_run [OF demo_deployed d(1) demo_wired_up this] d demo_gate that show ?thesis
    by (metis rtranclp_trans)
qed

theorem actuators_mediated_witness:
  "\<exists>d d' a m0 s. (drone_step demo_drone)\<^sup>*\<^sup>* demo_d0 d \<and> drone_step demo_drone d d' \<and>
     fst (sysMotors (core d')) \<noteq> fst (sysMotors (core d)) \<and> a \<in> {''SET_TARGET'', ''LAND''} \<and>
     (monitorTopic demo_core, m0) \<in> flight (core d) \<and> s \<in> visited (core d) \<and>
     gate_allows (fst demo_monitor) (gate_of s) (key (proxy_sender m0) (motorsTopic demo_core) a)"
proof -
  obtain e where e: "(drone_step demo_drone)\<^sup>*\<^sup>* demo_d0 e" "motMode (fst (sysMotors (core e))) = ModeLANDING" by (rule demo_lands)
  have "motMode (fst (sysMotors (core demo_d0))) = ModeIDLE"
    by (simp add: demo_d0_def sys_start_def New_motors_def Let_def)
  then have "fst (sysMotors (core e)) \<noteq> fst (sysMotors (core demo_d0))" using e(2) by (auto simp: ModeIDLE_def ModeLANDING_def)
  then obtain u v where uv: "(drone_step demo_drone)\<^sup>*\<^sup>* demo_d0 u" "drone_step demo_drone u v" "fst (sysMotors (core v)) \<noteq> fst (sysMotors (core u))"
    using first_change [OF e(1), of "\<lambda>d. fst (sysMotors (core d))"] by blast
  have "coreCfg demo_drone = demo_core" "cfgMonitor demo_core = fst demo_monitor" by (simp_all add: demo_drone_def demo_core_def)
  with actuators_mediated [OF demo_deployed uv(1,2)] uv show ?thesis by metis
qed



end
