(* ===== verification/Broker_Acl.thy ===== *)
theory Broker_Acl
  imports Component_Base "HOL-Library.List_Lexorder" "HOL-Library.Char_ord"
begin

text \<open>
  The generator of the broker's access control list: \<^verbatim>\<open>bus/auth/mqtt_acl.go\<close> and the command
  \<^verbatim>\<open>tools/generate_mqtt_auth\<close> that calls it with the configured components. A reader of the
  \<^verbatim>\<open>acl_file\<close> format (a \<^verbatim>\<open>user\<close> line opens a section, each \<^verbatim>\<open>topic\<close> line grants the user one access) gives the
  generated text its meaning as a set of grants.
\<close>

section \<open>mqtt\_acl.go\<close>

record ExternalPublisher =
  extUsername :: string
  extComponent :: string

record MQTTACLSpec =
  aclTopicPrefix :: string
  aclInstanceID :: string
  aclComponents :: "string list"
  aclExternal :: "ExternalPublisher list"
  UsernameForComponent :: "(string \<Rightarrow> string \<Rightarrow> string) option"

definition username :: "MQTTACLSpec \<Rightarrow> string \<Rightarrow> string" where
  "username sp nm =
     (case UsernameForComponent sp of
        Some f \<Rightarrow> f (aclInstanceID sp) nm
      | None \<Rightarrow> DefaultUsername (aclInstanceID sp) nm)"

definition componentTopic :: "MQTTACLSpec \<Rightarrow> string \<Rightarrow> string" where
  "componentTopic sp nm = aclTopicPrefix sp @ ''.'' @ TrimSpace nm"

definition replyTopic :: "MQTTACLSpec \<Rightarrow> string \<Rightarrow> string" where
  "replyTopic sp nm = aclTopicPrefix sp @ ''.replies.'' @ TrimSpace nm"

definition writeln :: "string \<Rightarrow> string" where
  "writeln s = s @ [CHR 0x0A]"

definition sm_lines :: "MQTTACLSpec \<Rightarrow> string \<Rightarrow> string list" where
  "sm_lines sp nm =
     (if nm = ''security_monitor'' then []
      else [''topic read '' @ componentTopic sp nm, ''topic write '' @ componentTopic sp nm,
            ''topic read '' @ replyTopic sp nm, ''topic write '' @ replyTopic sp nm])"

definition component_lines :: "MQTTACLSpec \<Rightarrow> string \<Rightarrow> string \<Rightarrow> string list" where
  "component_lines sp smTopic nm =
     (if nm = ''security_monitor'' then []
      else [''user '' @ username sp nm, ''topic read '' @ componentTopic sp nm,
            ''topic read '' @ replyTopic sp nm, ''topic write '' @ smTopic, []])"

definition external_lines :: "MQTTACLSpec \<Rightarrow> ExternalPublisher \<Rightarrow> string list" where
  "external_lines sp ext =
     (let u = TrimSpace (extUsername ext); c = TrimSpace (extComponent ext) in
      if u = [] \<or> c = [] then []
      else [''user '' @ u, ''topic write '' @ componentTopic sp c, ''topic read '' @ replyTopic sp c, []])"

definition acl_lines :: "MQTTACLSpec \<Rightarrow> string list" where
  "acl_lines sp =
     (let comps = sort (aclComponents sp); smTopic = TrimSpace (aclTopicPrefix sp) @ ''.security_monitor'' in
      [''# Auto-generated Mosquitto ACL for deliverydron'', ''# Instance: '' @ aclInstanceID sp, [],
       ''user '' @ username sp ''security_monitor'', ''topic read '' @ smTopic, ''topic write '' @ smTopic] @
      concat (map (sm_lines sp) comps) @ [[]] @
      concat (map (component_lines sp smTopic) comps) @
      concat (map (external_lines sp) (aclExternal sp)))"

definition GenerateACL :: "MQTTACLSpec \<Rightarrow> string" where
  "GenerateACL sp = concat (map writeln (acl_lines sp))"

fun dedup_users :: "MQTTACLSpec \<Rightarrow> string list \<Rightarrow> string list \<Rightarrow> string list" where
  "dedup_users sp [] seen = []"
| "dedup_users sp (nm # nms) seen =
     (if username sp nm \<in> set seen then dedup_users sp nms seen
      else username sp nm # dedup_users sp nms (username sp nm # seen))"

definition BrokerUsers :: "MQTTACLSpec \<Rightarrow> string list" where
  "BrokerUsers sp = sort (dedup_users sp (aclComponents sp) [])"

section \<open>tools/generate\_mqtt\_auth\<close>

text \<open>\<^verbatim>\<open>strings.SplitN(part, ":", 2)\<close>: the text before and after the first colon.\<close>

definition split_colon :: "string \<Rightarrow> (string \<times> string) option" where
  "split_colon part =
     (if CHR '':'' \<in> set part
      then Some (takeWhile (\<lambda>c. c \<noteq> CHR '':'') part, tl (dropWhile (\<lambda>c. c \<noteq> CHR '':'') part)) else None)"

fun external_parts :: "string list \<Rightarrow> ExternalPublisher list" where
  "external_parts [] = []"
| "external_parts (p # ps) =
     (case split_colon (TrimSpace p) of
        None \<Rightarrow> external_parts ps
      | Some (u, c) \<Rightarrow> \<lparr>extUsername = TrimSpace u, extComponent = TrimSpace c\<rparr> # external_parts ps)"

definition parseExternal :: "string \<Rightarrow> ExternalPublisher list" where
  "parseExternal raw =
     (let raw = TrimSpace raw in if raw = [] then [] else external_parts (Split raw (CHR '','')))"

text \<open>\<^verbatim>\<open>main\<close>: the specification, the printed list, and the user list with the passwords.\<close>

definition auth_spec :: "host \<Rightarrow> MQTTACLSpec" where
  "auth_spec h =
     (let cfg = FromEnv h in
      \<lparr>aclTopicPrefix = TopicPrefix cfg, aclInstanceID = InstanceID cfg, aclComponents = InternalComponents,
       aclExternal = parseExternal (Getenv h ''MQTT_EXTERNAL_USERS''),
       UsernameForComponent = Some (\<lambda>_ nm. fst (BrokerCredentials h (cfg\<lparr>ComponentID := nm\<rparr>)))\<rparr>)"

definition generate_mqtt_auth :: "host \<Rightarrow> string \<times> (string \<times> string \<times> string) list" where
  "generate_mqtt_auth h =
     (GenerateACL (auth_spec h),
      map (\<lambda>nm. case BrokerCredentials h ((FromEnv h)\<lparr>ComponentID := nm\<rparr>) of (u, p) \<Rightarrow> (u, nm, p))
        (aclComponents (auth_spec h)))"

section \<open>Reading the list\<close>

datatype access = Read | Write

type_synonym grant = "string \<times> access \<times> string"

fun read_acl :: "string option \<Rightarrow> string list \<Rightarrow> grant list" where
  "read_acl u [] = []"
| "read_acl u (l # ls) =
     (if HasPrefix l ''user '' then read_acl (Some (drop 5 l)) ls
      else case u of
        None \<Rightarrow> read_acl u ls
      | Some x \<Rightarrow>
          if HasPrefix l ''topic read '' then (x, Read, drop 11 l) # read_acl u ls
          else if HasPrefix l ''topic write '' then (x, Write, drop 12 l) # read_acl u ls
          else read_acl u ls)"

definition grants :: "string \<Rightarrow> grant set" where
  "grants text = set (read_acl None (Split text (CHR 0x0A)))"

text \<open>What the comment of \<^verbatim>\<open>GenerateACL\<close> promises.\<close>

definition acl_rules :: "MQTTACLSpec \<Rightarrow> grant set" where
  "acl_rules sp =
     (let smTopic = TrimSpace (aclTopicPrefix sp) @ ''.security_monitor''; sm = username sp ''security_monitor'';
          others = set (aclComponents sp) - {''security_monitor''}
      in {(sm, a, smTopic) |a. True} \<union>
         {(sm, a, t) |a t c. c \<in> others \<and> t \<in> {componentTopic sp c, replyTopic sp c}} \<union>
         {(username sp c, Read, t) |t c. c \<in> others \<and> t \<in> {componentTopic sp c, replyTopic sp c}} \<union>
         {(username sp c, Write, smTopic) |c. c \<in> others} \<union>
         {g. \<exists>e \<in> set (aclExternal sp). let u = TrimSpace (extUsername e); c = TrimSpace (extComponent e) in
            u \<noteq> [] \<and> c \<noteq> [] \<and> g \<in> {(u, Write, componentTopic sp c), (u, Read, replyTopic sp c)}})"

section \<open>Lemmas\<close>

fun last_user :: "string option \<Rightarrow> string list \<Rightarrow> string option" where
  "last_user u [] = u"
| "last_user u (l # ls) = last_user (if HasPrefix l ''user '' then Some (drop 5 l) else u) ls"

lemma read_acl_append: "read_acl u (xs @ ys) = read_acl u xs @ read_acl (last_user u xs) ys"
  by (induction u xs rule: read_acl.induct) (auto split: option.splits)

lemma last_user_append [simp]: "last_user u (xs @ ys) = last_user (last_user u xs) ys"
  by (induction u xs rule: last_user.induct) auto

lemma Split_lines:
  "(\<And>l. l \<in> set ls \<Longrightarrow> CHR 0x0A \<notin> set l) \<Longrightarrow> Split (concat (map writeln ls)) (CHR 0x0A) = ls @ [[]]"
  by (induction ls) (auto simp: writeln_def)

text \<open>A line that was written is read as what it says.\<close>

lemma prefixes [simp]:
  "HasPrefix (''user '' @ x) ''user ''" "\<not> HasPrefix (''topic read '' @ x) ''user ''" "\<not> HasPrefix (''topic write '' @ x) ''user ''"
  "HasPrefix (''topic read '' @ x) ''topic read ''" "\<not> HasPrefix (''topic write '' @ x) ''topic read ''"
  "HasPrefix (''topic write '' @ x) ''topic write ''" "\<not> HasPrefix [] (c # p)" "\<not> HasPrefix (CHR ''#'' # x) ''user ''"
  by (simp_all add: HasPrefix_def)

lemma sm_section:
  "read_acl (Some u) (concat (map (sm_lines sp) cs)) =
     concat (map (\<lambda>c. if c = ''security_monitor'' then [] else
       [(u, Read, componentTopic sp c), (u, Write, componentTopic sp c), (u, Read, replyTopic sp c), (u, Write, replyTopic sp c)]) cs) \<and>
   last_user (Some u) (concat (map (sm_lines sp) cs)) = Some u"
proof (induction cs)
  case (Cons c cs)
  then show ?case
    by (simp add: read_acl_append sm_lines_def del: append.simps)
qed simp

lemma component_section:
  "read_acl u (concat (map (component_lines sp t) cs)) =
     concat (map (\<lambda>c. if c = ''security_monitor'' then [] else
       [(username sp c, Read, componentTopic sp c), (username sp c, Read, replyTopic sp c), (username sp c, Write, t)]) cs)"
proof (induction cs arbitrary: u)
  case (Cons c cs)
  then show ?case by (simp add: read_acl_append component_lines_def del: append.simps)
qed simp

lemma external_section:
  "read_acl u (concat (map (external_lines sp) es)) =
     concat (map (\<lambda>e. let x = TrimSpace (extUsername e); c = TrimSpace (extComponent e) in
       if x = [] \<or> c = [] then [] else [(x, Write, componentTopic sp c), (x, Read, replyTopic sp c)]) es)"
proof (induction es arbitrary: u)
  case (Cons e es)
  then show ?case by (simp add: read_acl_append external_lines_def Let_def del: append.simps)
qed simp

lemma read_acl_blank [simp]: "read_acl u ([] # ls) = read_acl u ls"
  by (cases u) simp_all

lemma set_sections:
  "set (concat (map (\<lambda>c. if c = x then [] else f c) cs)) = (\<Union>c \<in> set cs - {x}. set (f c))"
  by auto

lemma read_acl_lines:
  "set (read_acl None (acl_lines sp @ [[]])) = acl_rules sp"
proof -
  let ?sm = "TrimSpace (aclTopicPrefix sp) @ ''.security_monitor''" and ?u = "username sp ''security_monitor''"
  let ?cs = "sort (aclComponents sp)"
  have head: "read_acl None (acl_lines sp @ [[]]) =
      (?u, Read, ?sm) # (?u, Write, ?sm) # read_acl (Some ?u) (concat (map (sm_lines sp) ?cs) @ [] #
        concat (map (component_lines sp ?sm) ?cs) @ concat (map (external_lines sp) (aclExternal sp)) @ [[]])"
    unfolding acl_lines_def Let_def by (simp add: HasPrefix_def)
  have tail: "read_acl (Some ?u) (concat (map (sm_lines sp) ?cs) @ [] #
        concat (map (component_lines sp ?sm) ?cs) @ concat (map (external_lines sp) (aclExternal sp)) @ [[]]) =
      read_acl (Some ?u) (concat (map (sm_lines sp) ?cs)) @ read_acl (Some ?u) (concat (map (component_lines sp ?sm) ?cs)) @
      read_acl None (concat (map (external_lines sp) (aclExternal sp)))"
    by (simp add: read_acl_append sm_section component_section external_section del: read_acl.simps(2))
  have ext: "set (concat (map (\<lambda>e. let x = TrimSpace (extUsername e); c = TrimSpace (extComponent e) in
       if x = [] \<or> c = [] then [] else [(x, Write, componentTopic sp c), (x, Read, replyTopic sp c)]) (aclExternal sp))) =
      {g. \<exists>e \<in> set (aclExternal sp). let u = TrimSpace (extUsername e); c = TrimSpace (extComponent e) in
            u \<noteq> [] \<and> c \<noteq> [] \<and> g \<in> {(u, Write, componentTopic sp c), (u, Read, replyTopic sp c)}}"
    by (auto simp: Let_def split: if_splits)
  have "g \<in> set (read_acl None (acl_lines sp @ [[]])) \<longleftrightarrow> g \<in> acl_rules sp" for g
  proof -
    obtain x a t where g: "g = (x, a, t)" by (cases g)
    show ?thesis
      unfolding head tail sm_section [THEN conjunct1] component_section external_section set_append list.set Un_iff
        set_sections ext acl_rules_def Let_def g
      by (cases a) (simp_all, blast+)
  qed
  then show ?thesis by blast
qed

text \<open>Names that may stand in the file: without a line break.\<close>

definition one_line :: "string \<Rightarrow> bool" where
  "one_line s \<longleftrightarrow> CHR 0x0A \<notin> set s"

definition clean_spec :: "MQTTACLSpec \<Rightarrow> bool" where
  "clean_spec sp \<longleftrightarrow> one_line (aclTopicPrefix sp) \<and> one_line (aclInstanceID sp) \<and> one_line (username sp ''security_monitor'') \<and>
     (\<forall>c \<in> set (aclComponents sp). one_line c \<and> one_line (username sp c)) \<and>
     (\<forall>e \<in> set (aclExternal sp). one_line (extUsername e) \<and> one_line (extComponent e))"

lemma one_line_TrimSpace: "one_line s \<Longrightarrow> one_line (TrimSpace s)"
  using set_TrimSpace by (auto simp: one_line_def)

lemma one_line_append [simp]: "one_line (xs @ ys) \<longleftrightarrow> one_line xs \<and> one_line ys" "one_line []"
  "one_line (c # xs) \<longleftrightarrow> c \<noteq> CHR 0x0A \<and> one_line xs"
  by (auto simp: one_line_def)

lemma acl_lines_clean: "clean_spec sp \<Longrightarrow> l \<in> set (acl_lines sp) \<Longrightarrow> one_line l"
  by (auto simp: clean_spec_def acl_lines_def sm_lines_def component_lines_def external_lines_def componentTopic_def
      replyTopic_def Let_def one_line_TrimSpace split: if_splits)

lemma split_acl: "clean_spec sp \<Longrightarrow> Split (GenerateACL sp) (CHR 0x0A) = acl_lines sp @ [[]]"
  unfolding GenerateACL_def using acl_lines_clean by (intro Split_lines) (auto simp: one_line_def)

lemma generated_grants: "clean_spec (auth_spec h) \<Longrightarrow> grants (fst (generate_mqtt_auth h)) = acl_rules (auth_spec h)"
  by (simp add: generate_mqtt_auth_def grants_def split_acl read_acl_lines)

section \<open>Properties\<close>


definition demo_acl :: MQTTACLSpec where
  "demo_acl = \<lparr>aclTopicPrefix = ''v1'', aclInstanceID = ''D1'', aclComponents = [''security_monitor'', ''motors''],
     aclExternal = [\<lparr>extUsername = ''nus'', extComponent = ''motors''\<rparr>], UsernameForComponent = None\<rparr>"

lemma demo_acl_names:
  "username demo_acl ''security_monitor'' = ''dd_D1_security_monitor''" "username demo_acl ''motors'' = ''dd_D1_motors''"
  "componentTopic demo_acl ''motors'' = ''v1.motors''" "replyTopic demo_acl ''motors'' = ''v1.replies.motors''"
  by code_simp+


text \<open>The configured specification: its topics are the topics of the running components.\<close>

lemma TopicPrefix_ends: "\<not> is_space (hd (TopicPrefix c))" "\<not> is_space (last (TopicPrefix c))"
proof -
  have o: "\<not> is_space (hd (orElse (TrimSpace x) d)) \<and> \<not> is_space (last (orElse (TrimSpace x) d))"
    if "d \<noteq> []" "\<not> is_space (hd d)" "\<not> is_space (last d)" for x d
    using that TrimSpace_ends [of x] by (simp add: orElse_def)
  show "\<not> is_space (hd (TopicPrefix c))" "\<not> is_space (last (TopicPrefix c))"
    using TrimSpace_ends [of "TopicPrefixEnv c"] o [of "''v1''" "TopicVersion c"] o [of "''deliverydron''" "SystemName c"]
      o [of "''Delivery001''" "InstanceID c"]
    by (auto simp: TopicPrefix_def Let_def is_space_def)
qed

lemma TrimSpace_prefix [simp]: "TrimSpace (TopicPrefix c) = TopicPrefix c"
  by (rule TrimSpace_id) (simp_all add: TopicPrefix_ends)

lemma TopicPrefix_id [simp]: "TopicPrefix (c\<lparr>ComponentID := x\<rparr>) = TopicPrefix c"
  by (simp add: TopicPrefix_def Let_def)

lemma internal_names:
  "c \<in> set InternalComponents \<Longrightarrow> TrimSpace c = c \<and> TrimSpace (''replies.'' @ c) = ''replies.'' @ c \<and> c \<noteq> []"
  by (auto simp: InternalComponents_def TrimSpace_def is_space_def)

lemma auth_topics:
  assumes "c \<in> set InternalComponents"
  shows "componentTopic (auth_spec h) c = BrokerTopicFor (FromEnv h) c"
    and "replyTopic (auth_spec h) c = ReplyBrokerTopic ((FromEnv h)\<lparr>ComponentID := c\<rparr>)"
    and "TrimSpace (aclTopicPrefix (auth_spec h)) @ ''.security_monitor'' = SecurityMonitorTopic (FromEnv h)"
  using internal_names [OF assms]
  by (simp_all add: componentTopic_def replyTopic_def auth_spec_def Let_def BrokerTopicFor_def ReplyBrokerTopic_def
      SecurityMonitorTopic_def)

definition distinct_users :: "MQTTACLSpec \<Rightarrow> bool" where
  "distinct_users sp \<longleftrightarrow> inj_on (username sp) (insert ''security_monitor'' (set (aclComponents sp))) \<and>
     (\<forall>e \<in> set (aclExternal sp). \<forall>c \<in> insert ''security_monitor'' (set (aclComponents sp)). TrimSpace (extUsername e) \<noteq> username sp c)"

text \<open>C31. Least privilege. When the broker users are distinct, the generated list lets each component but the
  monitor write to the monitor's topic and to nothing else, and read exactly its own topic and its own
  reply topic, as the running components compute these topics from the same environment.\<close>

theorem acl_least_privilege:
  assumes "clean_spec (auth_spec h)" and "distinct_users (auth_spec h)"
    and "c \<in> set InternalComponents" and "c \<noteq> ''security_monitor''"
  shows "{t. (username (auth_spec h) c, Write, t) \<in> grants (fst (generate_mqtt_auth h))} = {SecurityMonitorTopic (FromEnv h)} \<and>
     {t. (username (auth_spec h) c, Read, t) \<in> grants (fst (generate_mqtt_auth h))} =
       {BrokerTopicFor (FromEnv h) c, ReplyBrokerTopic ((FromEnv h)\<lparr>ComponentID := c\<rparr>)}"
proof -
  let ?sp = "auth_spec h" and ?sm = "SecurityMonitorTopic (FromEnv h)"
  have comps: "aclComponents ?sp = InternalComponents" by (simp add: auth_spec_def Let_def)
  have smi: "''security_monitor'' \<in> set InternalComponents" by (simp add: InternalComponents_def)
  have inj: "username ?sp c = username ?sp d \<longleftrightarrow> c = d" if "d \<in> set InternalComponents" for d
    using assms(2,3) that smi unfolding distinct_users_def comps inj_on_def by (auto simp: insert_absorb)
  have ext: "TrimSpace (extUsername e) \<noteq> username ?sp c" if "e \<in> set (aclExternal ?sp)" for e
    using assms(2,3) that unfolding distinct_users_def comps by auto
  note g = generated_grants [OF assms(1)]
  have rules: "(username ?sp c, a, t) \<in> acl_rules ?sp \<longleftrightarrow>
      (a = Read \<and> t \<in> {componentTopic ?sp c, replyTopic ?sp c}) \<or> (a = Write \<and> t = ?sm)" for a t
    unfolding acl_rules_def Let_def comps auth_topics(3) [OF smi]
    using inj [OF smi] assms(3,4) ext by (auto simp: inj dest: sym)
  show ?thesis unfolding g rules by (auto simp: auth_topics [OF assms(3)])
qed

text \<open>In an empty environment the ten users are different.\<close>

definition plain_host :: host where
  "plain_host = demo_host\<lparr>Getenv := (\<lambda>_. [])\<rparr>"

lemma internal_slugs: "c \<in> set InternalComponents \<Longrightarrow> slugBrokerID c = c"
proof -
  have "map slugBrokerID InternalComponents = InternalComponents" by code_simp
  then show "c \<in> set InternalComponents \<Longrightarrow> slugBrokerID c = c" by (metis map_eq_conv list.map_ident)
qed

lemma plain_config: "InstanceID (FromEnv plain_host) = ''Delivery001''" "TopicPrefix (FromEnv plain_host) = ''v1.deliverydron.Delivery001''"
  by (simp_all add: FromEnv_def plain_host_def Let_def TopicPrefix_def TrimSpace_def is_space_def EqualFold_def ToLower_def lower_char_def)

lemma demo_users:
  assumes "c \<in> set InternalComponents"
  shows "username (auth_spec plain_host) c = ''dd_Delivery001_'' @ c"
proof -
  have "slugBrokerID ''Delivery001'' = ''Delivery001''" by code_simp
  then show ?thesis
    using internal_slugs [OF assms] internal_names [OF assms] plain_config(1)
    by (simp add: username_def auth_spec_def Let_def BrokerCredentials_def DefaultBrokerUsername_def plain_host_def)
qed

lemma demo_auth_spec: "clean_spec (auth_spec plain_host) \<and> distinct_users (auth_spec plain_host)"
proof -
  let ?sp = "auth_spec plain_host"
  note u = demo_users
  have x: "aclExternal ?sp = []" by (simp add: auth_spec_def plain_host_def parseExternal_def Let_def)
  have c: "aclComponents ?sp = InternalComponents" by (simp add: auth_spec_def Let_def)
  have smi: "''security_monitor'' \<in> set InternalComponents" by (simp add: InternalComponents_def)
  have "aclTopicPrefix ?sp = ''v1.deliverydron.Delivery001''" "aclInstanceID ?sp = ''Delivery001''"
    by (simp_all add: auth_spec_def Let_def plain_config)
  then have "clean_spec ?sp" unfolding clean_spec_def x c using smi u by (auto simp: InternalComponents_def)
  moreover have "distinct_users ?sp" unfolding distinct_users_def x c by (auto simp: inj_on_def insert_absorb [OF smi] u)
  ultimately show ?thesis by simp
qed

theorem acl_least_privilege_witness:
  "{t. (username (auth_spec plain_host) ''motors'', Write, t) \<in> grants (fst (generate_mqtt_auth plain_host))} =
     {SecurityMonitorTopic (FromEnv plain_host)}"
  using acl_least_privilege [of plain_host "''motors''"] demo_auth_spec by (simp add: InternalComponents_def)

text \<open>C37. The list does not let replies through. A component answers a request of the monitor on the monitor's
  reply topic; the generated list lets nobody write to that topic, and does not let the monitor read it,
  unless an external publisher is bound to it. With the list in force every proxied request times out.\<close>

theorem acl_blocks_monitor_replies:
  assumes "clean_spec (auth_spec h)"
    and "\<And>e. e \<in> set (aclExternal (auth_spec h)) \<Longrightarrow> TrimSpace (extComponent e) \<notin> {''security_monitor'', ''replies.security_monitor''}"
  shows "(u, a, ReplyBrokerTopic ((FromEnv h)\<lparr>ComponentID := ''security_monitor''\<rparr>)) \<notin> grants (fst (generate_mqtt_auth h))"
proof -
  let ?sp = "auth_spec h" and ?p = "TopicPrefix (FromEnv h)"
  have comps: "aclComponents ?sp = InternalComponents" "aclTopicPrefix ?sp = ?p" by (simp_all add: auth_spec_def Let_def)
  have reply: "ReplyBrokerTopic ((FromEnv h)\<lparr>ComponentID := ''security_monitor''\<rparr>) = ?p @ ''.replies.security_monitor''"
    using internal_names [of "''security_monitor''"] by (simp add: ReplyBrokerTopic_def BrokerTopicFor_def InternalComponents_def)
  note g = generated_grants [OF assms(1)]
  have "?p @ ''.replies.security_monitor'' \<noteq> componentTopic ?sp c \<and> ?p @ ''.replies.security_monitor'' \<noteq> replyTopic ?sp c"
    if "c \<in> set InternalComponents" "c \<noteq> ''security_monitor''" for c
    using that internal_names [OF that(1)] by (auto simp: componentTopic_def replyTopic_def comps InternalComponents_def)
  moreover have "?p @ ''.replies.security_monitor'' \<noteq> componentTopic ?sp (TrimSpace (extComponent e)) \<and>
      ?p @ ''.replies.security_monitor'' \<noteq> replyTopic ?sp (TrimSpace (extComponent e))" if "e \<in> set (aclExternal ?sp)" for e
    using assms(2) [OF that] by (auto simp: componentTopic_def replyTopic_def comps)
  ultimately show ?thesis
    unfolding g reply acl_rules_def Let_def comps by (auto simp: comps)
qed

theorem acl_blocks_monitor_replies_witness:
  "(''dd_Delivery001_motors'', Write, ReplyBrokerTopic ((FromEnv plain_host)\<lparr>ComponentID := ''security_monitor''\<rparr>))
     \<notin> grants (fst (generate_mqtt_auth plain_host))"
proof (rule acl_blocks_monitor_replies)
  show "clean_spec (auth_spec plain_host)" using demo_auth_spec by simp
  fix e assume "e \<in> set (aclExternal (auth_spec plain_host))"
  then show "TrimSpace (extComponent e) \<notin> {''security_monitor'', ''replies.security_monitor''}"
    by (simp add: auth_spec_def plain_host_def parseExternal_def Let_def)
qed

end
