(* ===== verification/Certification.thy ===== *)
theory Certification
  imports Component_Base "HOL-Library.AList"
begin

text \<open>
  Package \<^verbatim>\<open>certification\<close> (\<^verbatim>\<open>client.go\<close>, \<^verbatim>\<open>envfile.go\<close>, \<^verbatim>\<open>types.go\<close>) and the command \<^verbatim>\<open>cmd/regulator_cert\<close>: the request for a
  firmware certificate, the reading of the regulator's answer, and the update of the environment file.
  What the Kafka client and the file system do is a record of outcomes, an argument of the definitions.
\<close>

section \<open>types.go\<close>

definition TopicFirmwareRequest :: string where
  "TopicFirmwareRequest = ''v1.firmware.certification.request''"

definition TopicFirmwareResult :: string where
  "TopicFirmwareResult = ''v1.firmware.certificate.result''"

record FirmwareCertRequest =
  fqRequestID :: string
  fqTimestamp :: int
  fqDeveloperID :: string
  fqDroneType :: string
  fqFirmware :: gmap

record FirmwareCertResult =
  frRequestID :: string
  frStatus :: string
  frCertificate :: "gmap option"

record FirmwareCertificate =
  fcCertificateID :: string
  fcStatus :: string
  fcSecurityGoalsChecked :: "string list"
  fcDigitalSignature :: string
  fcRaw :: gmap

record cert_options =
  oKafkaBootstrap :: string
  oDeveloperID :: string
  oDroneType :: string
  oRepositoryURL :: string
  oCommitHash :: string
  oVersion :: string
  oTimeout :: int

section \<open>client.go\<close>

fun string_items :: "gval list \<Rightarrow> string list" where
  "string_items [] = []"
| "string_items (GStr s # vs) = (if s \<noteq> [] then s # string_items vs else string_items vs)"
| "string_items (_ # vs) = string_items vs"

definition extractStringList :: "gval option \<Rightarrow> string list" where
  "extractStringList v = (case v of Some (GStrs xs) \<Rightarrow> xs | Some (GList vs) \<Rightarrow> string_items vs | _ \<Rightarrow> [])"

definition parseFirmwareCertificate :: "FirmwareCertResult option \<Rightarrow> string + FirmwareCertificate" where
  "parseFirmwareCertificate res =
     (case res of
        None \<Rightarrow> Inl ''empty regulator response''
      | Some r \<Rightarrow>
          let status = ToUpper (TrimSpace (frStatus r)) in
          if status \<noteq> ''CERTIFIED'' then
            Inl (''firmware certification '' @ status @ '' (request_id='' @ frRequestID r @ '')'')
          else case frCertificate r of
            None \<Rightarrow> Inl ''certified response missing certificate''
          | Some c \<Rightarrow>
              if get_str c ''certificate_id'' = [] then Inl ''certificate missing certificate_id''
              else
                let g1 = extractStringList (map_of c ''requirements_checked'');
                    g2 = (if g1 = [] then extractStringList (map_of c ''security_goals_checked'') else g1);
                    g3 = (if g2 = [] then extractStringList (map_of c ''security_goals'') else g2)
                in Inr \<lparr>fcCertificateID = get_str c ''certificate_id'', fcStatus = status, fcSecurityGoalsChecked = g3,
                        fcDigitalSignature = get_str c ''digital_signature'', fcRaw = c\<rparr>)"

text \<open>\<^verbatim>\<open>ConsumeClaim\<close>: a message is the decoded result, \<^const>\<open>None\<close> when it does not decode. The first result of this
  request goes into the channel, once; then the claim ends. The number counts the messages marked.\<close>

fun ConsumeClaim :: "string \<Rightarrow> FirmwareCertResult option \<Rightarrow> FirmwareCertResult option list \<Rightarrow> FirmwareCertResult option \<times> nat" where
  "ConsumeClaim rid ch [] = (ch, 0)"
| "ConsumeClaim rid ch (None # ms) = (let (c, n) = ConsumeClaim rid ch ms in (c, Suc n))"
| "ConsumeClaim rid ch (Some res # ms) =
     (if frRequestID res \<noteq> rid then (let (c, n) = ConsumeClaim rid ch ms in (c, Suc n))
      else (if ch = None then Some res else ch, 1))"

definition withDefaults :: "cert_options \<Rightarrow> cert_options" where
  "withDefaults opts =
     opts\<lparr>oTimeout := (if oTimeout opts \<le> 0 then 600000000000 else oTimeout opts),
          oKafkaBootstrap := orElse (oKafkaBootstrap opts) ''localhost:9092'',
          oDeveloperID := orElse (oDeveloperID opts) ''AMCP-Drones'',
          oDroneType := orElse (oDroneType opts) ''DeliveryDrone-X2''\<rparr>"

definition certRequest :: "int \<Rightarrow> int \<Rightarrow> cert_options \<Rightarrow> FirmwareCertRequest" where
  "certRequest now now' opts =
     \<lparr>fqRequestID = ''req-'' @ Itoa now, fqTimestamp = now', fqDeveloperID = oDeveloperID opts, fqDroneType = oDroneType opts,
      fqFirmware = [(''repository_url'', GStr (oRepositoryURL opts)), (''commit_hash'', GStr (oCommitHash opts)),
                    (''version'', GStr (oVersion opts))]\<rparr>"

text \<open>The outcomes of the Kafka client: errors of creating the consumer group and the producer and of sending; the
  messages of the claims, one list per claim, until the wait ends; an error of the consumer; and
  \<^verbatim>\<open>Duration.String\<close>. The \<^verbatim>\<open>select\<close> takes any of the channels that are ready: \<open>chosen\<close> is its choice. When
  neither an answer nor an error comes, the context ends by its time-out.\<close>

record cert_io =
  groupError :: "string option"
  producerError :: "string option"
  sendError :: "string option"
  claims :: "FirmwareCertResult option list list"
  consumeError :: "string option"
  expired :: bool
  chosen :: nat
  durationText :: "int \<Rightarrow> string"

definition awaited :: "string \<Rightarrow> cert_io \<Rightarrow> FirmwareCertResult option" where
  "awaited rid w = fold (\<lambda>ms ch. fst (ConsumeClaim rid ch ms)) (claims w) None"

definition ready :: "string \<Rightarrow> int \<Rightarrow> cert_io \<Rightarrow> (string + FirmwareCertificate) list" where
  "ready rid timeout w =
     (let results = (case awaited rid w of Some res \<Rightarrow> [parseFirmwareCertificate (Some res)] | None \<Rightarrow> []);
          errs = (case consumeError w of Some e \<Rightarrow> [Inl e] | None \<Rightarrow> []);
          ended = [Inl (''firmware certification timed out after '' @ durationText w timeout)]
      in results @ errs @ (if expired w \<or> results @ errs = [] then ended else []))"

definition RequestFirmwareCert :: "int \<Rightarrow> int \<Rightarrow> cert_io \<Rightarrow> cert_options \<Rightarrow> string + FirmwareCertificate" where
  "RequestFirmwareCert now now' w opts0 =
     (let opts = withDefaults opts0; req = certRequest now now' opts in
      if oRepositoryURL opts = [] then Inl ''repository URL is required''
      else if oCommitHash opts = [] then Inl ''commit hash is required''
      else case groupError w of Some e \<Rightarrow> Inl (''consumer group: '' @ e)
      | None \<Rightarrow> (case producerError w of Some e \<Rightarrow> Inl (''producer: '' @ e)
      | None \<Rightarrow> (case sendError w of Some e \<Rightarrow> Inl (''publish request: '' @ e)
      | None \<Rightarrow> (let rs = ready (fqRequestID req) (oTimeout opts) w in rs ! (chosen w mod length rs)))))"

section \<open>envfile.go\<close>

definition envKeyORVDCertificateID :: string where
  "envKeyORVDCertificateID = ''ORVD_CERTIFICATE_ID''"

text \<open>\<^verbatim>\<open>bufio.Scanner\<close> with \<^verbatim>\<open>ScanLines\<close>: lines without their end (a carriage return before it goes too), a last line
  without an end when it is not empty. The buffer holds 65536 bytes: at a line that does not fit
  with its end, the scanner stops and the rest of the input is not read.\<close>

definition maxToken :: int where
  "maxToken = 65536"

definition dropCR :: "string \<Rightarrow> string" where
  "dropCR s = (if s \<noteq> [] \<and> last s = CHR 0x0D then butlast s else s)"

fun scan_lines :: "string list \<Rightarrow> string list" where
  "scan_lines [] = []"
| "scan_lines [l] = (if l = [] \<or> maxToken \<le> int (length l) then [] else [dropCR l])"
| "scan_lines (l # l' # ls) = (if maxToken \<le> int (length l) then [] else dropCR l # scan_lines (l' # ls))"

definition splitEnvLines :: "string \<Rightarrow> string list" where
  "splitEnvLines data = scan_lines (Split data (CHR 0x0A))"

text \<open>\<open>strings.Cut(s, "=")\<close>: the parts before and after the first equals sign.\<close>

definition Cut :: "string \<Rightarrow> (string \<times> string) option" where
  "Cut s = (if CHR ''='' \<in> set s
     then Some (takeWhile (\<lambda>c. c \<noteq> CHR ''='') s, tl (dropWhile (\<lambda>c. c \<noteq> CHR ''='') s)) else None)"

text \<open>The variable and the value a line sets, if it sets one.\<close>

definition env_binding :: "string \<Rightarrow> (string \<times> string) option" where
  "env_binding line =
     (let trimmed = TrimSpace line in
      if trimmed = [] \<or> HasPrefix trimmed ''#'' then None
      else map_option (map_prod TrimSpace id) (Cut trimmed))"

fun setCertificate :: "string \<Rightarrow> string list \<Rightarrow> string list" where
  "setCertificate cid [] = [envKeyORVDCertificateID @ ''='' @ cid]"
| "setCertificate cid (l # ls) =
     (if map_option fst (env_binding l) = Some envKeyORVDCertificateID
      then (envKeyORVDCertificateID @ ''='' @ cid) # ls else l # setCertificate cid ls)"

definition env_body :: "string list \<Rightarrow> string" where
  "env_body lines = (let body = Join (CHR 0x0A) lines in if HasSuffix body [CHR 0x0A] then body else body @ [CHR 0x0A])"

datatype read_result = FileData string | NotExist | ReadError string

record file_io =
  fileRead :: read_result
  mkdirError :: "string option"
  writeError :: "string option"

text \<open>The error, or the new content of the file.\<close>

definition UpdateEnvFile :: "file_io \<Rightarrow> string \<Rightarrow> string + string" where
  "UpdateEnvFile w certificateID =
     (let cid = TrimSpace certificateID in
      if cid = [] then Inl ''certificate id is empty''
      else
        let update = (\<lambda>lines. let body = env_body (setCertificate cid lines) in
              case mkdirError w of Some e \<Rightarrow> Inl e
              | None \<Rightarrow> (case writeError w of Some e \<Rightarrow> Inl e | None \<Rightarrow> Inr body))
        in case fileRead w of
             FileData d \<Rightarrow> update (splitEnvLines d)
           | NotExist \<Rightarrow> update []
           | ReadError e \<Rightarrow> Inl e)"

section \<open>cmd/regulator\_cert\<close>

definition envOr :: "host \<Rightarrow> string \<Rightarrow> string \<Rightarrow> string" where
  "envOr h key fallback = orElse (Getenv h key) fallback"

text \<open>The values after flag parsing: \<open>flags\<close> gives what the command line sets, the timeout separately.\<close>

definition cli_options :: "host \<Rightarrow> (string \<Rightarrow> string option) \<Rightarrow> int \<Rightarrow> cert_options" where
  "cli_options h flags timeout =
     (let arg = (\<lambda>k d. case flags k of Some v \<Rightarrow> v | None \<Rightarrow> d) in
      \<lparr>oKafkaBootstrap = arg ''kafka'' (envOr h ''KAFKA_BOOTSTRAP_SERVERS'' ''localhost:9092''),
       oDeveloperID = arg ''developer'' (envOr h ''REGULATOR_DEVELOPER_ID'' ''AMCP-Drones''),
       oDroneType = arg ''drone-type'' (envOr h ''REGULATOR_DRONE_TYPE'' ''DeliveryDrone-X2''),
       oRepositoryURL = arg ''repo'' (envOr h ''REGULATOR_REPO_URL'' ''https://github.com/AMCP-Drones/drones''),
       oCommitHash = arg ''commit'' (envOr h ''GITHUB_SHA'' []),
       oVersion = arg ''version'' (envOr h ''GITHUB_REF_NAME'' []),
       oTimeout = timeout\<rparr>)"

text \<open>The optional dump of the certificate, after the environment file has been written: the outcomes of
  \<^verbatim>\<open>json.MarshalIndent\<close> and \<^verbatim>\<open>os.WriteFile\<close>, \<^const>\<open>None\<close> when no path is given.\<close>

definition certDump :: "(string option \<times> string option) option \<Rightarrow> string option" where
  "certDump out =
     (case out of
        None \<Rightarrow> None
      | Some (Some e, _) \<Rightarrow> Some (''marshal certificate: '' @ e)
      | Some (None, Some e) \<Rightarrow> Some (''write cert-out: '' @ e)
      | Some (None, None) \<Rightarrow> None)"

text \<open>\<^verbatim>\<open>main\<close>: a fatal error, or the new environment file with the certificate it names.\<close>

definition regulator_cert ::
    "int \<Rightarrow> int \<Rightarrow> cert_io \<Rightarrow> file_io \<Rightarrow> (string option \<times> string option) option \<Rightarrow> cert_options
      \<Rightarrow> string + string \<times> FirmwareCertificate" where
  "regulator_cert now now' w f out opts =
     (if oCommitHash opts = [] then Inl ''--commit or GITHUB_SHA is required''
      else case RequestFirmwareCert now now' w opts of
        Inl e \<Rightarrow> Inl (''certification failed: '' @ e)
      | Inr cert \<Rightarrow> (case UpdateEnvFile f (fcCertificateID cert) of
          Inl e \<Rightarrow> Inl (''update env file: '' @ e)
        | Inr body \<Rightarrow> (case certDump out of Some e \<Rightarrow> Inl e | None \<Rightarrow> Inr (body, cert))))"

section \<open>The answer that is accepted\<close>

lemma ConsumeClaim_from:
  "fst (ConsumeClaim rid ch ms) = Some r \<Longrightarrow> ch = Some r \<or> (Some r \<in> set ms \<and> frRequestID r = rid)"
  by (induction rid ch ms rule: ConsumeClaim.induct) (auto split: prod.splits if_splits)

lemma fold_claims_from:
  "fold (\<lambda>ms ch. fst (ConsumeClaim rid ch ms)) mss ch = Some r \<Longrightarrow>
     ch = Some r \<or> (\<exists>ms\<in>set mss. Some r \<in> set ms \<and> frRequestID r = rid)"
  by (induction mss arbitrary: ch) (auto dest: ConsumeClaim_from)

lemma awaited_from:
  assumes "awaited rid w = Some r"
  shows "\<exists>ms\<in>set (claims w). Some r \<in> set ms \<and> frRequestID r = rid"
  using assms fold_claims_from [of rid "claims w" None r] by (simp add: awaited_def)

lemma parse_certified:
  assumes "parseFirmwareCertificate (Some r) = Inr cert"
  shows "ToUpper (TrimSpace (frStatus r)) = ''CERTIFIED'' \<and> frCertificate r = Some (fcRaw cert) \<and>
    get_str (fcRaw cert) ''certificate_id'' = fcCertificateID cert \<and> fcCertificateID cert \<noteq> []"
  using assms by (auto simp: parseFirmwareCertificate_def Let_def split: if_splits option.splits)

lemma ready_not_Nil: "ready rid t w \<noteq> []"
  by (simp add: ready_def Let_def split: option.splits)

lemma ready_cert:
  assumes "Inr cert \<in> set (ready rid t w)"
  shows "\<exists>r. awaited rid w = Some r \<and> parseFirmwareCertificate (Some r) = Inr cert"
  using assms by (cases "awaited rid w") (auto simp: ready_def Let_def split: option.splits if_splits)

lemma request_cert:
  assumes "RequestFirmwareCert now now' w opts = Inr cert"
  shows "\<exists>r. awaited (''req-'' @ Itoa now) w = Some r \<and> parseFirmwareCertificate (Some r) = Inr cert"
proof -
  let ?rs = "ready (''req-'' @ Itoa now) (oTimeout (withDefaults opts)) w"
  have "?rs ! (chosen w mod length ?rs) = Inr cert"
    using assms by (simp add: RequestFirmwareCert_def certRequest_def Let_def split: if_splits option.splits)
  moreover have "?rs ! (chosen w mod length ?rs) \<in> set ?rs"
    using ready_not_Nil [of "''req-'' @ Itoa now" "oTimeout (withDefaults opts)" w] by simp
  ultimately show ?thesis by (auto dest: ready_cert)
qed

section \<open>The environment file as an association list\<close>

text \<open>What a file sets: the bindings of its lines in order.\<close>

definition env_bindings :: "string \<Rightarrow> (string \<times> string) list" where
  "env_bindings body = List.map_filter env_binding (splitEnvLines body)"

abbreviation short_line :: "string \<Rightarrow> bool" where
  "short_line l \<equiv> CHR 0x0A \<notin> set l \<and> int (length l) < maxToken"

lemma is_space_newlines [simp]: "is_space (CHR 0x0A)" "is_space (CHR 0x0D)"
  by (simp_all add: is_space_def)

lemma TrimSpace_snoc_space: "is_space c \<Longrightarrow> TrimSpace (s @ [c]) = TrimSpace s"
  by (cases "\<forall>x\<in>set s. is_space x")
    (auto simp: TrimSpace_def dropWhile_append dropWhile_eq_Nil_conv [THEN iffD2])

lemma TrimSpace_dropCR [simp]: "TrimSpace (dropCR l) = TrimSpace l"
proof (cases "l \<noteq> [] \<and> last l = CHR 0x0D")
  case True
  then have "TrimSpace l = TrimSpace (butlast l)"
    using TrimSpace_snoc_space [of "CHR 0x0D" "butlast l"] by (metis append_butlast_last_id is_space_newlines(2))
  with True show ?thesis by (simp add: dropCR_def)
qed (auto simp: dropCR_def)

lemma env_binding_dropCR [simp]: "env_binding (dropCR l) = env_binding l"
  by (simp add: env_binding_def)

lemma env_binding_Nil [simp]: "env_binding [] = None"
  by (simp add: env_binding_def)

lemma env_binding_certificate:
  assumes "TrimSpace cid = cid" "cid \<noteq> []"
  shows "env_binding (envKeyORVDCertificateID @ ''='' @ cid) = Some (envKeyORVDCertificateID, cid)"
proof -
  have "\<not> is_space (last cid)" using TrimSpace_ends(2) [of cid] assms by simp
  then have "TrimSpace (envKeyORVDCertificateID @ ''='' @ cid) = envKeyORVDCertificateID @ ''='' @ cid"
    using assms by (intro TrimSpace_id) (simp_all add: envKeyORVDCertificateID_def is_space_def)
  moreover have "TrimSpace envKeyORVDCertificateID = envKeyORVDCertificateID"
    by (rule TrimSpace_id) (simp_all add: envKeyORVDCertificateID_def is_space_def)
  ultimately show ?thesis
    by (simp add: env_binding_def Cut_def envKeyORVDCertificateID_def HasPrefix_def)
qed

lemma bindings_setCertificate:
  assumes "TrimSpace cid = cid" "cid \<noteq> []"
  shows "List.map_filter env_binding (setCertificate cid ls) =
    AList.update envKeyORVDCertificateID cid (List.map_filter env_binding ls)"
  using env_binding_certificate [OF assms]
  by (induction cid ls rule: setCertificate.induct) (auto simp: List.map_filter_simps split: option.splits)

lemma setCertificate_not_Nil [simp]: "setCertificate cid ls \<noteq> []"
  by (cases ls) simp_all

lemma setCertificate_lines:
  "l \<in> set (setCertificate cid ls) \<Longrightarrow> l \<in> set ls \<or> l = envKeyORVDCertificateID @ ''='' @ cid"
  by (induction cid ls rule: setCertificate.induct) (auto split: if_splits)

section \<open>Writing and reading lines\<close>

lemma Split_pieces: "p \<in> set (Split s c) \<Longrightarrow> c \<notin> set p"
  by (induction s c arbitrary: p rule: Split.induct) (auto split: list.splits if_splits)

lemma dropCR_short: "short_line l \<Longrightarrow> short_line (dropCR l)"
  by (auto simp: dropCR_def dest: in_set_butlastD)

lemma scan_lines_short:
  "(\<And>p. p \<in> set ps \<Longrightarrow> CHR 0x0A \<notin> set p) \<Longrightarrow> l \<in> set (scan_lines ps) \<Longrightarrow> short_line l"
proof (induction ps rule: scan_lines.induct)
  case (2 p)
  then show ?case using dropCR_short [of p] by (auto split: if_splits)
next
  case (3 p p' ps)
  then show ?case using dropCR_short [of p] by (auto split: if_splits)
qed simp

lemma splitEnvLines_short: "l \<in> set (splitEnvLines d) \<Longrightarrow> short_line l"
  unfolding splitEnvLines_def by (rule scan_lines_short) (auto dest: Split_pieces)

lemma scan_lines_terminated:
  "(\<And>l. l \<in> set ls \<Longrightarrow> int (length l) < maxToken) \<Longrightarrow> scan_lines (ls @ [[]]) = map dropCR ls"
proof (induction ls)
  case (Cons l ls)
  then show ?case by (cases ls) (simp_all add: not_le)
qed simp

lemma Join_snoc: "ls \<noteq> [] \<Longrightarrow> Join c (ls @ [l]) = Join c ls @ c # l"
  by (induction c ls rule: Join.induct) simp_all

lemma bindings_dropCR: "List.map_filter env_binding (map dropCR ls @ ls') = List.map_filter env_binding (ls @ ls')"
  by (induction ls) (simp_all add: List.map_filter_simps split: option.splits)

lemma env_body_lines:
  assumes "ls \<noteq> []" and lines: "\<And>l. l \<in> set ls \<Longrightarrow> short_line l"
  shows "\<exists>ls'. (ls = ls' \<or> ls = ls' @ [[]]) \<and> ls' \<noteq> [] \<and> env_body ls = Join (CHR 0x0A) (ls' @ [[]])"
proof (cases "HasSuffix (Join (CHR 0x0A) ls) [CHR 0x0A]")
  case False
  then show ?thesis using assms(1) by (auto simp: env_body_def Let_def Join_snoc)
next
  case True
  then have nl: "last (Join (CHR 0x0A) ls) = CHR 0x0A" and ne: "Join (CHR 0x0A) ls \<noteq> []"
    by (auto simp: HasSuffix_def suffix_def)
  have "last ls = []"
  proof (rule ccontr)
    assume "last ls \<noteq> []"
    then have "CHR 0x0A \<in> set (last ls)"
      using nl last_Join [OF assms(1), of "CHR 0x0A"] last_in_set [of "last ls"] by simp
    then show False using lines [of "last ls"] assms(1) by simp
  qed
  then obtain ls' where ls': "ls = ls' @ [[]]" using assms(1) by (metis append_butlast_last_id)
  moreover have "ls' \<noteq> []" using ls' ne by auto
  ultimately show ?thesis using True by (auto simp: env_body_def Let_def)
qed

lemma env_bindings_body:
  assumes "ls \<noteq> []" and lines: "\<And>l. l \<in> set ls \<Longrightarrow> short_line l"
  shows "env_bindings (env_body ls) = List.map_filter env_binding ls"
proof -
  obtain ls' where ls': "ls = ls' \<or> ls = ls' @ [[]]" "env_body ls = Join (CHR 0x0A) (ls' @ [[]])"
    using env_body_lines [OF assms] by blast
  have short: "\<And>l. l \<in> set ls' \<Longrightarrow> short_line l" using ls'(1) lines by auto
  have "splitEnvLines (env_body ls) = scan_lines (ls' @ [[]])"
    unfolding splitEnvLines_def ls'(2) using short by (subst Split_Join) auto
  also have "\<dots> = map dropCR ls'" using short by (simp add: scan_lines_terminated)
  finally show ?thesis
    using ls'(1) bindings_dropCR [of ls' "[]"] by (auto simp: env_bindings_def map_filter_def)
qed

section \<open>Properties\<close>

text \<open>C35. The command \<^verbatim>\<open>regulator_cert\<close> succeeds only with a certificate the regulator issued for this very request: some
  message of the result topic carries the request's own id, the status CERTIFIED and a certificate with a
  non-empty id; the file it writes is the old file with that id for \<^verbatim>\<open>ORVD_CERTIFICATE_ID\<close>. Results of other requests,
  rejections and incomplete certificates never reach the file.\<close>

theorem certificate_sound:
  assumes "regulator_cert now now' w f out opts = Inr (body, cert)"
  shows "(\<exists>ms\<in>set (claims w). \<exists>r. Some r \<in> set ms \<and> frRequestID r = ''req-'' @ Itoa now \<and>
      ToUpper (TrimSpace (frStatus r)) = ''CERTIFIED'' \<and> frCertificate r = Some (fcRaw cert)) \<and>
    get_str (fcRaw cert) ''certificate_id'' = fcCertificateID cert \<and> fcCertificateID cert \<noteq> [] \<and>
    UpdateEnvFile f (fcCertificateID cert) = Inr body \<and> oCommitHash opts \<noteq> [] \<and> oRepositoryURL opts \<noteq> []"
proof -
  have req: "RequestFirmwareCert now now' w opts = Inr cert" and "UpdateEnvFile f (fcCertificateID cert) = Inr body"
    and "oCommitHash opts \<noteq> []"
    using assms by (auto simp: regulator_cert_def split: if_splits sum.splits option.splits)
  moreover have "oRepositoryURL opts \<noteq> []"
    using req by (auto simp: RequestFirmwareCert_def withDefaults_def Let_def split: if_splits)
  ultimately show ?thesis
    using request_cert [OF req] by (fast dest: awaited_from parse_certified)
qed

definition exampleResult :: "string \<Rightarrow> string \<Rightarrow> FirmwareCertResult" where
  "exampleResult rid status =
     \<lparr>frRequestID = rid, frStatus = status, frCertificate = Some [(''certificate_id'', GStr ''FC-7'')]\<rparr>"

definition exampleCertIo :: cert_io where
  "exampleCertIo =
     \<lparr>groupError = None, producerError = None, sendError = None,
      claims = [[None, Some (exampleResult ''req-4'' ''CERTIFIED'')], [Some (exampleResult ''req-5'' ''certified '')]],
      consumeError = None, expired = False, chosen = 0, durationText = (\<lambda>_. ''15m0s'')\<rparr>"

definition exampleFile :: file_io where
  "exampleFile =
     \<lparr>fileRead = FileData (''A=1'' @ [CHR 0x0A] @ ''ORVD_CERTIFICATE_ID=old'' @ [CHR 0x0A] @ ''B=2''),
      mkdirError = None, writeError = None\<rparr>"

definition exampleOptions :: cert_options where
  "exampleOptions =
     \<lparr>oKafkaBootstrap = [], oDeveloperID = [], oDroneType = [], oRepositoryURL = ''r'', oCommitHash = ''c'',
      oVersion = [], oTimeout = 0\<rparr>"

definition exampleBody :: string where
  "exampleBody = ''A=1'' @ [CHR 0x0A] @ ''ORVD_CERTIFICATE_ID=FC-7'' @ [CHR 0x0A] @ ''B=2'' @ [CHR 0x0A]"

definition exampleCertificate :: FirmwareCertificate where
  "exampleCertificate =
     \<lparr>fcCertificateID = ''FC-7'', fcStatus = ''CERTIFIED'', fcSecurityGoalsChecked = [], fcDigitalSignature = [],
      fcRaw = [(''certificate_id'', GStr ''FC-7'')]\<rparr>"

theorem certificate_sound_witness:
  "regulator_cert 5 6 exampleCertIo exampleFile (Some (None, None)) exampleOptions = Inr (exampleBody, exampleCertificate) \<and>
   (\<exists>ms\<in>set (claims exampleCertIo). \<exists>r. Some r \<in> set ms \<and> frRequestID r = ''req-5'')"
proof -
  have go: "regulator_cert 5 6 exampleCertIo exampleFile (Some (None, None)) exampleOptions = Inr (exampleBody, exampleCertificate)"
    by code_simp
  moreover have "''req-'' @ Itoa 5 = ''req-5''" by code_simp
  ultimately show ?thesis using certificate_sound [OF go] by auto
qed



lemma scan_lines_cut: "maxToken \<le> int (length l) \<Longrightarrow> scan_lines (ps @ l # qs) = scan_lines (ps @ [[]])"
proof (induction ps)
  case Nil
  then show ?case by (cases qs) simp_all
next
  case (Cons p ps)
  then show ?case by (cases ps) simp_all
qed

lemma Split_append: "Split (s @ c # t) c = Split s c @ Split t c"
  by (induction s c rule: Split.induct) (auto split: list.splits)

text \<open>The scanner's error is not looked at, so a line of 65536 bytes or more in the environment file makes the
  update drop that line and everything after it: the file written is the same as if the old file
  ended there.\<close>

theorem env_update_truncates:
  assumes "CHR 0x0A \<notin> set long" "65536 \<le> length long"
  shows "UpdateEnvFile \<lparr>fileRead = FileData (d @ [CHR 0x0A] @ long @ [CHR 0x0A] @ rest), mkdirError = e, writeError = e'\<rparr> cid =
    UpdateEnvFile \<lparr>fileRead = FileData (d @ [CHR 0x0A]), mkdirError = e, writeError = e'\<rparr> cid"
proof -
  have "splitEnvLines (d @ CHR 0x0A # long @ CHR 0x0A # rest) = splitEnvLines (d @ [CHR 0x0A])"
    using assms scan_lines_cut [of long] by (simp add: splitEnvLines_def Split_append maxToken_def)
  then show ?thesis by (simp add: UpdateEnvFile_def Let_def split: option.split)
qed

theorem env_update_truncates_witness:
  "UpdateEnvFile \<lparr>fileRead = FileData (''A=1'' @ [CHR 0x0A] @ replicate 65536 (CHR ''x'') @ [CHR 0x0A] @ ''B=2''),
       mkdirError = None, writeError = None\<rparr> ''FC-7'' =
     Inr (''A=1'' @ [CHR 0x0A] @ ''ORVD_CERTIFICATE_ID=FC-7'' @ [CHR 0x0A])"
proof -
  have "UpdateEnvFile \<lparr>fileRead = FileData (''A=1'' @ [CHR 0x0A]), mkdirError = None, writeError = None\<rparr> ''FC-7'' =
      Inr (''A=1'' @ [CHR 0x0A] @ ''ORVD_CERTIFICATE_ID=FC-7'' @ [CHR 0x0A])"
    by code_simp
  then show ?thesis
    using env_update_truncates [of "replicate 65536 (CHR ''x'')" "''A=1''" "''B=2''" None None "''FC-7''"]
    by simp
qed

end
