(* ===== verification/Spec2Isabelle.thy ===== *)
theory Spec2Isabelle
  imports Lifecycle Autopilot_Mission Drone_Safety Broker_Acl Certification
begin

text \<open>
  The delivery drone system (module \<^verbatim>\<open>deliverydron\<close>): a set of processes on a message broker (Kafka or MQTT). Every
  process is a component with a topic, a table of handlers, and sometimes a loop. Components reach
  one another only through the security monitor, which forwards a message when its policy table holds the
  triple of sender, target topic and action. This development models all of these
  components, proves what each of them guarantees under every schedule of its goroutines, composes the ten components of
  a drone into one system, and follows their processes from \<^verbatim>\<open>main\<close> to the exit.

  \<^bold>\<open>How the code is represented.\<close> Pure functions are HOL functions. Everything that locks, publishes, requests or reads
  the clock is a finite tree of these effects (\<open>Effects\<close>), with the answers of the bus and the clock as
  inputs: a statement about a tree holds for every behaviour of the outside. The same tree is executed alone
  (\<open>run\<close>, for functional statements and for witnesses) and interleaved with any number of others over the
  shared state (\<open>reachable\<close>, for invariants). A structure of the source is split into what its constructor sets
  once (a \<open>_cfg\<close> record) and what changes (a \<open>_state\<close> record). An access that the code makes
  without the lock is a step of its own. Messages are Go's dynamic values (\<open>Go_Value\<close>), floating-point numbers are
  IEEE binary64 with correct rounding (\<open>Float64\<close>), the delivery counter and the lengths sent in messages are 64-bit words. Errors
  are values of a sum or option type.

  \<^bold>\<open>Theories.\<close>
  \<^item> \<open>Prelude\<close>, \<open>Float64\<close>, \<open>Go_Value\<close>, \<open>Effects\<close>: strings and maps of Go, numbers, dynamic values and their JSON image,
    effects and contracts. The locale \<open>goroutines\<close> states the interface of a process: entry points with an invariant,
    a guarantee on state changes and a set of messages that may be sent.
  \<^item> \<open>Config\<close> (\<^verbatim>\<open>config/src\<close>): settings, topics, broker users. \<open>Component_Base\<close> (\<^verbatim>\<open>component/src\<close>, \<^verbatim>\<open>sdk/src/messages.go\<close>,
    \<^verbatim>\<open>bus/src/bus.go\<close>): dispatcher, proxy client, audit logger, with the locales \<open>guarded_component\<close> (commands are obeyed
    from trusted senders only), \<open>commanded_component\<close> (and everything else is inert) and \<open>proxied_component\<close> (all
    traffic goes to the monitor under the own name). Each component theory interprets them on its own handlers.
  \<^item> \<open>Security_Monitor\<close>, \<open>Monitor_Gate\<close>, \<open>Monitor_Policies\<close> (\<^verbatim>\<open>security_monitor/src\<close>): the policy store, the proxy, isolation and the
    heartbeat watchdog; the refinement of an abstract gate (a mode bit and a set of policies); the text
    format of policies.
  \<^item> \<open>Motors\<close>, \<open>Cargo\<close>, \<open>Navigation\<close>, \<open>Delivery\<close>: the components of the same name under \<^verbatim>\<open>src\<close>.
  \<^item> \<open>Emergency\<close>, \<open>Emergency_Protocol\<close> (\<^verbatim>\<open>emergency/src\<close>): the emergency protocol (isolate, close, land, log) and the DronePort
    session.
  \<^item> \<open>Limiter\<close>, \<open>Limiter_Safety\<close> (\<^verbatim>\<open>limiter/src\<close>): geofence supervision, mission bounds, the traffic service's clearances.
  \<^item> \<open>Autopilot\<close>, \<open>Autopilot_Safety\<close> (\<^verbatim>\<open>autopilot/src\<close>): the command state machine, the preflight chain, the control
    round; \<open>Autopilot_Mission\<close>: the flight of a whole mission, round after round.
  \<^item> \<open>Mission_Handler\<close>, \<open>Mission_Load\<close> (\<^verbatim>\<open>mission_handler/src\<close>): the WPL parser and the hand-over of missions.
  \<^item> \<open>Journal\<close> (\<^verbatim>\<open>journal/src\<close>, \<^verbatim>\<open>sdk/src/analytics.go\<close>) and \<open>Telemetry\<close> (\<^verbatim>\<open>telemetry/src\<close>).
  \<^item> \<open>Message_Bus\<close> (\<^verbatim>\<open>bus/src\<close>): construction and subscriptions of the two adapters, and requests and answers as a transition
    system whose steps are single lock and channel operations.
  \<^item> \<open>Broker_Acl\<close> (\<^verbatim>\<open>bus/auth\<close>, \<^verbatim>\<open>tools/generate_mqtt_auth\<close>) and \<open>Certification\<close> (\<^verbatim>\<open>certification\<close>, \<^verbatim>\<open>cmd/regulator_cert\<close>).
  \<^item> \<open>Drone_System\<close>, \<open>System_Safety\<close>: the core, monitor, motors and cargo as concurrent processes on one broker that may delay,
    reorder and duplicate, next to a world that may send anything but cannot speak in the monitor's name. The locale
    \<open>hosted_process\<close> states how a process of a system serves a message; all five processes on the path of an alarm
    interpret it.
  \<^item> \<open>Full_System\<close>, \<open>Drone_Chain\<close>, \<open>Drone_Safety\<close>: the drone, ten components as concurrent processes in the state their
    constructors leave them. Each step of the drone is a step of the core in some world (a simulation), so what
    holds of the core holds of the drone; the chain of an alarm from the limiter through the monitor and the
    emergency component to the actuators; the two theorems about the drone.
  \<^item> \<open>Lifecycle\<close> (\<^verbatim>\<open>component/src/loop.go\<close>, \<^verbatim>\<open>Start\<close> and \<^verbatim>\<open>Stop\<close> of the components, the twelve programs under \<^verbatim>\<open>cmd\<close>): processes with
    a main function, loops, handlers and a bus. The locale \<open>bus_interface\<close> states what a component relies on and is
    interpreted on the two adapters; \<open>flag_contract\<close> states when a loop ends and is interpreted for limiter,
    autopilot and telemetry.

  \<^bold>\<open>What is shown.\<close> For the whole drone: the actuators change only by commands that the gate allowed, and
  from every state in which the limiter sees a breach of the geofence the drone can be carried to isolation, a closed
  bay and a landing. For every component: it comes up with its subscriptions in place or says why not, it keeps to
  the monitor, it drops commands of untrusted senders (this theory), and its state invariant holds under all
  interleavings. For the monitor: it forwards exactly what its table allows, isolation leaves exactly the
  emergency policies, and both match the abstract gate. For the limiter and the autopilot: a mission in force is
  within bounds, authorizations and clearances rest on answers of the authorities in the very same run, the
  state machine moves along its table only, the bay opens at a drop waypoint only, a mission is flown to its end waypoint by
  waypoint, and the control loops end after a stop. For the bus: answers are
  matched and not lost. Further: parsers are inverse to printers, the journal is append-only, the generated access
  list means what it says, a certificate is accepted only for its own request. Some theorems record behaviour
  that the code surely does not intend: colliding correlation ids, lost subscriptions, replies that the access list
  blocks, a resumed mission that was never cleared for takeoff, a geofence that measures to the last waypoint
  (lemma \<open>geofence_measures_last_waypoint\<close>).

  \<^bold>\<open>Parameters, bounds and fuel.\<close> Not in the repository's own code and therefore arguments: the process environment,
  \<^verbatim>\<open>strconv.ParseFloat\<close> and \<^verbatim>\<open>fmt.Sscanf\<close> (record \<open>host\<close>), the elementary functions of \<^verbatim>\<open>math\<close> (record \<open>libm\<close>), JSON as text where it is
  written to a file or parsed from one, and the outcomes of the operating system, of HTTP, and of the Kafka and
  MQTT clients. All definitions terminate: handlers are finite trees; the only loops of the source
  that run for ever are the tickers. In the theories of the components one round of a ticker is a thread that may be started any
  number of times; \<open>Lifecycle\<close> has the loop itself, as a step relation.
  The unwrapping of DronePort answers is bounded by five envelopes, as in the code. No other fuel is used.

  \<^bold>\<open>Not modelled.\<close> Logging; the shutdown of the HTTP server for health checks; \<^verbatim>\<open>MustNew\<close>, \<^verbatim>\<open>ParseMessage\<close> and \<^verbatim>\<open>Drone.State\<close>, which no
  program calls; the in-memory bus of the tests. Vendored libraries. Real time: timeouts and intervals appear as outcomes
  that may always occur. Case folding and white space follow Go on ASCII; the sign of a floating-point zero
  is not represented.
\<close>

section \<open>Every component keeps the architecture's rules\<close>

text \<open>A component's whole process sends, apart from replies, only to the monitor, and under its own name.\<close>

definition only_via_monitor :: "('s, unit) prog set \<Rightarrow> 's \<Rightarrow> string \<Rightarrow> string \<Rightarrow> bool" where
  "only_via_monitor H s0 mon self \<longleftrightarrow> (\<forall>s ps tr t m. reachable H s0 s ps tr \<and> (t, m) \<in> set (sent tr) \<and>
     get_str m ''action'' \<noteq> ''response'' \<longrightarrow> t = mon \<and> get_str m ''sender'' = self)"

text \<open>A dispatcher obeys its commands only from certain senders: a command of anyone else has no effect at all.\<close>

definition obeys_only :: "(gmap \<Rightarrow> ('s, unit) prog) \<Rightarrow> string set \<Rightarrow> string set \<Rightarrow> bool" where
  "obeys_only dispatch commands trusted \<longleftrightarrow> (\<forall>m. get_str m ''action'' \<in> commands \<and> get_str m ''sender'' \<notin> trusted \<longrightarrow>
     dispatch m = Ret ())"

lemma only_via_monitorI:
  "(\<And>s ps tr t m. reachable H s0 s ps tr \<Longrightarrow> (t, m) \<in> set (sent tr) \<Longrightarrow> get_str m ''action'' \<noteq> ''response'' \<Longrightarrow>
     t = mon \<and> get_str m ''sender'' = self) \<Longrightarrow> only_via_monitor H s0 mon self"
  unfolding only_via_monitor_def by blast

lemma cargo_via_monitor:
  assumes "cargo_out (fst (New_cargo h cfg now)) t m" "get_str m ''action'' \<noteq> ''response''"
  shows "t = secTopic h cfg \<and> get_str m ''sender'' = ComponentID cfg"
  using assms by (auto simp: cargo_out_def door_entry_def New_cargo_def proxy_msg_def get_str_def Let_def)

text \<open>C9. No bypass. In every schedule, the emergency component, the limiter, the autopilot, the mission handler, telemetry
  and the cargo bay send requests and publications only to the security monitor, each under its own id: they
  reach one another only through the policies, and none can speak in the monitor's name.\<close>

theorem components_never_bypass:
  "only_via_monitor (range (em_dispatch h (fst (New_em h cfg)))) (snd (New_em h cfg)) (secTopic h cfg) (ComponentID cfg) \<and>
   only_via_monitor (lim_threads L (fst (New_lim h cfg))) (snd (New_lim h cfg)) (secTopic h cfg) (ComponentID cfg) \<and>
   only_via_monitor (ap_threads L (fst (New_ap h cfg))) (snd (New_ap h cfg)) (secTopic h cfg) (ComponentID cfg) \<and>
   only_via_monitor (range (mh_dispatch h (fst (New_mh h cfg)))) (snd (New_mh h cfg)) (secTopic h cfg) (ComponentID cfg) \<and>
   only_via_monitor (tl_threads (fst (New_tl h cfg))) (snd (New_tl h cfg)) (secTopic h cfg) (ComponentID cfg) \<and>
   only_via_monitor (range (cargo_dispatch (fst (New_cargo h cfg now)))) (snd (New_cargo h cfg now)) (secTopic h cfg) (ComponentID cfg)"
proof (intro conjI only_via_monitorI)
  note names = New_em_def New_lim_def New_ap_def New_mh_def New_tl_def newBase_def Let_def
  fix t m
  assume a: "get_str m ''action'' \<noteq> ''response''"
  fix tr assume t: "(t, m) \<in> set (sent tr)"
  {
    fix s ps assume r: "reachable (range (em_dispatch h (fst (New_em h cfg)))) (snd (New_em h cfg)) s ps tr"
    show "t = secTopic h cfg" "get_str m ''sender'' = ComponentID cfg"
      using emergency.never_bypasses [OF r t a] by (simp_all add: names)
  next
    fix s ps assume r: "reachable (lim_threads L (fst (New_lim h cfg))) (snd (New_lim h cfg)) s ps tr"
    show "t = secTopic h cfg" "get_str m ''sender'' = ComponentID cfg"
      using limiter.never_bypasses [OF r t a] by (simp_all add: names)
  next
    fix s ps assume r: "reachable (ap_threads L (fst (New_ap h cfg))) (snd (New_ap h cfg)) s ps tr"
    show "t = secTopic h cfg" "get_str m ''sender'' = ComponentID cfg"
      using autopilot.never_bypasses [OF r t a] by (simp_all add: names)
  next
    fix s ps assume r: "reachable (range (mh_dispatch h (fst (New_mh h cfg)))) (snd (New_mh h cfg)) s ps tr"
    show "t = secTopic h cfg" "get_str m ''sender'' = ComponentID cfg"
      using mission_handler.never_bypasses [OF r t a] by (simp_all add: names)
  next
    fix s ps assume r: "reachable (tl_threads (fst (New_tl h cfg))) (snd (New_tl h cfg)) s ps tr"
    show "t = secTopic h cfg" "get_str m ''sender'' = ComponentID cfg"
      using telemetry_proxied.never_bypasses [OF r t a] by (simp_all add: names)
  next
    fix s ps assume r: "reachable (range (cargo_dispatch (fst (New_cargo h cfg now)))) (snd (New_cargo h cfg now)) s ps tr"
    show "t = secTopic h cfg" "get_str m ''sender'' = ComponentID cfg"
      using cargo_via_monitor [OF cargo.only_sent [OF r t] a] by simp_all
  }
qed


end
